theory Spec2Isabelle
  imports Complex_Main "HOL-Library.Word" "HOL-Library.Code_Target_Nat"
begin

section \<open>Errors\<close>

text \<open>
  Everything the two scripts throw, and the rejections of the promises they await, as
  values. \<open>ChunkFailed n\<close> is \<open>new Error(`Chunk ${n} failed`)\<close>, \<open>HttpError s\<close> an error built
  from a response of status \<open>s\<close>.
\<close>

datatype error =
    TypeError
  | RangeError
  | InvalidCharacterError
  | ReadError
  | NetworkError
  | JsonSyntaxError
  | HttpError nat
  | ChunkFailed nat
  | CompressionFailed
  | FileNotFoundInRegistry
  | CouldNotDeleteFile
  | FailedToUpdateDataJson

section \<open>Chunker\<close>

text \<open>
  A blob (and a \<open>Uint8Array\<close>) is a sequence of bytes. \<open>Blob.slice(start, end)\<close> clamps
  both positions to the size of the blob and is empty when \<open>end \<le> start\<close>.
\<close>

type_synonym byte = "8 word"
type_synonym blob = "byte list"

definition blob_slice :: "blob \<Rightarrow> nat \<Rightarrow> nat \<Rightarrow> blob" where
  "blob_slice b start stop = take (stop - start) (drop start b)"

text \<open>
  \<open>createChunks\<close> (the same loop in both source files; the second file also sets the
  chunking progress bar to 100 before returning): \<open>while (offset < blob.size)\<close>, with
  \<open>CONFIG.CHUNK_SIZE\<close> as the first argument. The loop does not end when the chunk size is 0
  and the blob is not empty; not returning is the value \<open>None\<close>.
\<close>

partial_function (option) createChunks_loop ::
  "nat \<Rightarrow> blob \<Rightarrow> nat \<Rightarrow> blob list \<Rightarrow> blob list option" where
  "createChunks_loop chunk_size b offset chunks =
     (if offset < length b
      then createChunks_loop chunk_size b (offset + chunk_size)
             (chunks @ [blob_slice b offset (offset + chunk_size)])
      else Some chunks)"

definition createChunks :: "nat \<Rightarrow> blob \<Rightarrow> blob list option" where
  "createChunks chunk_size b = createChunks_loop chunk_size b 0 []"

text \<open>The two configured chunk sizes: 20 MiB in \<open>script.js\<close>, 90 MiB in the second file.\<close>

definition CHUNK_SIZE :: nat where
  "CHUNK_SIZE = 20 * 1024 * 1024"

definition CHUNK_SIZE_part000 :: nat where
  "CHUNK_SIZE_part000 = 90 * 1024 * 1024"

text \<open>
  \<open>TypedArray.prototype.set(source, offset)\<close> throws a \<open>RangeError\<close> when the source does
  not fit at the offset; otherwise it overwrites the target there.
\<close>

definition typed_array_set :: "blob \<Rightarrow> blob \<Rightarrow> nat \<Rightarrow> error + blob" where
  "typed_array_set target source offset =
     (if offset + length source > length target then Inl RangeError
      else Inr (take offset target @ source @ drop (offset + length source) target))"

text \<open>
  \<open>combineChunks\<close> (inlined in \<open>downloadFile\<close> in the second file): the total length by
  \<open>reduce\<close>, a zero-filled array of that length, then \<open>forEach\<close> chunk a \<open>set\<close> at the
  running offset.
\<close>

fun combineChunks_forEach :: "blob list \<Rightarrow> blob \<Rightarrow> nat \<Rightarrow> error + blob" where
  "combineChunks_forEach [] combined offset = Inr combined"
| "combineChunks_forEach (chunk # chunks) combined offset =
     (case typed_array_set combined chunk offset of
        Inl e \<Rightarrow> Inl e
      | Inr combined' \<Rightarrow> combineChunks_forEach chunks combined' (offset + length chunk))"

definition combineChunks :: "blob list \<Rightarrow> error + blob" where
  "combineChunks chunks =
     (let total = foldl (\<lambda>sum c. sum + length c) 0 chunks
      in combineChunks_forEach chunks (replicate total 0) 0)"

section \<open>Category detection\<close>

text \<open>
  \<open>FILE_CATEGORIES\<close>, the same table in both files, in the order \<open>Object.entries\<close>
  enumerates it (the order of declaration); the icons are left out.
\<close>

definition FILE_CATEGORIES :: "(string \<times> string list) list" where
  "FILE_CATEGORIES =
     [(''game'', [''iso'', ''exe'', ''msi'', ''dmg'', ''app'', ''apk'', ''obb'', ''xapk'',
                  ''gba'', ''nes'', ''snes'', ''zip'']),
      (''archive'', [''zip'', ''rar'', ''7z'', ''tar'', ''gz'', ''bz2'', ''xz'', ''iso'']),
      (''video'', [''mp4'', ''mkv'', ''avi'', ''mov'', ''flv'', ''wmv'', ''webm'', ''mpg'',
                   ''mpeg'', ''m4v'']),
      (''image'', [''jpg'', ''jpeg'', ''png'', ''gif'', ''bmp'', ''svg'', ''webp'', ''tiff'',
                   ''ico'']),
      (''document'', [''pdf'', ''doc'', ''docx'', ''xls'', ''xlsx'', ''ppt'', ''pptx'', ''txt'',
                      ''rtf'']),
      (''executable'', [''exe'', ''msi'', ''dmg'', ''app'', ''sh'', ''bat'', ''cmd'']),
      (''iso'', [''iso'', ''bin'', ''cue'']),
      (''apk'', [''apk'', ''xapk'', ''obb''])]"

text \<open>
  Strings are sequences of code units below 256. On these \<open>toLowerCase\<close> moves
  \<open>A\<close> to \<open>Z\<close> and the capital letters of Latin-1 (\<open>0xC0\<close> to \<open>0xDE\<close> without the
  multiplication sign \<open>0xD7\<close>) up by 32 and keeps every other code unit.
\<close>

definition toLowerCase_char :: "char \<Rightarrow> char" where
  "toLowerCase_char c =
     (let n = (of_char c :: nat)
      in if (65 \<le> n \<and> n \<le> 90) \<or> (192 \<le> n \<and> n \<le> 222 \<and> n \<noteq> 215)
         then char_of (n + 32) else c)"

definition toLowerCase :: "string \<Rightarrow> string" where
  "toLowerCase s = map toLowerCase_char s"

text \<open>\<open>String.prototype.split(separator)\<close> for a separator of one character.\<close>

fun split :: "char \<Rightarrow> string \<Rightarrow> string list" where
  "split sep [] = [[]]"
| "split sep (c # cs) =
     (if c = sep then [] # split sep cs
      else (case split sep cs of
              [] \<Rightarrow> [[c]]
            | piece # pieces \<Rightarrow> (c # piece) # pieces))"

text \<open>\<open>Array.prototype.pop()\<close>: the last element, \<open>undefined\<close> (\<open>None\<close>) on an empty array.\<close>

definition pop :: "'a list \<Rightarrow> 'a option" where
  "pop xs = (if xs = [] then None else Some (last xs))"

text \<open>The \<open>for ... of Object.entries(FILE_CATEGORIES)\<close> loop with its early return.\<close>

fun detect_loop :: "(string \<times> string list) list \<Rightarrow> string \<Rightarrow> string" where
  "detect_loop [] ext = ''other''"
| "detect_loop ((category, extensions) # entries) ext =
     (if ext \<in> set extensions then category else detect_loop entries ext)"

text \<open>
  \<open>detectFileCategory\<close> over a table; calling \<open>toLowerCase\<close> on \<open>undefined\<close> would throw
  a \<open>TypeError\<close>.
\<close>

definition detectFileCategory_in ::
  "(string \<times> string list) list \<Rightarrow> string \<Rightarrow> error + string" where
  "detectFileCategory_in table filename =
     (case pop (split (CHR ''.'') filename) of
        None \<Rightarrow> Inl TypeError
      | Some e \<Rightarrow> Inr (detect_loop table (toLowerCase e)))"

definition detectFileCategory :: "string \<Rightarrow> error + string" where
  "detectFileCategory filename = detectFileCategory_in FILE_CATEGORIES filename"

section \<open>Numbers and the compression ratio\<close>

text \<open>
  A JavaScript number is a double (IEEE 754 binary64): a finite value, an infinity or
  \<open>NaN\<close>. A finite double is kept as the rational number it stands for. The sign of a zero
  is not kept: the only divisor below is a byte count, and \<open>toFixed\<close> prints both zeros
  alike.
\<close>

datatype jsnum = Finite rat | PosInfinity | NegInfinity | NaN

text \<open>The number of binary digits of a natural number.\<close>

fun bit_length :: "nat \<Rightarrow> nat" where
  "bit_length n = (if n = 0 then 0 else Suc (bit_length (n div 2)))"

declare bit_length.simps [simp del]

text \<open>
  The binary exponent of a positive rational \<open>x\<close>: the integer \<open>e\<close> with
  \<open>2^e \<le> x < 2^(e+1)\<close>. The digits of numerator and denominator give it up to one, and a
  comparison decides.
\<close>

definition exponent_of :: "rat \<Rightarrow> int" where
  "exponent_of x =
     (case quotient_of x of
        (p, q) \<Rightarrow>
          (let k = int (bit_length (nat p)) - int (bit_length (nat q))
           in if 2 powi k \<le> x then k else k - 1))"

text \<open>The nearest integer, the even one of two equally near.\<close>

definition round_half_even :: "rat \<Rightarrow> int" where
  "round_half_even y =
     (let n = \<lfloor>y\<rfloor>; r = y - of_int n
      in if r < 1 / 2 then n else if 1 / 2 < r then n + 1 else if even n then n else n + 1)"

text \<open>
  The double nearest to an exact result, as every arithmetic operation of JavaScript
  delivers it (round to nearest, ties to even): a significand of 53 binary digits, so a
  value of exponent \<open>e\<close> is rounded to a multiple of \<open>2^(e-52)\<close>; below \<open>2^-1022\<close> the
  multiples of \<open>2^-1074\<close> are all there is; a rounded magnitude of \<open>2^1024\<close> or more is an
  infinity.
\<close>

definition binary64 :: "rat \<Rightarrow> jsnum" where
  "binary64 x =
     (if x = 0 then Finite 0
      else
        (let a = \<bar>x\<bar>;
             q = max (exponent_of a - 52) (- 1074);
             r = of_int (round_half_even (a / 2 powi q)) * 2 powi q
         in if 2 ^ 1024 \<le> r then (if 0 < x then PosInfinity else NegInfinity)
            else Finite (if 0 < x then r else - r)))"

text \<open>
  Division, subtraction and multiplication of doubles. Division does not throw: a finite
  value over zero is an infinity, or \<open>NaN\<close> for \<open>0 / 0\<close>.
\<close>

fun js_div :: "jsnum \<Rightarrow> jsnum \<Rightarrow> jsnum" where
  "js_div (Finite a) (Finite b) =
     (if b = 0 then (if a = 0 then NaN else if a > 0 then PosInfinity else NegInfinity)
      else binary64 (a / b))"
| "js_div NaN _ = NaN"
| "js_div _ NaN = NaN"
| "js_div (Finite a) _ = Finite 0"
| "js_div PosInfinity (Finite b) = (if b < 0 then NegInfinity else PosInfinity)"
| "js_div NegInfinity (Finite b) = (if b < 0 then PosInfinity else NegInfinity)"
| "js_div _ _ = NaN"

fun js_sub :: "jsnum \<Rightarrow> jsnum \<Rightarrow> jsnum" where
  "js_sub (Finite a) (Finite b) = binary64 (a - b)"
| "js_sub NaN _ = NaN"
| "js_sub _ NaN = NaN"
| "js_sub (Finite a) PosInfinity = NegInfinity"
| "js_sub (Finite a) NegInfinity = PosInfinity"
| "js_sub PosInfinity PosInfinity = NaN"
| "js_sub NegInfinity NegInfinity = NaN"
| "js_sub PosInfinity _ = PosInfinity"
| "js_sub NegInfinity _ = NegInfinity"

fun js_mul :: "jsnum \<Rightarrow> jsnum \<Rightarrow> jsnum" where
  "js_mul (Finite a) (Finite b) = binary64 (a * b)"
| "js_mul NaN _ = NaN"
| "js_mul _ NaN = NaN"
| "js_mul (Finite a) PosInfinity =
     (if a = 0 then NaN else if a > 0 then PosInfinity else NegInfinity)"
| "js_mul (Finite a) NegInfinity =
     (if a = 0 then NaN else if a > 0 then NegInfinity else PosInfinity)"
| "js_mul PosInfinity (Finite b) =
     (if b = 0 then NaN else if b > 0 then PosInfinity else NegInfinity)"
| "js_mul NegInfinity (Finite b) =
     (if b = 0 then NaN else if b > 0 then NegInfinity else PosInfinity)"
| "js_mul PosInfinity PosInfinity = PosInfinity"
| "js_mul NegInfinity NegInfinity = PosInfinity"
| "js_mul _ _ = NegInfinity"

text \<open>Decimal digits of a natural number.\<close>

definition digit :: "nat \<Rightarrow> char" where
  "digit d = ''0123456789'' ! d"

fun digits :: "nat \<Rightarrow> string" where
  "digits n = (if n < 10 then [digit n] else digits (n div 10) @ [digit (n mod 10)])"

declare digits.simps [simp del]

text \<open>
  \<open>Number.prototype.toFixed(2)\<close>, which works on the exact value of the double: the
  hundredths nearest to the absolute value (the larger of two equally near), written with
  two decimals, after a minus sign when the number is negative; the names of the
  infinities and of \<open>NaN\<close> otherwise. (Values of \<open>10^21\<close> and more, printed in exponent
  form, do not arise from byte counts.)
\<close>

definition hundredths :: "rat \<Rightarrow> nat" where
  "hundredths x = nat \<lfloor>\<bar>x\<bar> * 100 + 1 / 2\<rfloor>"

definition two_decimals :: "bool \<Rightarrow> nat \<Rightarrow> string" where
  "two_decimals negative n =
     (if negative then ''-'' else []) @ digits (n div 100) @ ''.'' @
     [digit (n mod 100 div 10), digit (n mod 10)]"

fun toFixed2 :: "jsnum \<Rightarrow> string" where
  "toFixed2 NaN = ''NaN''"
| "toFixed2 PosInfinity = ''Infinity''"
| "toFixed2 NegInfinity = ''-Infinity''"
| "toFixed2 (Finite r) = two_decimals (r < 0) (hundredths r)"

text \<open>
  The expression of \<open>updateRegistry\<close> and \<open>updateDataJson\<close>:
  \<open>((1 - compressedSize / originalSize) * 100).toFixed(2)\<close>. The two sizes are byte
  counts: integers below \<open>2^53\<close>, which are doubles as they stand.
\<close>

definition compressionRatio_of :: "nat \<Rightarrow> nat \<Rightarrow> string" where
  "compressionRatio_of compressedSize originalSize =
     toFixed2 (js_mul (js_sub (Finite 1)
                 (js_div (Finite (of_nat compressedSize)) (Finite (of_nat originalSize))))
               (Finite 100))"

section \<open>Registry, application state and the outside world\<close>

text \<open>
  A \<open>FileEntry\<close> as the two scripts build it: \<open>folder\<close> is written by \<open>script.js\<close> only,
  \<open>chunks\<close> and \<open>status\<close> by the second file only. \<open>id\<close> is \<open>`file_${Date.now()}`\<close>, kept
  as the clock reading; timestamps are clock readings too.
\<close>

record FileEntry =
  id_stamp :: nat
  name :: string
  category :: string
  originalSize :: nat
  compressedSize :: nat
  compressionRatio :: string
  chunkCount :: nat
  uploadedAt :: nat
  folder :: "string option"
  chunks :: "string list option"
  status :: "string option"

record registry =
  version :: string
  createdAt :: nat
  lastUpdated :: nat
  files :: "FileEntry list"

record settings =
  token :: string
  owner :: string
  repo :: string
  branch :: string

text \<open>The selected \<open>File\<close>: its name and its size; its bytes are seen by the codec only.\<close>

record jsfile =
  file_name :: string
  file_size :: nat

record appState =
  selectedFile :: "jsfile option"
  settings :: settings
  isUploading :: bool
  isDownloading :: bool
  dataJson :: registry

text \<open>
  Paths of the remote store, by what they address: the registry \<open>data.json\<close>, the metadata
  object of a file (of its folder in \<open>script.js\<close>), and its chunk of a given number
  (from 1).
\<close>

datatype path = DataFile | MetadataFile string | ChunkFile string nat

datatype payload =
    ChunkBody blob
  | MetadataBody string nat "nat option" nat string
  | RegistryBody registry

text \<open>A request: \<open>PUT\<close> and \<open>DELETE\<close> carry the \<open>sha\<close> field of their body, when it has one.\<close>

datatype request =
    GET path
  | PUT path payload "string option"
  | DELETE path "string option"

text \<open>
  What \<open>response.json()\<close> yields, as far as the scripts read it: the \<open>sha\<close> and, for the
  registry, the document in \<open>content\<close>.
\<close>

datatype json = Json (json_sha: "string option") (json_content: "registry option")

text \<open>
  The outcome of a \<open>fetch\<close>: the promise rejects, or a response with its status and its
  body (\<open>None\<close> when the body is not JSON, so that \<open>response.json()\<close> rejects).
\<close>

datatype response = Rejected | Response nat "json option"

definition ok :: "nat \<Rightarrow> bool" where
  "ok st = (200 \<le> st \<and> st \<le> 299)"

text \<open>
  The outside world of one operation. \<open>fetch E req k\<close> answers the request \<open>req\<close> issued
  for the \<open>k\<close>-th time (from 0); \<open>blobToBase64_ok E i k\<close> tells whether reading chunk \<open>i\<close>
  succeeds at attempt \<open>k\<close>; \<open>compressFile\<close> is the codec with the file reader in front;
  \<open>btoa_ok\<close> tells whether the JSON text of a document is in the range \<open>btoa\<close> accepts,
  \<open>btoa_ok_metadata\<close> the same for the metadata object of the file of a given name;
  \<open>confirm\<close> is the user's answer to the dialog; \<open>now\<close> the clock.
\<close>

record env =
  fetch :: "request \<Rightarrow> nat \<Rightarrow> response"
  blobToBase64_ok :: "nat \<Rightarrow> nat \<Rightarrow> bool"
  compressFile :: "jsfile \<Rightarrow> error + blob"
  compressionLib_loaded :: bool
  btoa_ok :: "registry \<Rightarrow> bool"
  btoa_ok_metadata :: "string \<Rightarrow> bool"
  confirm :: bool
  now :: nat

text \<open>
  What an operation does besides changing \<open>appState\<close>, in order: requests sent, the log
  line of a completed chunk (\<open>ChunkLogged i total\<close>), progress reports, delays, and the
  final status message. Other log lines and DOM updates are left out.
\<close>

datatype status_message = StatusSuccess | StatusError "error option"

datatype event =
    Fetch request
  | ChunkLogged nat nat
  | UpdateProgress rat
  | Delay nat
  | ShowStatus status_message
  | LoadUploadedFiles
  | SwitchTab string

record world =
  app :: appState
  trace :: "event list"

type_synonym 'a io = "world \<Rightarrow> (error + 'a) \<times> world"

definition return :: "'a \<Rightarrow> 'a io" where
  "return x = (\<lambda>w. (Inr x, w))"

definition throw :: "error \<Rightarrow> 'a io" where
  "throw e = (\<lambda>w. (Inl e, w))"

definition bind :: "'a io \<Rightarrow> ('a \<Rightarrow> 'b io) \<Rightarrow> 'b io" where
  "bind m f = (\<lambda>w. case m w of (Inl e, w') \<Rightarrow> (Inl e, w') | (Inr x, w') \<Rightarrow> f x w')"

definition catch :: "'a io \<Rightarrow> (error \<Rightarrow> 'a io) \<Rightarrow> 'a io" where
  "catch m h = (\<lambda>w. case m w of (Inl e, w') \<Rightarrow> h e w' | (Inr x, w') \<Rightarrow> (Inr x, w'))"

definition add_event :: "event \<Rightarrow> world \<Rightarrow> world" where
  "add_event ev w = w\<lparr>trace := trace w @ [ev]\<rparr>"

definition emit :: "event \<Rightarrow> unit io" where
  "emit ev = (\<lambda>w. (Inr (), add_event ev w))"

definition lift :: "error + 'a \<Rightarrow> 'a io" where
  "lift r = (\<lambda>w. (r, w))"

definition validateSettings :: "appState \<Rightarrow> bool" where
  "validateSettings a =
     (token (settings a) \<noteq> [] \<and> owner (settings a) \<noteq> [] \<and> repo (settings a) \<noteq> [])"

text \<open>\<open>x || undefined\<close> on a string that may be \<open>null\<close>: the empty string is dropped too.\<close>

definition or_undefined :: "string option \<Rightarrow> string option" where
  "or_undefined x = (case x of None \<Rightarrow> None | Some s \<Rightarrow> if s = [] then None else Some s)"

text \<open>\<open>Array.prototype.slice(start, end)\<close> for \<open>0 \<le> start\<close> and \<open>0 \<le> end\<close>.\<close>

definition array_slice :: "'a list \<Rightarrow> nat \<Rightarrow> nat \<Rightarrow> 'a list" where
  "array_slice xs start stop = take (stop - start) (drop start xs)"

section \<open>Transfer engine of \<open>script.js\<close>: batches of five\<close>

definition PARALLEL_BATCH :: nat where
  "PARALLEL_BATCH = 5"

definition ASSETS_FOLDER :: string where
  "ASSETS_FOLDER = ''files''"

text \<open>
  \<open>name.replace(/[/\?*:|"<>]/g, '_')\<close>: the class holds the slash, the question mark, the
  star, the colon, the bar, the double quote (\<open>0x22\<close>) and the two angle brackets.
\<close>

definition sanitize :: "string \<Rightarrow> string" where
  "sanitize s =
     map (\<lambda>c. if c \<in> set (''/?*:|<>'' @ [CHR 0x22]) then CHR ''_'' else c) s"

definition fileFolder_of :: "string \<Rightarrow> string" where
  "fileFolder_of fileName = ASSETS_FOLDER @ ''/'' @ sanitize fileName"

text \<open>
  One pass through the \<open>try\<close> block of \<open>uploadChunk\<close>: read the chunk, \<open>PUT\<close> it, and
  return on status 201 or 200; every other outcome is thrown into the \<open>catch\<close>.
\<close>

definition uploadChunk_try ::
  "env \<Rightarrow> string \<Rightarrow> blob \<Rightarrow> nat \<Rightarrow> nat \<Rightarrow> nat \<Rightarrow> unit io" where
  "uploadChunk_try E fileFolder chunkData chunkIndex totalChunks attempt =
     (if \<not> blobToBase64_ok E chunkIndex attempt then throw ReadError
      else
        (let req = PUT (ChunkFile fileFolder (chunkIndex + 1)) (ChunkBody chunkData) None
         in bind (emit (Fetch req)) (\<lambda>_.
              case fetch E req attempt of
                Rejected \<Rightarrow> throw NetworkError
              | Response st body \<Rightarrow>
                  if st = 201 \<or> st = 200
                  then emit (ChunkLogged (chunkIndex + 1) totalChunks)
                  else throw (HttpError st))))"

text \<open>
  The \<open>while (attempt < 3)\<close> loop of \<open>uploadChunk\<close>, entered with the current value of
  \<open>attempt\<close>: the \<open>catch\<close> counts the attempt, waits \<open>1000 * attempt\<close> ms before the next
  one, and throws \<open>Chunk n failed\<close> after the third.
\<close>

function uploadChunk_from ::
  "env \<Rightarrow> string \<Rightarrow> blob \<Rightarrow> nat \<Rightarrow> nat \<Rightarrow> nat \<Rightarrow> unit io" where
  "uploadChunk_from E fileFolder chunkData chunkIndex totalChunks attempt w =
     (if attempt < 3 then
        (case uploadChunk_try E fileFolder chunkData chunkIndex totalChunks attempt w of
           (Inr u, w') \<Rightarrow> (Inr u, w')
         | (Inl e, w') \<Rightarrow>
             (if attempt + 1 < 3
              then uploadChunk_from E fileFolder chunkData chunkIndex totalChunks (attempt + 1)
                     (add_event (Delay (1000 * (attempt + 1))) w')
              else (Inl (ChunkFailed (chunkIndex + 1)), w')))
      else (Inr (), w))"
  by pat_completeness auto
termination
  by (relation "measure (\<lambda>(E, fileFolder, chunkData, chunkIndex, totalChunks, attempt, w). 3 - attempt)")
     auto

declare uploadChunk_from.simps [simp del]

definition uploadChunk :: "env \<Rightarrow> string \<Rightarrow> blob \<Rightarrow> nat \<Rightarrow> nat \<Rightarrow> unit io" where
  "uploadChunk E fileFolder chunkData chunkIndex totalChunks =
     uploadChunk_from E fileFolder chunkData chunkIndex totalChunks 0"

text \<open>
  \<open>Promise.all\<close> over the members of a batch. It rejects as soon as one member rejects,
  and the other members go on in the background. What the members do is recorded member
  after member, in the order of the batch (the interleaving of concurrent members is the
  scheduler's); of several rejections the one of the earliest member is kept.
\<close>

fun promise_all :: "unit io list \<Rightarrow> unit io" where
  "promise_all [] w = (Inr (), w)"
| "promise_all (m # ms) w =
     (case m w of
        (r, w') \<Rightarrow>
          (case promise_all ms w' of
             (rs, w'') \<Rightarrow> (case r of Inl e \<Rightarrow> (Inl e, w'') | Inr u \<Rightarrow> (rs, w''))))"

text \<open>
  The \<open>for (let i = 0; i < total; i += CONFIG.PARALLEL_BATCH)\<close> loop of
  \<open>uploadChunksParallel\<close>, entered with the current value of \<open>i\<close>.
\<close>

function uploadChunksParallel_from ::
  "env \<Rightarrow> blob list \<Rightarrow> string \<Rightarrow> nat \<Rightarrow> unit io" where
  "uploadChunksParallel_from E cs fileFolder i w =
     (let total = length cs in
      if i < total then
        (let batch = array_slice cs i (min (i + PARALLEL_BATCH) total)
         in case promise_all
                   (map (\<lambda>(chunk, idx). uploadChunk E fileFolder chunk (i + idx) total)
                        (zip batch [0..<length batch])) w of
              (Inl e, w') \<Rightarrow> (Inl e, w')
            | (Inr u, w') \<Rightarrow>
                uploadChunksParallel_from E cs fileFolder (i + PARALLEL_BATCH)
                  (add_event
                     (UpdateProgress (of_nat (i + length batch) / of_nat total * 100)) w'))
      else (Inr (), w))"
  by pat_completeness auto
termination
  by (relation "measure (\<lambda>(E, cs, fileFolder, i, w). length cs - i)")
     (auto simp: PARALLEL_BATCH_def)

declare uploadChunksParallel_from.simps [simp del]

definition uploadChunksParallel :: "env \<Rightarrow> blob list \<Rightarrow> string \<Rightarrow> unit io" where
  "uploadChunksParallel E cs fileFolder = uploadChunksParallel_from E cs fileFolder 0"

section \<open>Transfer engine of the second file: one chunk at a time\<close>

definition RETRY_ATTEMPTS :: nat where
  "RETRY_ATTEMPTS = 3"

definition RETRY_DELAY :: nat where
  "RETRY_DELAY = 2000"

text \<open>
  One pass through the \<open>try\<close> block of \<open>uploadChunkToGitHub\<close>: a response that is not
  \<open>ok\<close> is thrown, after its body has been parsed for the message.
\<close>

definition uploadChunkToGitHub_try ::
  "env \<Rightarrow> path \<Rightarrow> blob \<Rightarrow> nat \<Rightarrow> nat \<Rightarrow> nat \<Rightarrow> unit io" where
  "uploadChunkToGitHub_try E filePath chunkData chunkIndex totalChunks attempt =
     (if \<not> blobToBase64_ok E chunkIndex attempt then throw ReadError
      else
        (let req = PUT filePath (ChunkBody chunkData) None
         in bind (emit (Fetch req)) (\<lambda>_.
              case fetch E req attempt of
                Rejected \<Rightarrow> throw NetworkError
              | Response st body \<Rightarrow>
                  if \<not> ok st
                  then (case body of None \<Rightarrow> throw JsonSyntaxError | Some j \<Rightarrow> throw (HttpError st))
                  else emit (ChunkLogged (chunkIndex + 1) totalChunks))))"

text \<open>
  The \<open>while (attempt < CONFIG.RETRY_ATTEMPTS)\<close> loop of \<open>uploadChunkToGitHub\<close>: the
  \<open>catch\<close> counts the attempt, waits \<open>CONFIG.RETRY_DELAY\<close> before the next one, and
  rethrows the error of the last.
\<close>

function uploadChunkToGitHub_from ::
  "env \<Rightarrow> path \<Rightarrow> blob \<Rightarrow> nat \<Rightarrow> nat \<Rightarrow> nat \<Rightarrow> unit io" where
  "uploadChunkToGitHub_from E filePath chunkData chunkIndex totalChunks attempt w =
     (if attempt < RETRY_ATTEMPTS then
        (case uploadChunkToGitHub_try E filePath chunkData chunkIndex totalChunks attempt w of
           (Inr u, w') \<Rightarrow> (Inr u, w')
         | (Inl e, w') \<Rightarrow>
             (if attempt + 1 < RETRY_ATTEMPTS
              then uploadChunkToGitHub_from E filePath chunkData chunkIndex totalChunks
                     (attempt + 1) (add_event (Delay RETRY_DELAY) w')
              else (Inl e, w')))
      else (Inr (), w))"
  by pat_completeness auto
termination
  by (relation "measure (\<lambda>(E, filePath, chunkData, chunkIndex, totalChunks, attempt, w).
                  RETRY_ATTEMPTS - attempt)")
     auto

declare uploadChunkToGitHub_from.simps [simp del]

definition uploadChunkToGitHub ::
  "env \<Rightarrow> path \<Rightarrow> blob \<Rightarrow> nat \<Rightarrow> nat \<Rightarrow> unit io" where
  "uploadChunkToGitHub E filePath chunkData chunkIndex totalChunks =
     uploadChunkToGitHub_from E filePath chunkData chunkIndex totalChunks 0"

text \<open>
  The \<open>for (let i = 0; i < totalChunks; i++)\<close> loop of \<open>uploadChunks\<close>, entered with the
  current value of \<open>i\<close>: progress is reported after each chunk, and an error of a chunk is
  rethrown.
\<close>

function uploadChunks_from :: "env \<Rightarrow> blob list \<Rightarrow> string \<Rightarrow> nat \<Rightarrow> unit io" where
  "uploadChunks_from E cs originalFilename i w =
     (let totalChunks = length cs in
      if i < totalChunks then
        (case uploadChunkToGitHub E (ChunkFile originalFilename (i + 1)) (cs ! i) i totalChunks w of
           (Inl e, w') \<Rightarrow> (Inl e, w')
         | (Inr u, w') \<Rightarrow>
             uploadChunks_from E cs originalFilename (i + 1)
               (add_event (UpdateProgress (of_nat (i + 1) / of_nat totalChunks * 100)) w'))
      else (Inr (), w))"
  by pat_completeness auto
termination
  by (relation "measure (\<lambda>(E, cs, originalFilename, i, w). length cs - i)") auto

declare uploadChunks_from.simps [simp del]

definition uploadChunks :: "env \<Rightarrow> blob list \<Rightarrow> string \<Rightarrow> unit io" where
  "uploadChunks E cs originalFilename = uploadChunks_from E cs originalFilename 0"

section \<open>Registry manager and orchestration of \<open>script.js\<close>\<close>

text \<open>
  \<open>saveMetadata\<close>: one \<open>PUT\<close> inside a \<open>try\<close> whose \<open>catch\<close> only logs; the response is
  not read. The metadata object is encoded (\<open>btoa\<close>) inside the \<open>try\<close>, while the
  arguments of \<open>fetch\<close> are built: when that throws, no request is sent.
\<close>

definition saveMetadata :: "env \<Rightarrow> string \<Rightarrow> string \<Rightarrow> nat \<Rightarrow> nat \<Rightarrow> nat \<Rightarrow> unit io" where
  "saveMetadata E fileFolder fileName chunkCount' originalSize' compressedSize' =
     bind (lift (detectFileCategory fileName)) (\<lambda>category'.
       catch
         (if \<not> btoa_ok_metadata E fileName then throw InvalidCharacterError
          else emit (Fetch (PUT (MetadataFile fileFolder)
                              (MetadataBody fileName chunkCount' (Some originalSize')
                                 compressedSize' category')
                              None)))
         (\<lambda>e. return ()))"

text \<open>The object literal \<open>entry\<close> of \<open>updateRegistry\<close>.\<close>

definition updateRegistry_entry ::
  "env \<Rightarrow> string \<Rightarrow> nat \<Rightarrow> nat \<Rightarrow> nat \<Rightarrow> string \<Rightarrow> FileEntry" where
  "updateRegistry_entry E fileName chunkCount' originalSize' compressedSize' category' =
     \<lparr> id_stamp = now E, name = fileName, category = category',
       originalSize = originalSize', compressedSize = compressedSize',
       compressionRatio = compressionRatio_of compressedSize' originalSize',
       chunkCount = chunkCount', uploadedAt = now E,
       folder = Some (fileFolder_of fileName), chunks = None, status = None \<rparr>"

text \<open>\<open>files.push(entry)\<close> followed by the new \<open>lastUpdated\<close>.\<close>

definition pushed :: "env \<Rightarrow> FileEntry \<Rightarrow> registry \<Rightarrow> registry" where
  "pushed E entry doc = doc\<lparr> files := files doc @ [entry], lastUpdated := now E \<rparr>"

text \<open>
  \<open>updateRegistry\<close>: the entry is pushed onto the registry held in \<open>appState\<close> and
  \<open>lastUpdated\<close> is set; that document is encoded (\<open>btoa\<close>, outside every \<open>try\<close>); then
  a \<open>GET\<close> of \<open>data.json\<close> whose only use is the \<open>sha\<close> (any failure of it leaves \<open>sha\<close>
  at \<open>null\<close>), and one \<open>PUT\<close> whose response is not read and whose rejection is caught
  and logged.
\<close>

definition updateRegistry ::
  "env \<Rightarrow> string \<Rightarrow> nat \<Rightarrow> nat \<Rightarrow> nat \<Rightarrow> string \<Rightarrow> unit io" where
  "updateRegistry E fileName chunkCount' originalSize' compressedSize' category' w =
     (let entry = updateRegistry_entry E fileName chunkCount' originalSize' compressedSize'
                    category';
          doc = pushed E entry (dataJson (app w));
          w1 = w\<lparr> app := (app w)\<lparr> dataJson := doc \<rparr> \<rparr>
      in if \<not> btoa_ok E doc then (Inl InvalidCharacterError, w1)
         else
           (let w2 = add_event (Fetch (GET DataFile)) w1;
                sha = (case fetch E (GET DataFile) 0 of
                         Rejected \<Rightarrow> None
                       | Response st body \<Rightarrow>
                           (if ok st
                            then (case body of None \<Rightarrow> None | Some j \<Rightarrow> json_sha j)
                            else None))
            in (Inr (), add_event (Fetch (PUT DataFile (RegistryBody doc) (or_undefined sha))) w2)))"

text \<open>
  \<open>startUpload\<close>. \<open>None\<close> stands for not returning (the chunking loop); the result of the
  handler is otherwise always normal, since its \<open>catch\<close> turns every error into a status
  message. \<open>loadUploadedFiles()\<close> is started and not awaited, and the reset of the
  selection is left to a timer: both are later than the end of this operation.
\<close>

definition startUpload_body :: "env \<Rightarrow> jsfile \<Rightarrow> blob \<Rightarrow> blob list \<Rightarrow> unit io" where
  "startUpload_body E file compressed cs =
     bind (uploadChunksParallel E cs (fileFolder_of (file_name file))) (\<lambda>_.
     bind (saveMetadata E (fileFolder_of (file_name file)) (file_name file) (length cs)
             (file_size file) (length compressed)) (\<lambda>_.
     bind (lift (detectFileCategory (file_name file))) (\<lambda>category'.
     bind (updateRegistry E (file_name file) (length cs) (file_size file) (length compressed)
             category') (\<lambda>_.
     bind (emit (ShowStatus StatusSuccess)) (\<lambda>_.
     emit LoadUploadedFiles)))))"

definition set_isUploading :: "bool \<Rightarrow> world \<Rightarrow> world" where
  "set_isUploading b w = w\<lparr> app := (app w)\<lparr> isUploading := b \<rparr> \<rparr>"

definition handle_failure :: "error \<Rightarrow> unit io" where
  "handle_failure e = emit (ShowStatus (StatusError (Some e)))"

definition startUpload :: "env \<Rightarrow> world \<Rightarrow> ((error + unit) \<times> world) option" where
  "startUpload E w =
     (case selectedFile (app w) of
        None \<Rightarrow> Some (Inr (), w)
      | Some file \<Rightarrow>
          if isUploading (app w) then Some (Inr (), w)
          else if \<not> validateSettings (app w)
          then Some (bind (emit (ShowStatus (StatusError None))) (\<lambda>_.
                       emit (SwitchTab ''settings'')) w)
          else
            (let w1 = set_isUploading True w
             in case compressFile E file of
                  Inl e \<Rightarrow>
                    Some (case handle_failure e w1 of (r, w') \<Rightarrow> (r, set_isUploading False w'))
                | Inr compressed \<Rightarrow>
                    (case createChunks CHUNK_SIZE compressed of
                       None \<Rightarrow> None
                     | Some cs \<Rightarrow>
                         Some (case catch (startUpload_body E file compressed cs) handle_failure w1 of
                                 (r, w') \<Rightarrow> (r, set_isUploading False w')))))"

text \<open>
  \<open>deleteGitHubFile\<close>: a \<open>GET\<close> for the \<open>sha\<close>; nothing more when the object is not there;
  otherwise a \<open>DELETE\<close> whose response is not read. Rejections are not caught here.
\<close>

definition deleteGitHubFile :: "env \<Rightarrow> path \<Rightarrow> unit io" where
  "deleteGitHubFile E filePath =
     bind (emit (Fetch (GET filePath))) (\<lambda>_.
       case fetch E (GET filePath) 0 of
         Rejected \<Rightarrow> throw NetworkError
       | Response st body \<Rightarrow>
           if \<not> ok st then return ()
           else (case body of
                   None \<Rightarrow> throw JsonSyntaxError
                 | Some j \<Rightarrow>
                     bind (emit (Fetch (DELETE filePath (json_sha j)))) (\<lambda>_.
                       case fetch E (DELETE filePath (json_sha j)) 0 of
                         Rejected \<Rightarrow> throw NetworkError
                       | Response st' body' \<Rightarrow> return ())))"

text \<open>The \<open>for (let i = 1; i <= entry.chunkCount; i++)\<close> loop of \<open>deleteFile\<close>, as a count down
  of the chunks still to delete.\<close>

fun deleteChunks_from :: "env \<Rightarrow> string \<Rightarrow> nat \<Rightarrow> nat \<Rightarrow> unit io" where
  "deleteChunks_from E folderPath i 0 = return ()"
| "deleteChunks_from E folderPath i (Suc remaining) =
     bind (deleteGitHubFile E (ChunkFile folderPath i)) (\<lambda>_.
       deleteChunks_from E folderPath (i + 1) remaining)"

definition set_files :: "FileEntry list \<Rightarrow> unit io" where
  "set_files fs = (\<lambda>w. (Inr (), w\<lparr> app := (app w)\<lparr> dataJson := (dataJson (app w))\<lparr> files := fs \<rparr> \<rparr> \<rparr>))"

text \<open>
  \<open>deleteFile\<close> of \<open>script.js\<close>. \<open>find\<close> yields \<open>undefined\<close> for a name that is not in
  the registry, and reading \<open>entry.chunkCount\<close> then throws a \<open>TypeError\<close>. After the
  filter the registry is written by \<open>updateRegistry('', 0, 0, 0, '')\<close>.
\<close>

definition deleteFile_body :: "env \<Rightarrow> string \<Rightarrow> string \<Rightarrow> unit io" where
  "deleteFile_body E fileName folderPath =
     bind (deleteGitHubFile E (MetadataFile folderPath)) (\<lambda>_. (\<lambda>w.
       (case find (\<lambda>f. name f = fileName) (files (dataJson (app w))) of
          None \<Rightarrow> throw TypeError
        | Some entry \<Rightarrow>
            bind (deleteChunks_from E folderPath 1 (chunkCount entry)) (\<lambda>_. (\<lambda>w'.
              bind (set_files (filter (\<lambda>f. name f \<noteq> fileName) (files (dataJson (app w'))))) (\<lambda>_.
              bind (updateRegistry E [] 0 0 0 []) (\<lambda>_.
              bind (emit (ShowStatus StatusSuccess)) (\<lambda>_.
              emit LoadUploadedFiles))) w'))) w))"

definition deleteFile :: "env \<Rightarrow> string \<Rightarrow> string \<Rightarrow> unit io" where
  "deleteFile E fileName folderPath =
     (if \<not> confirm E then return ()
      else catch (deleteFile_body E fileName folderPath)
             (\<lambda>e. emit (ShowStatus (StatusError None))))"

section \<open>Registry manager and orchestration of the second file\<close>

text \<open>
  The functions of the second source file that share a name with one of \<open>script.js\<close>
  carry the suffix \<open>_part000\<close>.
\<close>

text \<open>
  \<open>saveFileMetadata\<close>: as \<open>saveMetadata\<close>, one \<open>PUT\<close> inside a \<open>try\<close> whose \<open>catch\<close> logs
  a warning; the metadata object is encoded inside the \<open>try\<close>, and the response decides
  only whether a line is logged.
\<close>

definition saveFileMetadata :: "env \<Rightarrow> string \<Rightarrow> nat \<Rightarrow> nat \<Rightarrow> unit io" where
  "saveFileMetadata E filename chunkCount' compressedSize' =
     bind (lift (detectFileCategory filename)) (\<lambda>category'.
       catch
         (if \<not> btoa_ok_metadata E filename then throw InvalidCharacterError
          else emit (Fetch (PUT (MetadataFile filename)
                              (MetadataBody filename chunkCount' None compressedSize' category')
                              None)))
         (\<lambda>e. return ()))"

text \<open>
  \<open>uploadDataJsonToGitHub\<close>: the registry held in \<open>appState\<close> is encoded (outside the
  \<open>try\<close>); inside it a \<open>GET\<close> of \<open>data.json\<close> for the \<open>sha\<close>, one \<open>PUT\<close>, and a throw when the
  response is not \<open>ok\<close>; the \<open>catch\<close> logs a warning and the function returns.
\<close>

definition uploadDataJsonToGitHub :: "env \<Rightarrow> unit io" where
  "uploadDataJsonToGitHub E w =
     (let doc = dataJson (app w)
      in if \<not> btoa_ok E doc then (Inl InvalidCharacterError, w)
         else
           catch
             (bind (emit (Fetch (GET DataFile))) (\<lambda>_.
                case fetch E (GET DataFile) 0 of
                  Rejected \<Rightarrow> throw NetworkError
                | Response st body \<Rightarrow>
                    bind (if ok st
                          then (case body of
                                  None \<Rightarrow> throw JsonSyntaxError
                                | Some j \<Rightarrow> return (json_sha j))
                          else return None) (\<lambda>sha.
                    bind (emit (Fetch (PUT DataFile (RegistryBody doc) (or_undefined sha)))) (\<lambda>_.
                      case fetch E (PUT DataFile (RegistryBody doc) (or_undefined sha)) 0 of
                        Rejected \<Rightarrow> throw NetworkError
                      | Response st' body' \<Rightarrow>
                          if \<not> ok st' then throw FailedToUpdateDataJson else return ()))))
             (\<lambda>e. return ()) w)"

definition chunk_names :: "string \<Rightarrow> nat \<Rightarrow> string list" where
  "chunk_names filename chunkCount' =
     map (\<lambda>i. filename @ ''.part'' @ digits (i + 1) @ ''.gz'') [0..<chunkCount']"

definition push_entry :: "env \<Rightarrow> FileEntry \<Rightarrow> unit io" where
  "push_entry E entry =
     (\<lambda>w. (Inr (), w\<lparr> app := (app w)\<lparr> dataJson := pushed E entry (dataJson (app w)) \<rparr> \<rparr>))"

text \<open>The object literal \<open>fileEntry\<close> of \<open>updateDataJson\<close>.\<close>

definition updateDataJson_entry ::
  "env \<Rightarrow> string \<Rightarrow> nat \<Rightarrow> nat \<Rightarrow> nat \<Rightarrow> string \<Rightarrow> FileEntry" where
  "updateDataJson_entry E filename chunkCount' originalSize' compressedSize' category' =
     \<lparr> id_stamp = now E, name = filename, category = category',
       originalSize = originalSize', compressedSize = compressedSize',
       compressionRatio = compressionRatio_of compressedSize' originalSize',
       chunkCount = chunkCount', uploadedAt = now E,
       folder = None, chunks = Some (chunk_names filename chunkCount'),
       status = Some ''complete'' \<rparr>"

text \<open>
  \<open>updateDataJson\<close>: everything is inside one \<open>try\<close> whose \<open>catch\<close> logs a warning.
\<close>

definition updateDataJson :: "env \<Rightarrow> string \<Rightarrow> nat \<Rightarrow> nat \<Rightarrow> nat \<Rightarrow> unit io" where
  "updateDataJson E filename chunkCount' originalSize' compressedSize' =
     catch
       (bind (lift (detectFileCategory filename)) (\<lambda>category'.
        bind (push_entry E
                (updateDataJson_entry E filename chunkCount' originalSize' compressedSize'
                   category')) (\<lambda>_.
        uploadDataJsonToGitHub E)))
       (\<lambda>e. return ())"

definition startUpload_body_part000 :: "env \<Rightarrow> jsfile \<Rightarrow> blob \<Rightarrow> blob list \<Rightarrow> unit io" where
  "startUpload_body_part000 E file compressed cs =
     bind (uploadChunks E cs (file_name file)) (\<lambda>_.
     bind (saveFileMetadata E (file_name file) (length cs) (length compressed)) (\<lambda>_.
     bind (updateDataJson E (file_name file) (length cs) (file_size file) (length compressed)) (\<lambda>_.
     bind (emit (ShowStatus StatusSuccess)) (\<lambda>_.
     emit LoadUploadedFiles))))"

definition startUpload_part000 :: "env \<Rightarrow> world \<Rightarrow> ((error + unit) \<times> world) option" where
  "startUpload_part000 E w =
     (case selectedFile (app w) of
        None \<Rightarrow> Some (emit (ShowStatus (StatusError None)) w)
      | Some file \<Rightarrow>
          if \<not> validateSettings (app w)
          then Some (bind (emit (ShowStatus (StatusError None))) (\<lambda>_.
                       emit (SwitchTab ''settings'')) w)
          else if \<not> compressionLib_loaded E
          then Some (emit (ShowStatus (StatusError None)) w)
          else
            (let w1 = set_isUploading True w
             in case compressFile E file of
                  Inl e \<Rightarrow>
                    Some (case handle_failure e w1 of (r, w') \<Rightarrow> (r, set_isUploading False w'))
                | Inr compressed \<Rightarrow>
                    (case createChunks CHUNK_SIZE_part000 compressed of
                       None \<Rightarrow> None
                     | Some cs \<Rightarrow>
                         Some (case catch (startUpload_body_part000 E file compressed cs)
                                      handle_failure w1 of
                                 (r, w') \<Rightarrow> (r, set_isUploading False w')))))"

text \<open>
  \<open>deleteFileFromGitHub\<close>: the \<open>GET\<close> is parsed whatever its status, and a \<open>DELETE\<close> that
  is not \<open>ok\<close> throws.
\<close>

definition deleteFileFromGitHub :: "env \<Rightarrow> path \<Rightarrow> unit io" where
  "deleteFileFromGitHub E filePath =
     bind (emit (Fetch (GET filePath))) (\<lambda>_.
       case fetch E (GET filePath) 0 of
         Rejected \<Rightarrow> throw NetworkError
       | Response st body \<Rightarrow>
           (case body of
              None \<Rightarrow> throw JsonSyntaxError
            | Some j \<Rightarrow>
                bind (emit (Fetch (DELETE filePath (json_sha j)))) (\<lambda>_.
                  case fetch E (DELETE filePath (json_sha j)) 0 of
                    Rejected \<Rightarrow> throw NetworkError
                  | Response st' body' \<Rightarrow>
                      if \<not> ok st' then throw CouldNotDeleteFile else return ())))"

fun deleteChunks_from_part000 :: "env \<Rightarrow> string \<Rightarrow> nat \<Rightarrow> nat \<Rightarrow> unit io" where
  "deleteChunks_from_part000 E filename i 0 = return ()"
| "deleteChunks_from_part000 E filename i (Suc remaining) =
     bind (deleteFileFromGitHub E (ChunkFile filename i)) (\<lambda>_.
       deleteChunks_from_part000 E filename (i + 1) remaining)"

definition set_files_stamped :: "env \<Rightarrow> FileEntry list \<Rightarrow> unit io" where
  "set_files_stamped E fs =
     (\<lambda>w. (Inr (), w\<lparr> app := (app w)\<lparr> dataJson :=
               (dataJson (app w))\<lparr> files := fs, lastUpdated := now E \<rparr> \<rparr> \<rparr>))"

text \<open>
  \<open>deleteFile\<close> of the second file: a name that \<open>find\<close> does not meet in the registry is
  thrown as \<open>File not found in registry\<close>, and the \<open>catch\<close> shows
  \<open>Delete failed: File not found in registry\<close>.
\<close>

definition deleteFile_body_part000 :: "env \<Rightarrow> string \<Rightarrow> unit io" where
  "deleteFile_body_part000 E filename =
     (\<lambda>w.
       (case find (\<lambda>f. name f = filename) (files (dataJson (app w))) of
          None \<Rightarrow> throw FileNotFoundInRegistry
        | Some fileEntry \<Rightarrow>
            bind (deleteChunks_from_part000 E filename 1 (chunkCount fileEntry)) (\<lambda>_.
            bind (deleteFileFromGitHub E (MetadataFile filename)) (\<lambda>_. (\<lambda>w'.
              bind (set_files_stamped E
                      (filter (\<lambda>f. name f \<noteq> filename) (files (dataJson (app w'))))) (\<lambda>_.
              bind (uploadDataJsonToGitHub E) (\<lambda>_.
              bind (emit (ShowStatus StatusSuccess)) (\<lambda>_.
              emit LoadUploadedFiles))) w')))) w)"

definition deleteFile_part000 :: "env \<Rightarrow> string \<Rightarrow> unit io" where
  "deleteFile_part000 E filename =
     (if \<not> confirm E then return ()
      else catch (deleteFile_body_part000 E filename)
             (\<lambda>e. emit (ShowStatus (StatusError (Some e)))))"

section \<open>Reading a trace\<close>

text \<open>The writes of the registry in a trace: the document and the \<open>sha\<close> each one carries.\<close>

definition registry_puts :: "event list \<Rightarrow> (registry \<times> string option) list" where
  "registry_puts evs =
     concat (map (\<lambda>ev. case ev of
                         Fetch (PUT DataFile (RegistryBody d) s) \<Rightarrow> [(d, s)]
                       | _ \<Rightarrow> []) evs)"

text \<open>The requests, the delays, the progress reports and the chunk log lines of a trace.\<close>

definition fetches_of :: "event list \<Rightarrow> request list" where
  "fetches_of evs = concat (map (\<lambda>ev. case ev of Fetch r \<Rightarrow> [r] | _ \<Rightarrow> []) evs)"

definition delays_of :: "event list \<Rightarrow> nat list" where
  "delays_of evs = concat (map (\<lambda>ev. case ev of Delay ms \<Rightarrow> [ms] | _ \<Rightarrow> []) evs)"

definition progress_of :: "event list \<Rightarrow> rat list" where
  "progress_of evs = concat (map (\<lambda>ev. case ev of UpdateProgress p \<Rightarrow> [p] | _ \<Rightarrow> []) evs)"

definition chunk_logs_of :: "event list \<Rightarrow> nat list" where
  "chunk_logs_of evs = concat (map (\<lambda>ev. case ev of ChunkLogged i t \<Rightarrow> [i] | _ \<Rightarrow> []) evs)"

text \<open>
  An attempt at a chunk fails when the chunk cannot be read, the request is rejected, or
  the status is not the one the script accepts: 201 or 200 in \<open>script.js\<close>, any \<open>ok\<close>
  status in the second file.
\<close>

definition attempt_fails :: "env \<Rightarrow> string \<Rightarrow> blob \<Rightarrow> nat \<Rightarrow> nat \<Rightarrow> bool" where
  "attempt_fails E fileFolder chunkData chunkIndex attempt =
     (\<not> blobToBase64_ok E chunkIndex attempt \<or>
      (case fetch E (PUT (ChunkFile fileFolder (chunkIndex + 1)) (ChunkBody chunkData) None) attempt of
         Rejected \<Rightarrow> True
       | Response st body \<Rightarrow> \<not> (st = 201 \<or> st = 200)))"

definition attempt_fails_part000 :: "env \<Rightarrow> path \<Rightarrow> blob \<Rightarrow> nat \<Rightarrow> nat \<Rightarrow> bool" where
  "attempt_fails_part000 E filePath chunkData chunkIndex attempt =
     (\<not> blobToBase64_ok E chunkIndex attempt \<or>
      (case fetch E (PUT filePath (ChunkBody chunkData) None) attempt of
         Rejected \<Rightarrow> True
       | Response st body \<Rightarrow> \<not> ok st))"

text \<open>A chunk is exhausted when all three attempts at it fail.\<close>

definition exhausted :: "env \<Rightarrow> string \<Rightarrow> blob \<Rightarrow> nat \<Rightarrow> bool" where
  "exhausted E fileFolder chunkData chunkIndex =
     (attempt_fails E fileFolder chunkData chunkIndex 0 \<and>
      attempt_fails E fileFolder chunkData chunkIndex 1 \<and>
      attempt_fails E fileFolder chunkData chunkIndex 2)"

definition exhausted_part000 :: "env \<Rightarrow> path \<Rightarrow> blob \<Rightarrow> nat \<Rightarrow> bool" where
  "exhausted_part000 E filePath chunkData chunkIndex =
     (attempt_fails_part000 E filePath chunkData chunkIndex 0 \<and>
      attempt_fails_part000 E filePath chunkData chunkIndex 1 \<and>
      attempt_fails_part000 E filePath chunkData chunkIndex 2)"

text \<open>
  The number of attempts at a chunk that fail before one succeeds, among the first three:
  3 when none of them succeeds.
\<close>

definition failed_attempts :: "(nat \<Rightarrow> bool) \<Rightarrow> nat" where
  "failed_attempts fails = length (takeWhile fails [0, 1, 2])"

text \<open>
  Whether a deletion in the store goes through. In the second file
  (\<open>deleteFileFromGitHub\<close>) it does when the answer to the \<open>GET\<close> parses and the \<open>DELETE\<close>
  is answered with an \<open>ok\<close> status. In \<open>script.js\<close> (\<open>deleteGitHubFile\<close>) nothing is
  checked, and it throws only when a request is rejected or the answer to an \<open>ok\<close> \<open>GET\<close>
  does not parse.
\<close>

definition remote_delete_ok_part000 :: "env \<Rightarrow> path \<Rightarrow> bool" where
  "remote_delete_ok_part000 E p =
     (case fetch E (GET p) 0 of
        Rejected \<Rightarrow> False
      | Response st body \<Rightarrow>
          (case body of
             None \<Rightarrow> False
           | Some j \<Rightarrow>
               (case fetch E (DELETE p (json_sha j)) 0 of
                  Rejected \<Rightarrow> False
                | Response st' body' \<Rightarrow> ok st')))"

definition remote_delete_throws :: "env \<Rightarrow> path \<Rightarrow> bool" where
  "remote_delete_throws E p =
     (case fetch E (GET p) 0 of
        Rejected \<Rightarrow> True
      | Response st body \<Rightarrow>
          ok st \<and>
          (case body of
             None \<Rightarrow> True
           | Some j \<Rightarrow>
               (case fetch E (DELETE p (json_sha j)) 0 of
                  Rejected \<Rightarrow> True
                | Response st' body' \<Rightarrow> False)))"

section \<open>Sample inputs\<close>

text \<open>The state of a page that has its settings and an empty registry.\<close>

definition sample_registry :: registry where
  "sample_registry = \<lparr> version = ''1.0'', createdAt = 0, lastUpdated = 0, files = [] \<rparr>"

definition sample_app :: appState where
  "sample_app =
     \<lparr> selectedFile = None,
       settings = \<lparr> token = ''t'', owner = ''o'', repo = ''r'', branch = ''main'' \<rparr>,
       isUploading = False, isDownloading = False, dataJson = sample_registry \<rparr>"

definition sample_world :: world where
  "sample_world = \<lparr> app = sample_app, trace = [] \<rparr>"

text \<open>The same page after a file of 10 bytes has been selected.\<close>

definition sample_selected :: world where
  "sample_selected =
     sample_world\<lparr> app := sample_app\<lparr> selectedFile :=
                                 Some \<lparr> file_name = ''a.bin'', file_size = 10 \<rparr> \<rparr> \<rparr>"

text \<open>An entry that another client has written to the remote registry.\<close>

definition other_entry :: FileEntry where
  "other_entry =
     \<lparr> id_stamp = 1, name = ''a.txt'', category = ''document'', originalSize = 10,
       compressedSize = 5, compressionRatio = ''50.00'', chunkCount = 1, uploadedAt = 1,
       folder = Some ''files/a.txt'', chunks = None, status = None \<rparr>"

definition remote_registry :: registry where
  "remote_registry = sample_registry\<lparr> files := [other_entry], lastUpdated := 1 \<rparr>"

text \<open>
  A store that holds \<open>remote_registry\<close> under the token \<open>s1\<close> and answers every write of
  the registry with 409; every other request succeeds.
\<close>

definition env_conflict :: env where
  "env_conflict =
     \<lparr> fetch = (\<lambda>req k. case req of
                     GET DataFile \<Rightarrow> Response 200 (Some (Json (Some ''s1'') (Some remote_registry)))
                   | PUT DataFile body sha \<Rightarrow> Response 409 (Some (Json None None))
                   | PUT p body sha \<Rightarrow> Response 201 (Some (Json None None))
                   | _ \<Rightarrow> Response 200 (Some (Json (Some ''s0'') None))),
       blobToBase64_ok = (\<lambda>i k. True),
       compressFile = (\<lambda>f. Inr [31, 139, 8]),
       compressionLib_loaded = True,
       btoa_ok = (\<lambda>d. True),
       btoa_ok_metadata = (\<lambda>n. True),
       confirm = True,
       now = 7 \<rparr>"

text \<open>A store that answers every upload of a chunk with 500.\<close>

definition env_failing :: env where
  "env_failing =
     env_conflict\<lparr> fetch := (\<lambda>req k. case req of
                                PUT (ChunkFile f n) body sha \<Rightarrow> Response 500 (Some (Json None None))
                              | _ \<Rightarrow> fetch env_conflict req k) \<rparr>"

text \<open>A store that accepts everything.\<close>

definition env_accepting :: env where
  "env_accepting =
     env_conflict\<lparr> fetch := (\<lambda>req k. case req of
                                GET p \<Rightarrow> Response 200 (Some (Json (Some ''s1'') (Some remote_registry)))
                              | _ \<Rightarrow> Response 201 (Some (Json None None))) \<rparr>"

text \<open>A page whose registry holds \<open>a.txt\<close> and \<open>b.txt\<close>, and a user who declines.\<close>

definition two_files_world :: world where
  "two_files_world =
     sample_world\<lparr> app := sample_app\<lparr> dataJson :=
       remote_registry\<lparr> files := [other_entry, other_entry\<lparr> name := ''b.txt'' \<rparr>] \<rparr> \<rparr> \<rparr>"

definition env_declining :: env where
  "env_declining = env_accepting\<lparr> confirm := False \<rparr>"

section \<open>The chunker splits and merges without loss\<close>

lemma foldl_sum_length:
  "foldl (\<lambda>sum c. sum + length c) n xs = n + length (concat xs)"
  by (induction xs arbitrary: n) auto

lemma combineChunks_forEach_concat:
  "length combined = offset + length (concat xs) + k \<Longrightarrow>
   combineChunks_forEach xs combined offset =
     Inr (take offset combined @ concat xs @ drop (offset + length (concat xs)) combined)"
proof (induction xs arbitrary: combined offset)
  case Nil
  then show ?case by simp
next
  case (Cons x xs)
  let ?c' = "take offset combined @ x @ drop (offset + length x) combined"
  have fits: "\<not> offset + length x > length combined"
    using Cons.prems by simp
  have len: "length ?c' = (offset + length x) + length (concat xs) + k"
    using Cons.prems by simp
  have step: "combineChunks_forEach (x # xs) combined offset =
      combineChunks_forEach xs ?c' (offset + length x)"
    using fits by (simp add: typed_array_set_def)
  have tk: "take (offset + length x) ?c' = take offset combined @ x"
    using Cons.prems by simp
  have dr: "drop (offset + length x + length (concat xs)) ?c' =
      drop (offset + length (concat (x # xs))) combined"
    using Cons.prems by (simp add: ac_simps)
  show ?case
    unfolding step Cons.IH [OF len] tk dr by simp
qed

lemma combineChunks_concat: "combineChunks xs = Inr (concat xs)"
proof -
  have "combineChunks_forEach xs (replicate (length (concat xs)) 0) 0 =
      Inr (take 0 (replicate (length (concat xs)) (0::byte)) @ concat xs @
           drop (0 + length (concat xs)) (replicate (length (concat xs)) 0))"
    by (rule combineChunks_forEach_concat [where k = 0]) simp
  then show ?thesis
    by (simp add: combineChunks_def foldl_sum_length)
qed

lemma ceil_div_step:
  fixes n s :: nat
  assumes "0 < s" "0 < n"
  shows "(n + s - 1) div s = Suc ((n - s + s - 1) div s)"
proof (cases "s \<le> n")
  case True
  have "n + s - 1 = (n - 1) + s" using assms by simp
  also have "\<dots> div s = (n - 1) div s + 1" using assms by (simp only: div_add_self2) 
  finally have "(n + s - 1) div s = Suc ((n - 1) div s)" by simp
  moreover have "n - s + s - 1 = n - 1" using True by simp
  ultimately show ?thesis by simp
next
  case False
  then have a: "n - s + s - 1 = s - 1" by simp
  have "n + s - 1 = (n - 1) + s" using assms by simp
  also have "\<dots> div s = (n - 1) div s + 1" using assms by (simp only: div_add_self2) 
  also have "(n - 1) div s = 0" using False assms by simp
  finally have "(n + s - 1) div s = 1" by simp
  then show ?thesis using a assms by simp
qed

lemma nat_ceiling_div:
  fixes n s :: nat
  assumes "0 < s"
  shows "\<lceil>rat_of_nat n / rat_of_nat s\<rceil> = int ((n + s - 1) div s)"
proof (rule ceiling_unique)
  let ?k = "(n + s - 1) div s"
  let ?r = "(n + s - 1) mod s"
  have split: "n + s - 1 = ?k * s + ?r" by simp
  have r: "?r < s" using assms by simp
  have up: "n \<le> ?k * s" using split r by linarith
  have "rat_of_nat n \<le> rat_of_nat (?k * s)" using up by (simp only: of_nat_le_iff)
  then show "rat_of_nat n / rat_of_nat s \<le> of_int (int ?k)"
    using assms by (simp add: divide_le_eq)
  have lo: "?k * s < n + s" using split assms by linarith
  have "rat_of_nat (?k * s) < rat_of_nat (n + s)" using lo by (simp only: of_nat_less_iff)
  then show "of_int (int ?k) - 1 < rat_of_nat n / rat_of_nat s"
    using assms by (simp add: less_divide_eq algebra_simps)
qed

lemma createChunks_loop_total:
  assumes s: "0 < s"
  shows "\<exists>rest. createChunks_loop s b off acc = Some (acc @ rest) \<and>
           concat rest = drop off b \<and>
           length rest = (length b - off + s - 1) div s \<and>
           (\<forall>c \<in> set (butlast rest). length c = s) \<and>
           (rest \<noteq> [] \<longrightarrow> 1 \<le> length (last rest) \<and> length (last rest) \<le> s)"
proof (induction "length b - off" arbitrary: off acc rule: less_induct)
  case less
  show ?case
  proof (cases "off < length b")
    case False
    have "createChunks_loop s b off acc = Some (acc @ [])"
      using False by (subst createChunks_loop.simps) simp
    moreover have "(length b - off + s - 1) div s = 0"
      using False s by simp
    ultimately show ?thesis
      using False by (intro exI [of _ "[]"]) simp
  next
    case True
    let ?c = "blob_slice b off (off + s)"
    have c_def: "?c = take s (drop off b)"
      by (simp add: blob_slice_def)
    have smaller: "length b - (off + s) < length b - off"
      using True s by simp
    from less [OF smaller, of "acc @ [?c]"]
    obtain rest' where
      run: "createChunks_loop s b (off + s) (acc @ [?c]) = Some ((acc @ [?c]) @ rest')" and
      cat: "concat rest' = drop (off + s) b" and
      len: "length rest' = (length b - (off + s) + s - 1) div s" and
      full: "\<forall>c \<in> set (butlast rest'). length c = s" and
      lst: "rest' \<noteq> [] \<longrightarrow> 1 \<le> length (last rest') \<and> length (last rest') \<le> s"
      by blast
    have unfold: "createChunks_loop s b off acc = Some (acc @ (?c # rest'))"
      using True run by (subst createChunks_loop.simps) simp
    have cat': "concat (?c # rest') = drop off b"
    proof -
      have "drop (off + s) b = drop s (drop off b)" by (simp add: add.commute)
      then have "concat (?c # rest') = take s (drop off b) @ drop s (drop off b)"
        using cat c_def by simp
      then show ?thesis by (simp only: append_take_drop_id)
    qed
    have len': "length (?c # rest') = (length b - off + s - 1) div s"
    proof -
      have "0 < length b - off" using True by simp
      from ceil_div_step [OF s this]
      have "(length b - off + s - 1) div s = Suc ((length b - off - s + s - 1) div s)" .
      moreover have "length b - off - s = length b - (off + s)" by simp
      ultimately show ?thesis using len by simp
    qed
    have clen: "length ?c = min s (length b - off)"
      by (simp add: c_def)
    have full': "\<forall>c \<in> set (butlast (?c # rest')). length c = s"
    proof (cases "rest' = []")
      case True
      then show ?thesis by simp
    next
      case False
      then have "0 < length rest'" by simp
      then have "0 < (length b - (off + s) + s - 1) div s" by (simp only: len)
      then have "s \<le> length b - (off + s) + s - 1" using s
        by (simp add: div_greater_zero_iff)
      then have "s \<le> length b - off" by simp
      then have "length ?c = s" using clen by simp
      then show ?thesis using False full by simp
    qed
    have lst': "1 \<le> length (last (?c # rest')) \<and> length (last (?c # rest')) \<le> s"
    proof (cases "rest' = []")
      case True
      then show ?thesis using clen s \<open>off < length b\<close> by simp
    next
      case False
      then show ?thesis using lst by simp
    qed
    show ?thesis
      using unfold cat' len' full' lst' by (intro exI [of _ "?c # rest'"]) simp
  qed
qed


text \<open>
  Claim C1. For a chunk size of at least 1 \<open>createChunks\<close> returns, and combining what it
  returns gives the blob back; the number of chunks is the ceiling of the length over the
  chunk size (0 for the empty blob); every chunk but the last has exactly the chunk size
  and the last has between 1 byte and the chunk size.
\<close>

theorem chunk_round_trip:
  assumes "1 \<le> s"
  shows "\<exists>cs. createChunks s b = Some cs \<and> combineChunks cs = Inr b \<and>
           int (length cs) = \<lceil>rat_of_nat (length b) / rat_of_nat s\<rceil> \<and>
           (length b = 0 \<longrightarrow> length cs = 0) \<and>
           (\<forall>c \<in> set (butlast cs). length c = s) \<and>
           (cs \<noteq> [] \<longrightarrow> 1 \<le> length (last cs) \<and> length (last cs) \<le> s)"
proof -
  have s: "0 < s" using assms by simp
  from createChunks_loop_total [OF s, of b 0 "[]"]
  obtain cs where
    run: "createChunks_loop s b 0 [] = Some cs" and
    cat: "concat cs = b" and
    len: "length cs = (length b + s - 1) div s" and
    full: "\<forall>c \<in> set (butlast cs). length c = s" and
    lst: "cs \<noteq> [] \<longrightarrow> 1 \<le> length (last cs) \<and> length (last cs) \<le> s"
    by auto
  have "length b = 0 \<longrightarrow> length cs = 0" using len s by simp
  then show ?thesis
    using run cat len full lst nat_ceiling_div [OF s, of "length b"]
    by (intro exI [of _ cs]) (simp add: createChunks_def combineChunks_concat)
qed

theorem chunk_round_trip_witness:
  "(1::nat) \<le> 3 \<and>
   createChunks 3 [1, 2, 3, 4, 5, 6, 7] = Some [[1, 2, 3], [4, 5, 6], [7]] \<and>
   combineChunks [[1, 2, 3], [4, 5, 6], [7]] = Inr [1, 2, 3, 4, 5, 6, 7]"
proof -
  have run: "createChunks 3 [1, 2, 3, 4, 5, 6, 7] = Some [[1, 2, 3], [4, 5, 6], [7]]"
    by (simp add: createChunks_def createChunks_loop.simps blob_slice_def)
  from chunk_round_trip [of 3 "[1, 2, 3, 4, 5, 6, 7]"]
  obtain cs where "createChunks 3 [1, 2, 3, 4, 5, 6, 7] = Some cs"
    and "combineChunks cs = Inr [1, 2, 3, 4, 5, 6, 7]"
    by auto
  with run show ?thesis by simp
qed

section \<open>Category detection takes the first match\<close>

lemma split_nonempty: "split d s \<noteq> []"
  by (induction s) (auto split: list.splits)

lemma split_no_sep: "d \<notin> set s \<Longrightarrow> split d s = [s]"
  by (induction s) auto

lemma split_two_pieces: "d \<in> set s \<Longrightarrow> \<exists>p q qs. split d s = p # q # qs"
proof (induction s)
  case Nil
  then show ?case by simp
next
  case (Cons x s)
  show ?case
  proof (cases "x = d")
    case True
    obtain q qs where "split d s = q # qs"
      using split_nonempty [of d s] by (cases "split d s") auto
    with True show ?thesis by simp
  next
    case False
    with Cons.prems have "d \<in> set s" by simp
    from Cons.IH [OF this] obtain p q qs where "split d s = p # q # qs" by blast
    with False show ?thesis by simp
  qed
qed

lemma last_split_Cons:
  "last (split d (x # s)) = (if d \<in> set s then last (split d s) else if x = d then s else x # s)"
proof (cases "d \<in> set s")
  case True
  from split_two_pieces [OF this] obtain p q qs where "split d s = p # q # qs" by blast
  with True show ?thesis by simp
next
  case False
  then show ?thesis by (simp add: split_no_sep)
qed

lemma last_split: "last (split d s) = rev (takeWhile (\<lambda>c. c \<noteq> d) (rev s))"
proof (induction s)
  case Nil
  show ?case by simp
next
  case (Cons x s)
  show ?case
  proof (cases "d \<in> set s")
    case True
    then have "takeWhile (\<lambda>c. c \<noteq> d) (rev s @ [x]) = takeWhile (\<lambda>c. c \<noteq> d) (rev s)"
      by (intro takeWhile_append1 [of d]) auto
    with True Cons.IH show ?thesis by (simp add: last_split_Cons del: split.simps)
  next
    case False
    then have "takeWhile (\<lambda>c. c \<noteq> d) (rev s @ [x]) = rev s @ takeWhile (\<lambda>c. c \<noteq> d) [x]"
      by (intro takeWhile_append2) auto
    with False show ?thesis by (simp add: last_split_Cons del: split.simps)
  qed
qed

lemma pop_split: "pop (split d s) = Some (rev (takeWhile (\<lambda>c. c \<noteq> d) (rev s)))"
  by (simp add: pop_def split_nonempty last_split)

lemma detect_loop_find:
  "detect_loop t e = (case find (\<lambda>(c, es). e \<in> set es) t of None \<Rightarrow> ''other'' | Some (c, es) \<Rightarrow> c)"
  by (induction t) auto

lemma detect_loop_first:
  "detect_loop t e = c \<Longrightarrow> c \<noteq> ''other'' \<Longrightarrow>
   \<exists>pre es post. t = pre @ (c, es) # post \<and> e \<in> set es \<and> (\<forall>(c', es') \<in> set pre. e \<notin> set es')"
proof (induction t)
  case Nil
  then show ?case by simp
next
  case (Cons a t)
  obtain c0 es0 where a: "a = (c0, es0)" by (cases a)
  show ?case
  proof (cases "e \<in> set es0")
    case True
    with Cons.prems a have "c = c0" by simp
    with True a show ?thesis by (intro exI [of _ "[]"] exI [of _ es0] exI [of _ t]) simp
  next
    case False
    with Cons.prems a have "detect_loop t e = c" by simp
    from Cons.IH [OF this Cons.prems(2)] obtain pre es post where
      "t = pre @ (c, es) # post" "e \<in> set es" "\<forall>(c', es') \<in> set pre. e \<notin> set es'"
      by blast
    with False a show ?thesis
      by (intro exI [of _ "a # pre"] exI [of _ es] exI [of _ post]) simp
  qed
qed

lemma detect_loop_range: "detect_loop t e \<in> fst ` set t \<or> detect_loop t e = ''other''"
  by (induction t) force+

lemma lower_ISO: "toLowerCase ''ISO'' = ''iso''"
  by code_simp

lemma lower_noext: "toLowerCase ''noext'' = ''noext''"
  by code_simp

lemma lower_zip: "toLowerCase ''zip'' = ''zip''"
  by code_simp

text \<open>
  Claim C6. Over any table, \<open>detectFileCategory\<close> returns the first category, in the
  order of the table, whose extension list holds the lowercased text after the last dot
  of the filename, and \<open>other\<close> when there is none. \<open>noext\<close> is \<open>other\<close>. \<open>game.ISO\<close> can
  be \<open>iso\<close> only over a table where the category \<open>iso\<close> comes before every other category
  that lists the extension \<open>iso\<close>; over the table of the scripts, where \<open>game\<close> comes first,
  it is \<open>game\<close>.
\<close>

theorem category_detection:
  "detectFileCategory_in t f =
     Inr (case find (\<lambda>(c, es). toLowerCase (rev (takeWhile (\<lambda>x. x \<noteq> CHR ''.'') (rev f))) \<in> set es) t of
            None \<Rightarrow> ''other''
          | Some (c, es) \<Rightarrow> c) \<and>
   detectFileCategory f = detectFileCategory_in FILE_CATEGORIES f \<and>
   detectFileCategory ''noext'' = Inr ''other'' \<and>
   (detectFileCategory_in t ''game.ISO'' = Inr ''iso'' \<longrightarrow>
      (\<exists>pre es post. t = pre @ (''iso'', es) # post \<and> ''iso'' \<in> set es \<and>
         (\<forall>(c', es') \<in> set pre. ''iso'' \<notin> set es'))) \<and>
   detectFileCategory ''game.ISO'' = Inr ''game''"
proof (intro conjI impI)
  show "detectFileCategory_in t f =
     Inr (case find (\<lambda>(c, es). toLowerCase (rev (takeWhile (\<lambda>x. x \<noteq> CHR ''.'') (rev f))) \<in> set es) t of
            None \<Rightarrow> ''other''
          | Some (c, es) \<Rightarrow> c)"
    by (simp add: detectFileCategory_in_def pop_split detect_loop_find)
  show "detectFileCategory f = detectFileCategory_in FILE_CATEGORIES f"
    by (simp add: detectFileCategory_def)
  show "detectFileCategory ''noext'' = Inr ''other''"
    by (simp add: detectFileCategory_def detectFileCategory_in_def pop_def lower_noext
        FILE_CATEGORIES_def)
  show "detectFileCategory ''game.ISO'' = Inr ''game''"
    by (simp add: detectFileCategory_def detectFileCategory_in_def pop_def lower_ISO
        FILE_CATEGORIES_def)
next
  assume "detectFileCategory_in t ''game.ISO'' = Inr ''iso''"
  then have "detect_loop t ''iso'' = ''iso''"
    by (simp add: detectFileCategory_in_def pop_def lower_ISO)
  from detect_loop_first [OF this]
  show "\<exists>pre es post. t = pre @ (''iso'', es) # post \<and> ''iso'' \<in> set es \<and>
         (\<forall>(c', es') \<in> set pre. ''iso'' \<notin> set es')"
    by simp
qed

theorem category_detection_witness:
  "detectFileCategory_in [(''iso'', [''iso'', ''bin'']), (''game'', [''iso'', ''exe''])] ''game.ISO''
     = Inr ''iso'' \<and>
   (\<exists>pre es post. [(''iso'', [''iso'', ''bin'']), (''game'', [''iso'', ''exe''])] = pre @ (''iso'', es) # post \<and>
      ''iso'' \<in> set es \<and> (\<forall>(c', es') \<in> set pre. ''iso'' \<notin> set es'))"
proof -
  have run: "detectFileCategory_in [(''iso'', [''iso'', ''bin'']), (''game'', [''iso'', ''exe''])]
      ''game.ISO'' = Inr ''iso''"
    by (simp add: detectFileCategory_in_def pop_def lower_ISO)
  with category_detection [of "[(''iso'', [''iso'', ''bin'']), (''game'', [''iso'', ''exe''])]" "''game.ISO''"]
  show ?thesis by blast
qed

text \<open>
  Claim C10. For a filename without a dot the whole lowercased name is looked up as the
  extension, so the file named \<open>zip\<close> gets a category of the table (\<open>game\<close>, the first that
  lists \<open>zip\<close>) and not \<open>other\<close>; and for every string the function returns, without
  throwing, a key of the table or \<open>other\<close>.
\<close>

theorem dotless_name_is_extension:
  "(CHR ''.'' \<notin> set f \<longrightarrow>
      detectFileCategory f = Inr (detect_loop FILE_CATEGORIES (toLowerCase f))) \<and>
   detectFileCategory ''zip'' = Inr ''game'' \<and>
   (\<exists>c. detectFileCategory f = Inr c \<and> (c \<in> fst ` set FILE_CATEGORIES \<or> c = ''other''))"
proof (intro conjI impI)
  assume "CHR ''.'' \<notin> set f"
  then show "detectFileCategory f = Inr (detect_loop FILE_CATEGORIES (toLowerCase f))"
    by (simp add: detectFileCategory_def detectFileCategory_in_def pop_def split_no_sep)
next
  show "detectFileCategory ''zip'' = Inr ''game''"
    by (simp add: detectFileCategory_def detectFileCategory_in_def pop_def lower_zip
        FILE_CATEGORIES_def)
next
  show "\<exists>c. detectFileCategory f = Inr c \<and> (c \<in> fst ` set FILE_CATEGORIES \<or> c = ''other'')"
    using detect_loop_range [of FILE_CATEGORIES]
    by (simp add: detectFileCategory_def detectFileCategory_in_def pop_split)
qed

theorem dotless_name_is_extension_witness:
  "CHR ''.'' \<notin> set ''zip'' \<and>
   detectFileCategory ''zip'' = Inr (detect_loop FILE_CATEGORIES (toLowerCase ''zip'')) \<and>
   detect_loop FILE_CATEGORIES (toLowerCase ''zip'') = ''game''"
proof -
  have "CHR ''.'' \<notin> set ''zip''" by simp
  with dotless_name_is_extension [of "''zip''"] show ?thesis by auto
qed

section \<open>What the registry operations return, change and send\<close>

lemma detectFileCategory_eq:
  "detectFileCategory f =
     Inr (detect_loop FILE_CATEGORIES
            (toLowerCase (rev (takeWhile (\<lambda>c. c \<noteq> CHR ''.'') (rev f)))))"
  by (simp add: detectFileCategory_def detectFileCategory_in_def pop_split)

lemma registry_puts_append [simp]:
  "registry_puts (xs @ ys) = registry_puts xs @ registry_puts ys"
  by (simp add: registry_puts_def)

lemma registry_puts_Nil [simp]: "registry_puts [] = []"
  by (simp add: registry_puts_def)

lemma updateRegistry_fst:
  "fst (updateRegistry E fileName k osz csz cat w) =
     (if btoa_ok E (pushed E (updateRegistry_entry E fileName k osz csz cat) (dataJson (app w)))
      then Inr () else Inl InvalidCharacterError)"
  by (simp add: updateRegistry_def Let_def add_event_def)

lemma updateRegistry_app:
  "app (snd (updateRegistry E fileName k osz csz cat w)) =
     (app w)\<lparr> dataJson := pushed E (updateRegistry_entry E fileName k osz csz cat) (dataJson (app w)) \<rparr>"
  by (simp add: updateRegistry_def Let_def add_event_def)

lemma updateRegistry_trace:
  "trace (snd (updateRegistry E fileName k osz csz cat w)) =
     trace w @
     (let doc = pushed E (updateRegistry_entry E fileName k osz csz cat) (dataJson (app w))
      in if btoa_ok E doc
         then [Fetch (GET DataFile),
               Fetch (PUT DataFile (RegistryBody doc)
                  (or_undefined
                     (case fetch E (GET DataFile) 0 of
                        Rejected \<Rightarrow> None
                      | Response st body \<Rightarrow>
                          (if ok st then (case body of None \<Rightarrow> None | Some j \<Rightarrow> json_sha j)
                           else None))))]
         else [])"
  by (simp add: updateRegistry_def Let_def add_event_def)

lemma uploadDataJsonToGitHub_fst:
  "fst (uploadDataJsonToGitHub E w) =
     (if btoa_ok E (dataJson (app w)) then Inr () else Inl InvalidCharacterError)"
  by (auto simp: uploadDataJsonToGitHub_def Let_def catch_def bind_def emit_def add_event_def
        throw_def return_def
        split: response.splits option.splits)

lemma uploadDataJsonToGitHub_app:
  "app (snd (uploadDataJsonToGitHub E w)) = app w"
  by (auto simp: uploadDataJsonToGitHub_def Let_def catch_def bind_def emit_def add_event_def
        throw_def return_def
        split: response.splits option.splits)

lemma uploadDataJsonToGitHub_trace:
  "\<exists>new. trace (snd (uploadDataJsonToGitHub E w)) = trace w @ new \<and>
     (new = [] \<or> new = [Fetch (GET DataFile)] \<or>
      (\<exists>sha. new = [Fetch (GET DataFile), Fetch (PUT DataFile (RegistryBody (dataJson (app w))) sha)]))"
  by (auto simp: uploadDataJsonToGitHub_def Let_def catch_def bind_def emit_def add_event_def
        throw_def return_def
        split: response.splits option.splits)

lemma updateDataJson_unfold:
  "updateDataJson E f k osz csz w =
     (Inr (), snd (uploadDataJsonToGitHub E
        (w\<lparr> app := (app w)\<lparr> dataJson :=
               pushed E (updateDataJson_entry E f k osz csz
                  (detect_loop FILE_CATEGORIES
                     (toLowerCase (rev (takeWhile (\<lambda>c. c \<noteq> CHR ''.'') (rev f))))))
                 (dataJson (app w)) \<rparr> \<rparr>)))"
  by (auto simp: updateDataJson_def detectFileCategory_eq catch_def bind_def lift_def
        push_entry_def return_def split: prod.splits sum.splits)


section \<open>The compression ratio is computed without a guard\<close>

text \<open>
  Rounding to a double: the exponent is the right one, the nearest integer is within a
  half, and so a rounded value differs from the exact one by at most the fraction
  \<open>2^-53\<close> of it, or by \<open>2^-1075\<close> near zero.
\<close>

lemma bit_length_bounds:
  "0 < n \<Longrightarrow> 2 ^ (bit_length n - 1) \<le> n \<and> n < 2 ^ bit_length n"
proof (induction n rule: bit_length.induct)
  case (1 n)
  show ?case
  proof (cases "n div 2 = 0")
    case True
    with 1 have "n = 1" by (simp add: div_eq_0_iff)
    moreover have "bit_length (Suc 0) = Suc 0"
      by (simp add: bit_length.simps [of "Suc 0"] bit_length.simps [of 0])
    ultimately show ?thesis by simp
  next
    case False
    then have pos: "0 < n div 2" by simp
    from 1 have n0: "n \<noteq> 0" by simp
    from 1(1) [OF n0 pos] have lo: "2 ^ (bit_length (n div 2) - 1) \<le> n div 2"
      and hi: "n div 2 < 2 ^ bit_length (n div 2)" by simp_all
    have bl: "bit_length n = Suc (bit_length (n div 2))"
      using n0 by (simp add: bit_length.simps [of n])
    have blpos: "0 < bit_length (n div 2)"
      using False by (simp add: bit_length.simps [of "n div 2"])
    then have suc: "bit_length (n div 2) = Suc (bit_length (n div 2) - 1)" by simp
    have "2 ^ bit_length (n div 2) = 2 * 2 ^ (bit_length (n div 2) - 1)"
      by (subst suc) simp
    also have "\<dots> \<le> 2 * (n div 2)" using lo by simp
    also have "\<dots> \<le> n" by simp
    finally have a: "2 ^ (bit_length n - 1) \<le> n" by (simp add: bl)
    have "n < 2 * (n div 2) + 2" by presburger
    also have "\<dots> \<le> 2 * 2 ^ bit_length (n div 2)" using hi by simp
    finally have b: "n < 2 ^ bit_length n" by (simp add: bl)
    from a b show ?thesis by simp
  qed
qed

lemma exponent_of_bounds:
  assumes "0 < x"
  shows "2 powi (exponent_of x) \<le> x \<and> x < 2 powi (exponent_of x + 1)"
proof -
  obtain p q where pq: "quotient_of x = (p, q)" by (cases "quotient_of x")
  have q: "0 < q" using pq by (rule quotient_of_denom_pos)
  have x: "x = of_int p / of_int q" using pq by (rule quotient_of_div)
  have p: "0 < p" using assms q by (simp add: x zero_less_divide_iff)
  let ?m = "bit_length (nat p)" and ?n = "bit_length (nat q)"
  let ?k = "int ?m - int ?n"
  from bit_length_bounds [of "nat p"] p
  have plo: "2 ^ (?m - 1) \<le> nat p" and phi: "nat p < 2 ^ ?m" by simp_all
  from bit_length_bounds [of "nat q"] q
  have qlo: "2 ^ (?n - 1) \<le> nat q" and qhi: "nat q < 2 ^ ?n" by simp_all
  have mpos: "0 < ?m" using p by (simp add: bit_length.simps [of "nat p"])
  have npos: "0 < ?n" using q by (simp add: bit_length.simps [of "nat q"])
  have P: "rat_of_int p = rat_of_nat (nat p)" using p by simp
  have Q: "rat_of_int q = rat_of_nat (nat q)" using q by simp
  have plo': "(2::rat) ^ (?m - 1) \<le> of_int p"
    unfolding P using plo by (metis of_nat_le_iff of_nat_numeral of_nat_power)
  have phi': "rat_of_int p < 2 ^ ?m"
    unfolding P using phi by (metis of_nat_less_iff of_nat_numeral of_nat_power)
  have qlo': "(2::rat) ^ (?n - 1) \<le> of_int q"
    unfolding Q using qlo by (metis of_nat_le_iff of_nat_numeral of_nat_power)
  have qhi': "rat_of_int q < 2 ^ ?n"
    unfolding Q using qhi by (metis of_nat_less_iff of_nat_numeral of_nat_power)
  have qpos: "0 < rat_of_int q" using q by simp
  have m: "(2::rat) ^ ?m = 2 * 2 ^ (?m - 1)" using mpos by (cases ?m) simp_all
  have n: "(2::rat) ^ ?n = 2 * 2 ^ (?n - 1)" using npos by (cases ?n) simp_all
  have km: "(2::rat) powi ?k * 2 ^ ?n = 2 ^ ?m"
    by (simp add: power_int_diff)
  have "rat_of_int p < 2 ^ ?m" by (rule phi')
  also have "\<dots> = 2 powi ?k * 2 ^ ?n" by (simp add: km)
  also have "\<dots> = 2 powi (?k + 1) * 2 ^ (?n - 1)" by (simp add: n power_int_add)
  also have "\<dots> \<le> 2 powi (?k + 1) * of_int q"
    using qlo' by (intro mult_left_mono) simp_all
  finally have up: "x < 2 powi (?k + 1)"
    using qpos by (simp add: x pos_divide_less_eq)
  have "2 powi (?k - 1) * rat_of_int q < 2 powi (?k - 1) * 2 ^ ?n"
    using qhi' by (intro mult_strict_left_mono) simp_all
  also have "\<dots> = 2 ^ (?m - 1)"
    using km by (simp add: m power_int_diff)
  also have "\<dots> \<le> of_int p" by (rule plo')
  finally have lo: "2 powi (?k - 1) < x"
    using qpos by (simp add: x pos_less_divide_eq)
  show ?thesis
  proof (cases "2 powi ?k \<le> x")
    case True
    then have "exponent_of x = ?k" by (simp add: exponent_of_def pq)
    with True up show ?thesis by simp
  next
    case False
    then have e: "exponent_of x = ?k - 1" by (simp add: exponent_of_def pq)
    from False have "x < 2 powi ?k" by simp
    with lo show ?thesis by (simp add: e)
  qed
qed

lemma exponent_of_unique:
  assumes "0 < x" "2 powi e \<le> x" "x < 2 powi (e + 1)"
  shows "exponent_of x = e"
proof -
  let ?f = "exponent_of x"
  from exponent_of_bounds [OF assms(1)]
  have lo: "2 powi ?f \<le> x" and hi: "x < 2 powi (?f + 1)" by simp_all
  have a: "(2::rat) powi e < 2 powi (?f + 1)" using assms(2) hi by simp
  have "e < ?f + 1"
  proof (rule ccontr)
    assume "\<not> e < ?f + 1"
    then have "?f + 1 \<le> e" by simp
    then have "(2::rat) powi (?f + 1) \<le> 2 powi e" by (intro power_int_increasing) simp_all
    with a show False by simp
  qed
  moreover have b: "(2::rat) powi ?f < 2 powi (e + 1)" using lo assms(3) by simp
  have "?f < e + 1"
  proof (rule ccontr)
    assume "\<not> ?f < e + 1"
    then have "e + 1 \<le> ?f" by simp
    then have "(2::rat) powi (e + 1) \<le> 2 powi ?f" by (intro power_int_increasing) simp_all
    with b show False by simp
  qed
  ultimately show ?thesis by simp
qed

lemma round_half_even_near: "\<bar>rat_of_int (round_half_even y) - y\<bar> \<le> 1 / 2"
proof -
  have "rat_of_int \<lfloor>y\<rfloor> \<le> y" "y < rat_of_int \<lfloor>y\<rfloor> + 1" by linarith+
  then show ?thesis
    by (auto simp: round_half_even_def Let_def abs_le_iff)
qed

lemma round_half_even_unique:
  assumes "rat_of_int n - 1 / 2 < y" "y < rat_of_int n + 1 / 2"
  shows "round_half_even y = n"
proof -
  have a: "\<bar>rat_of_int (round_half_even y) - y\<bar> \<le> 1 / 2" by (rule round_half_even_near)
  have "\<bar>rat_of_int (round_half_even y) - rat_of_int n\<bar> < 1"
    using a assms by linarith
  then have "\<bar>rat_of_int (round_half_even y - n)\<bar> < 1" by simp
  then have "\<bar>round_half_even y - n\<bar> < 1" by (metis of_int_abs of_int_less_1_iff)
  then show ?thesis by simp
qed

lemma round_half_even_nonneg: "0 \<le> y \<Longrightarrow> 0 \<le> round_half_even y"
proof -
  assume "0 \<le> y"
  then have "0 \<le> \<lfloor>y\<rfloor>" by simp
  then show ?thesis by (auto simp: round_half_even_def Let_def)
qed

lemma binary64_error:
  assumes "\<bar>x\<bar> \<le> 2 ^ 1023"
  shows "\<exists>r. binary64 x = Finite r \<and> \<bar>r - x\<bar> \<le> \<bar>x\<bar> / 2 ^ 53 + 1 / 2 ^ 1075 \<and>
             (0 \<le> x \<longrightarrow> 0 \<le> r) \<and> (x \<le> 0 \<longrightarrow> r \<le> 0)"
proof (cases "x = 0")
  case True
  then show ?thesis by (simp add: binary64_def)
next
  case False
  define a where "a = \<bar>x\<bar>"
  define q where "q = max (exponent_of a - 52) (- 1074)"
  define y where "y = a / 2 powi q"
  define n where "n = round_half_even y"
  define R where "R = rat_of_int n * 2 powi q"
  have a: "0 < a" using False by (simp add: a_def)
  have pq: "0 < (2::rat) powi q" by simp
  have y: "0 < y" using a pq by (simp add: y_def)
  have n0: "0 \<le> n" unfolding n_def using y by (intro round_half_even_nonneg) simp
  have R0: "0 \<le> R" using n0 pq by (simp add: R_def)
  have "\<bar>rat_of_int n - y\<bar> \<le> 1 / 2" unfolding n_def by (rule round_half_even_near)
  then have "\<bar>rat_of_int n - y\<bar> * 2 powi q \<le> 1 / 2 * 2 powi q"
    using pq by (intro mult_right_mono) simp_all
  moreover have "\<bar>rat_of_int n - y\<bar> * 2 powi q = \<bar>R - a\<bar>"
  proof -
    have "R - a = (rat_of_int n - y) * 2 powi q"
      using pq by (simp add: R_def y_def algebra_simps)
    then show ?thesis using pq by (simp add: abs_mult)
  qed
  ultimately have near: "\<bar>R - a\<bar> \<le> 2 powi q / 2" by simp
  have quantum: "2 powi q / 2 \<le> a / 2 ^ 53 + 1 / 2 ^ 1075"
  proof (cases "- 1074 \<le> exponent_of a - 52")
    case True
    then have "q = exponent_of a - 52" by (simp add: q_def)
    then have "(2::rat) powi q = 2 powi exponent_of a / 2 ^ 52"
      by (simp add: power_int_diff)
    also have "\<dots> \<le> a / 2 ^ 52"
      using exponent_of_bounds [OF a] by (simp add: divide_right_mono)
    finally have "2 powi q / 2 \<le> a / 2 ^ 52 / 2" by simp
    also have "\<dots> = a / 2 ^ 53" by simp
    finally show ?thesis by simp
  next
    case False
    then have "q = - 1074" by (simp add: q_def)
    then have "(2::rat) powi q / 2 = 1 / 2 ^ 1075" by (simp add: power_int_minus_divide)
    then show ?thesis using a by simp
  qed
  from near quantum have err: "\<bar>R - a\<bar> \<le> a / 2 ^ 53 + 1 / 2 ^ 1075" by simp
  have small: "R < 2 ^ 1024"
  proof -
    have "R \<le> a + a / 2 ^ 53 + 1 / 2 ^ 1075" using err by linarith
    also have "\<dots> \<le> 2 ^ 1023 + 2 ^ 1023 / 2 ^ 53 + 1 / 2 ^ 1075"
      using assms by (simp add: a_def divide_right_mono add_mono)
    also have "\<dots> < 2 ^ 1024" by simp
    finally show ?thesis .
  qed
  have val: "binary64 x = Finite (if 0 < x then R else - R)"
    using False small
    by (simp add: binary64_def Let_def a_def [symmetric] q_def [symmetric] y_def [symmetric]
        n_def [symmetric] R_def [symmetric])
  show ?thesis
  proof (cases "0 < x")
    case True
    then have "a = x" by (simp add: a_def)
    with err R0 True val show ?thesis by simp
  next
    case neg: False
    with False have "x < 0" by simp
    then have ax: "a = - x" by (simp add: a_def)
    have "\<bar>- R - x\<bar> = \<bar>R - a\<bar>" by (simp add: ax abs_minus_commute)
    with err R0 \<open>x < 0\<close> val ax show ?thesis by simp
  qed
qed

text \<open>A double worked out by hand: the exponent and the nearest multiple are given.\<close>

lemma binary64_eval:
  assumes "0 < x" "2 powi e \<le> x" "x < 2 powi (e + 1)" "- 1022 \<le> e"
    and "rat_of_int n - 1 / 2 < x / 2 powi (e - 52)"
    and "x / 2 powi (e - 52) < rat_of_int n + 1 / 2"
    and "rat_of_int n * 2 powi (e - 52) < 2 ^ 1024"
  shows "binary64 x = Finite (rat_of_int n * 2 powi (e - 52))"
proof -
  have e: "exponent_of x = e" using assms(1-3) by (rule exponent_of_unique)
  have q: "max (e - 52) (- 1074) = e - 52" using assms(4) by simp
  have n: "round_half_even (x / 2 powi (e - 52)) = n"
    using assms(5,6) by (rule round_half_even_unique)
  show ?thesis
    using assms(1,7) by (simp add: binary64_def Let_def e q n)
qed

text \<open>
  The three roundings of \<open>(1 - compressedSize / originalSize) * 100\<close> together: the double
  is finite and within \<open>(1 + compressedSize / originalSize) / 2^44\<close> of the exact
  percentage.
\<close>

lemma percentage_error:
  assumes o: "0 < osz" and c: "csz < 2 ^ 53"
  shows "\<exists>v. js_mul (js_sub (Finite 1) (js_div (Finite (of_nat csz)) (Finite (of_nat osz))))
                (Finite 100) = Finite v \<and>
           \<bar>v - (1 - rat_of_nat csz / rat_of_nat osz) * 100\<bar> \<le>
             (1 + rat_of_nat csz / rat_of_nat osz) / 2 ^ 44"
proof -
  define a where "a = rat_of_nat csz / rat_of_nat osz"
  define eta :: rat where "eta = 1 / 2 ^ 1075"
  have eta: "0 \<le> eta" "eta \<le> 1 / 2 ^ 100" by (simp_all add: eta_def)
  have a0: "0 \<le> a" by (simp add: a_def)
  have c': "rat_of_nat csz < 2 ^ 53"
    using c by (metis of_nat_less_iff of_nat_numeral of_nat_power)
  have o': "1 \<le> rat_of_nat osz" using o by simp
  have "a * 1 \<le> a * rat_of_nat osz" using a0 o' by (intro mult_left_mono)
  also have "\<dots> = rat_of_nat csz" using o by (simp add: a_def)
  finally have a1: "a < 2 ^ 53" using c' by simp
  have big: "(2::rat) ^ 60 \<le> 2 ^ 1023" by (intro power_increasing) simp_all
  have "\<bar>a\<bar> \<le> 2 ^ 1023" using a0 a1 big by simp
  from binary64_error [OF this] obtain q where
    q: "binary64 a = Finite q" and eq: "\<bar>q - a\<bar> \<le> \<bar>a\<bar> / 2 ^ 53 + eta" and q0: "0 \<le> q"
    using a0 by (auto simp: eta_def)
  define d1 where "d1 = a / 2 ^ 53 + eta"
  have eq': "q - a \<le> d1" "a - q \<le> d1"
    using eq a0 by (simp_all add: d1_def abs_le_iff)
  have y: "\<bar>1 - q\<bar> \<le> 1 + a + d1" using q0 eq' by (simp add: abs_le_iff)
  have d1: "d1 \<le> 2" using a1 eta by (simp add: d1_def field_simps)
  have "\<bar>1 - q\<bar> \<le> 2 ^ 60" using y a1 d1 by simp
  then have "\<bar>1 - q\<bar> \<le> 2 ^ 1023" using big by linarith
  from binary64_error [OF this] obtain s where
    s: "binary64 (1 - q) = Finite s" and es: "\<bar>s - (1 - q)\<bar> \<le> \<bar>1 - q\<bar> / 2 ^ 53 + eta"
    by (auto simp: eta_def)
  define d2 where "d2 = (1 + a + d1) / 2 ^ 53 + eta"
  have "\<bar>1 - q\<bar> / 2 ^ 53 \<le> (1 + a + d1) / 2 ^ 53"
    using y by (intro divide_right_mono) simp_all
  with es have es': "\<bar>s - (1 - q)\<bar> \<le> d2" unfolding d2_def by linarith
  then have es'': "s - (1 - q) \<le> d2" "(1 - q) - s \<le> d2" by (simp_all add: abs_le_iff)
  have d2: "d2 \<le> 2" using a1 d1 eta by (simp add: d2_def field_simps)
  have sa: "\<bar>s\<bar> \<le> 1 + a + d1 + d2"
    using es'' y by (simp add: abs_le_iff)
  have s100: "\<bar>s * 100\<bar> \<le> 100 * (1 + a + d1 + d2)"
    using sa by (simp add: abs_mult)
  have "\<bar>s * 100\<bar> \<le> 2 ^ 60" using s100 a1 d1 d2 by simp
  then have "\<bar>s * 100\<bar> \<le> 2 ^ 1023" using big by linarith
  from binary64_error [OF this] obtain v where
    v: "binary64 (s * 100) = Finite v" and ev: "\<bar>v - s * 100\<bar> \<le> \<bar>s * 100\<bar> / 2 ^ 53 + eta"
    by (auto simp: eta_def)
  define d3 where "d3 = 100 * (1 + a + d1 + d2) / 2 ^ 53 + eta"
  have "\<bar>s * 100\<bar> / 2 ^ 53 \<le> 100 * (1 + a + d1 + d2) / 2 ^ 53"
    using s100 by (intro divide_right_mono) simp_all
  with ev have "\<bar>v - s * 100\<bar> \<le> d3" unfolding d3_def by linarith
  then have ev': "v - s * 100 \<le> d3" "s * 100 - v \<le> d3" by (simp_all add: abs_le_iff)
  have val: "js_mul (js_sub (Finite 1) (js_div (Finite (of_nat csz)) (Finite (of_nat osz))))
               (Finite 100) = Finite v"
    using o by (simp add: a_def [symmetric] q s v)
  have total: "\<bar>v - (1 - a) * 100\<bar> \<le> d3 + 100 * d2 + 100 * d1"
    using ev' es'' eq' by (simp add: abs_le_iff algebra_simps)
  have "d3 + 100 * d2 + 100 * d1 \<le> (1 + a) / 2 ^ 44"
    using a0 eta by (simp add: d1_def d2_def d3_def field_simps)
  with total have "\<bar>v - (1 - a) * 100\<bar> \<le> (1 + a) / 2 ^ 44" by simp
  with val show ?thesis by (auto simp: a_def)
qed

text \<open>
  The doubles of \<open>(1 - 159 / 160) * 100\<close>, step by step: the quotient is rounded down, so
  the product falls just below \<open>0.625\<close>.
\<close>

lemma binary64_quotient_159_160:
  "binary64 (159 / 160) = Finite (8950904259398861 / 2 ^ 53)"
  using binary64_eval [where x = "159 / 160" and e = "- 1" and n = 8950904259398861]
  by (simp add: power_int_minus_divide)

lemma binary64_difference_159_160:
  "binary64 (1 - 8950904259398861 / 2 ^ 53) = Finite (7205759403792768 / 2 ^ 60)"
  using binary64_eval [where x = "1 - 8950904259398861 / 2 ^ 53" and e = "- 8"
      and n = 7205759403792768]
  by (simp add: power_int_minus_divide)

lemma binary64_product_159_160:
  "binary64 (7205759403792768 / 2 ^ 60 * 100) = Finite (5629499534213100 / 2 ^ 53)"
  using binary64_eval [where x = "7205759403792768 / 2 ^ 60 * 100" and e = "- 1"
      and n = 5629499534213100]
  by (simp add: power_int_minus_divide)

lemma percentage_159_160:
  "js_mul (js_sub (Finite 1) (js_div (Finite (of_nat 159)) (Finite (of_nat 160)))) (Finite 100) =
     Finite (5629499534213100 / 2 ^ 53)"
proof -
  have "js_mul (js_sub (Finite 1) (js_div (Finite (of_nat 159)) (Finite (of_nat 160))))
          (Finite 100) =
        js_mul (js_sub (Finite 1) (binary64 (159 / 160))) (Finite 100)"
    by simp
  also have "\<dots> = js_mul (binary64 (1 - 8950904259398861 / 2 ^ 53)) (Finite 100)"
    by (simp only: binary64_quotient_159_160 js_sub.simps)
  also have "\<dots> = binary64 (7205759403792768 / 2 ^ 60 * 100)"
    by (simp only: binary64_difference_159_160 js_mul.simps)
  also have "\<dots> = Finite (5629499534213100 / 2 ^ 53)"
    by (rule binary64_product_159_160)
  finally show ?thesis .
qed

text \<open>
  The nearest hundredths are within half a hundredth of the absolute value.
\<close>

lemma hundredths_near: "\<bar>rat_of_nat (hundredths x) / 100 - \<bar>x\<bar>\<bar> \<le> 1 / 200"
proof -
  let ?y = "\<bar>x\<bar> * 100 + 1 / 2"
  let ?f = "rat_of_int \<lfloor>?y\<rfloor>"
  have nonneg: "0 \<le> \<lfloor>?y\<rfloor>" by simp
  have n: "rat_of_nat (hundredths x) = ?f"
    using nonneg by (simp add: hundredths_def)
  have lo: "?f \<le> ?y" and hi: "?y < ?f + 1"
    by linarith+
  have "?f / 100 - \<bar>x\<bar> \<le> 1 / 200" using lo by linarith
  moreover have "- (1 / 200) \<le> ?f / 100 - \<bar>x\<bar>" using hi by linarith
  ultimately have "\<bar>?f / 100 - \<bar>x\<bar>\<bar> \<le> 1 / 200" by (intro abs_leI) linarith+
  then show ?thesis by (simp only: n)
qed

text \<open>
  Claim C5, as stated, fails. For an empty file (original size 0) whose gzip stream has 20
  bytes, both scripts evaluate \<open>20 / 0\<close>, which is \<open>Infinity\<close>, and the entry they build
  has the compression ratio \<open>-Infinity\<close>: there is no guard, and the field is not a
  percentage with two decimals.
\<close>

theorem compression_ratio_counterexample:
  "map compressionRatio
     (files (dataJson (app (snd (updateRegistry env_accepting ''empty.txt'' 1 0 20 ''document''
                                   sample_world))))) = [''-Infinity''] \<and>
   map compressionRatio
     (files (dataJson (app (snd (updateDataJson env_accepting ''empty.txt'' 1 0 20
                                   sample_world))))) = [''-Infinity''] \<and>
   js_div (Finite (of_nat 20)) (Finite (of_nat 0)) = PosInfinity"
  by (simp add: updateRegistry_app updateDataJson_unfold uploadDataJsonToGitHub_app pushed_def
      updateRegistry_entry_def updateDataJson_entry_def compressionRatio_of_def
      sample_world_def sample_app_def sample_registry_def)

text \<open>
  Claim C5, amended. The entry that \<open>updateRegistry\<close> and \<open>updateDataJson\<close> append has
  \<open>compressionRatio = ((1 - compressedSize / originalSize) * 100).toFixed(2)\<close>, computed
  without a guard: for an original size of 0 the division is evaluated and the field is
  \<open>-Infinity\<close> when the compressed size is positive and \<open>NaN\<close> when it is 0. For a positive
  original size (byte counts below \<open>2^53\<close>) the expression is a finite double \<open>v\<close> within
  \<open>(1 + compressedSize / originalSize) / 2^44\<close> of the exact percentage, and the field is
  \<open>v\<close> written with two decimals: the hundredths nearest to \<open>v\<close>, within half a hundredth
  of it. The digits are those of the double, not of the exact percentage.
\<close>

theorem compression_ratio_unguarded:
  "compressionRatio (last (files (dataJson (app (snd (updateRegistry E f k osz csz cat w)))))) =
     compressionRatio_of csz osz \<and>
   compressionRatio (last (files (dataJson (app (snd (updateDataJson E f k osz csz w)))))) =
     compressionRatio_of csz osz \<and>
   (osz = 0 \<and> 0 < csz \<longrightarrow> compressionRatio_of csz osz = ''-Infinity'') \<and>
   (osz = 0 \<and> csz = 0 \<longrightarrow> compressionRatio_of csz osz = ''NaN'') \<and>
   (0 < osz \<and> osz < 2 ^ 53 \<and> csz < 2 ^ 53 \<longrightarrow>
      (\<exists>v. js_mul (js_sub (Finite 1) (js_div (Finite (of_nat csz)) (Finite (of_nat osz))))
              (Finite 100) = Finite v \<and>
            \<bar>v - (1 - rat_of_nat csz / rat_of_nat osz) * 100\<bar> \<le>
              (1 + rat_of_nat csz / rat_of_nat osz) / 2 ^ 44 \<and>
            compressionRatio_of csz osz =
              (if v < 0 then ''-'' else []) @ digits (hundredths v div 100) @ ''.'' @
              [digit (hundredths v mod 100 div 10), digit (hundredths v mod 10)] \<and>
            \<bar>rat_of_nat (hundredths v) / 100 - \<bar>v\<bar>\<bar> \<le> 1 / 200))"
proof (intro conjI impI)
  show "compressionRatio (last (files (dataJson (app (snd (updateRegistry E f k osz csz cat w)))))) =
     compressionRatio_of csz osz"
    by (simp add: updateRegistry_app pushed_def updateRegistry_entry_def)
  show "compressionRatio (last (files (dataJson (app (snd (updateDataJson E f k osz csz w)))))) =
     compressionRatio_of csz osz"
    by (simp add: updateDataJson_unfold uploadDataJsonToGitHub_app pushed_def
        updateDataJson_entry_def)
next
  assume "osz = 0 \<and> 0 < csz"
  then show "compressionRatio_of csz osz = ''-Infinity''"
    by (simp add: compressionRatio_of_def)
next
  assume "osz = 0 \<and> csz = 0"
  then show "compressionRatio_of csz osz = ''NaN''"
    by (simp add: compressionRatio_of_def)
next
  assume a: "0 < osz \<and> osz < 2 ^ 53 \<and> csz < 2 ^ 53"
  then obtain v where
    v: "js_mul (js_sub (Finite 1) (js_div (Finite (of_nat csz)) (Finite (of_nat osz))))
          (Finite 100) = Finite v"
    and near: "\<bar>v - (1 - rat_of_nat csz / rat_of_nat osz) * 100\<bar> \<le>
          (1 + rat_of_nat csz / rat_of_nat osz) / 2 ^ 44"
    using percentage_error [of osz csz] by blast
  have "compressionRatio_of csz osz =
          (if v < 0 then ''-'' else []) @ digits (hundredths v div 100) @ ''.'' @
          [digit (hundredths v mod 100 div 10), digit (hundredths v mod 10)]"
    by (simp only: compressionRatio_of_def v toFixed2.simps two_decimals_def)
  with v near hundredths_near [of v]
  show "\<exists>v. js_mul (js_sub (Finite 1) (js_div (Finite (of_nat csz)) (Finite (of_nat osz))))
              (Finite 100) = Finite v \<and>
            \<bar>v - (1 - rat_of_nat csz / rat_of_nat osz) * 100\<bar> \<le>
              (1 + rat_of_nat csz / rat_of_nat osz) / 2 ^ 44 \<and>
            compressionRatio_of csz osz =
              (if v < 0 then ''-'' else []) @ digits (hundredths v div 100) @ ''.'' @
              [digit (hundredths v mod 100 div 10), digit (hundredths v mod 10)] \<and>
            \<bar>rat_of_nat (hundredths v) / 100 - \<bar>v\<bar>\<bar> \<le> 1 / 200"
    by blast
qed

theorem compression_ratio_unguarded_witness:
  "compressionRatio_of 20 0 = ''-Infinity'' \<and> compressionRatio_of 0 0 = ''NaN'' \<and>
   compressionRatio_of 159 160 = ''0.62'' \<and>
   (1 - rat_of_nat 159 / rat_of_nat 160) * 100 = 5 / 8 \<and>
   \<bar>5629499534213100 / 2 ^ 53 - (1 - rat_of_nat 159 / rat_of_nat 160) * 100\<bar> \<le>
     (1 + rat_of_nat 159 / rat_of_nat 160) / 2 ^ 44"
proof -
  have a: "compressionRatio_of 20 0 = ''-Infinity''"
    using compression_ratio_unguarded [of E f k 0 20 cat w] by simp
  have b: "compressionRatio_of 0 0 = ''NaN''"
    using compression_ratio_unguarded [of E f k 0 0 cat w] by simp
  have "(0::nat) < 160 \<and> (160::nat) < 2 ^ 53 \<and> (159::nat) < 2 ^ 53" by simp
  with compression_ratio_unguarded [of E f k 160 159 cat w]
  obtain v where
    v: "js_mul (js_sub (Finite 1) (js_div (Finite (of_nat 159)) (Finite (of_nat 160))))
          (Finite 100) = Finite v"
    and near: "\<bar>v - (1 - rat_of_nat 159 / rat_of_nat 160) * 100\<bar> \<le>
          (1 + rat_of_nat 159 / rat_of_nat 160) / 2 ^ 44"
    and str: "compressionRatio_of 159 160 =
          (if v < 0 then ''-'' else []) @ digits (hundredths v div 100) @ ''.'' @
          [digit (hundredths v mod 100 div 10), digit (hundredths v mod 10)]"
    by blast
  from v have v': "v = 5629499534213100 / 2 ^ 53"
    by (simp only: percentage_159_160 jsnum.inject)
  have "\<lfloor>\<bar>5629499534213100 / 2 ^ 53 :: rat\<bar> * 100 + 1 / 2\<rfloor> = 62"
    by (rule floor_unique) simp_all
  then have h: "hundredths v = 62" by (simp add: hundredths_def v')
  have pos: "\<not> v < 0" by (simp add: v')
  have c: "compressionRatio_of 159 160 = ''0.62''"
    by (simp add: str h pos digit_def digits.simps)
  have d: "(1 - rat_of_nat 159 / rat_of_nat 160) * 100 = 5 / 8" by simp
  from near have e: "\<bar>5629499534213100 / 2 ^ 53 - (1 - rat_of_nat 159 / rat_of_nat 160) * 100\<bar> \<le>
     (1 + rat_of_nat 159 / rat_of_nat 160) / 2 ^ 44"
    by (simp only: v')
  from a b c d e show ?thesis by blast
qed


section \<open>The registry is written from the copy in memory, once\<close>

text \<open>
  What \<open>uploadDataJsonToGitHub\<close> sends, case by case.
\<close>

lemma uploadDataJsonToGitHub_trace_eq:
  "trace (snd (uploadDataJsonToGitHub E w)) =
     trace w @
     (if \<not> btoa_ok E (dataJson (app w)) then []
      else (case fetch E (GET DataFile) 0 of
              Rejected \<Rightarrow> [Fetch (GET DataFile)]
            | Response st body \<Rightarrow>
                (case body of
                   None \<Rightarrow>
                     (if ok st then [Fetch (GET DataFile)]
                      else [Fetch (GET DataFile),
                            Fetch (PUT DataFile (RegistryBody (dataJson (app w))) None)])
                 | Some j \<Rightarrow>
                     [Fetch (GET DataFile),
                      Fetch (PUT DataFile (RegistryBody (dataJson (app w)))
                               (or_undefined (if ok st then json_sha j else None)))])))"
  by (auto simp: uploadDataJsonToGitHub_def Let_def catch_def bind_def emit_def add_event_def
        throw_def return_def or_undefined_def
        split: response.splits option.splits)

text \<open>
  Claim C2, as stated, fails. The store holds a registry with the entry \<open>a.txt\<close> under
  the token \<open>s1\<close>, the registry in memory is empty, and the store answers the write with
  409. \<open>updateRegistry\<close> reads the token \<open>s1\<close>, but the document it writes is the one in
  memory with the new entry: it holds \<open>b.txt\<close> alone, not the entry that was read. The
  rejected write is the last request: nothing is retried.
\<close>

theorem registry_append_counterexample:
  "trace (snd (updateRegistry env_conflict ''b.txt'' 1 10 5 ''document'' sample_world)) =
     [Fetch (GET DataFile),
      Fetch (PUT DataFile
               (RegistryBody (pushed env_conflict
                  (updateRegistry_entry env_conflict ''b.txt'' 1 10 5 ''document'') sample_registry))
               (Some ''s1''))] \<and>
   fetch env_conflict (GET DataFile) 0 =
     Response 200 (Some (Json (Some ''s1'') (Some remote_registry))) \<and>
   map name (files remote_registry) = [''a.txt''] \<and>
   map name (files (pushed env_conflict
                  (updateRegistry_entry env_conflict ''b.txt'' 1 10 5 ''document'') sample_registry)) =
     [''b.txt''] \<and>
   fetch env_conflict
     (PUT DataFile
        (RegistryBody (pushed env_conflict
           (updateRegistry_entry env_conflict ''b.txt'' 1 10 5 ''document'') sample_registry))
        (Some ''s1'')) 0 = Response 409 (Some (Json None None)) \<and>
   \<not> ok 409"
  by (simp add: updateRegistry_trace Let_def env_conflict_def sample_world_def sample_app_def
      remote_registry_def sample_registry_def other_entry_def pushed_def
      updateRegistry_entry_def ok_def or_undefined_def)

text \<open>
  Claim C2, amended. Appending an entry pushes it onto the registry held in memory and
  writes that document: one \<open>GET\<close> of \<open>data.json\<close>, of which only the \<open>sha\<close> is used, then
  at most one \<open>PUT\<close> carrying the document in memory and that \<open>sha\<close> (none when the read
  gave none). What the read returned as content is never merged, and no request follows
  the \<open>PUT\<close>, whatever its answer: a rejected write is not retried. In the second file a
  read that throws ends the operation before the \<open>PUT\<close>. A document that cannot be
  encoded is not sent at all.
\<close>

theorem registry_append_writes_cache_once:
  "dataJson (app (snd (updateRegistry E f k osz csz cat w))) =
     pushed E (updateRegistry_entry E f k osz csz cat) (dataJson (app w)) \<and>
   trace (snd (updateRegistry E f k osz csz cat w)) =
     trace w @
     (if btoa_ok E (pushed E (updateRegistry_entry E f k osz csz cat) (dataJson (app w)))
      then [Fetch (GET DataFile),
            Fetch (PUT DataFile
                     (RegistryBody (pushed E (updateRegistry_entry E f k osz csz cat)
                                      (dataJson (app w))))
                     (or_undefined
                        (case fetch E (GET DataFile) 0 of
                           Rejected \<Rightarrow> None
                         | Response st body \<Rightarrow>
                             (if ok st then (case body of None \<Rightarrow> None | Some j \<Rightarrow> json_sha j)
                              else None))))]
      else []) \<and>
   (\<exists>cat'.
      dataJson (app (snd (updateDataJson E f k osz csz w))) =
        pushed E (updateDataJson_entry E f k osz csz cat') (dataJson (app w)) \<and>
      trace (snd (updateDataJson E f k osz csz w)) =
        trace w @
        (if \<not> btoa_ok E (pushed E (updateDataJson_entry E f k osz csz cat') (dataJson (app w)))
         then []
         else (case fetch E (GET DataFile) 0 of
                 Rejected \<Rightarrow> [Fetch (GET DataFile)]
               | Response st body \<Rightarrow>
                   (case body of
                      None \<Rightarrow>
                        (if ok st then [Fetch (GET DataFile)]
                         else [Fetch (GET DataFile),
                               Fetch (PUT DataFile
                                  (RegistryBody (pushed E (updateDataJson_entry E f k osz csz cat')
                                                   (dataJson (app w))))
                                  None)])
                    | Some j \<Rightarrow>
                        [Fetch (GET DataFile),
                         Fetch (PUT DataFile
                                  (RegistryBody (pushed E (updateDataJson_entry E f k osz csz cat')
                                                   (dataJson (app w))))
                                  (or_undefined (if ok st then json_sha j else None)))]))))"
proof (intro conjI)
  show "dataJson (app (snd (updateRegistry E f k osz csz cat w))) =
     pushed E (updateRegistry_entry E f k osz csz cat) (dataJson (app w))"
    by (simp add: updateRegistry_app)
  show "trace (snd (updateRegistry E f k osz csz cat w)) =
     trace w @
     (if btoa_ok E (pushed E (updateRegistry_entry E f k osz csz cat) (dataJson (app w)))
      then [Fetch (GET DataFile),
            Fetch (PUT DataFile
                     (RegistryBody (pushed E (updateRegistry_entry E f k osz csz cat)
                                      (dataJson (app w))))
                     (or_undefined
                        (case fetch E (GET DataFile) 0 of
                           Rejected \<Rightarrow> None
                         | Response st body \<Rightarrow>
                             (if ok st then (case body of None \<Rightarrow> None | Some j \<Rightarrow> json_sha j)
                              else None))))]
      else [])"
    by (simp add: updateRegistry_trace Let_def)
next
  let ?cat = "detect_loop FILE_CATEGORIES
                (toLowerCase (rev (takeWhile (\<lambda>c. c \<noteq> CHR ''.'') (rev f))))"
  show "\<exists>cat'.
      dataJson (app (snd (updateDataJson E f k osz csz w))) =
        pushed E (updateDataJson_entry E f k osz csz cat') (dataJson (app w)) \<and>
      trace (snd (updateDataJson E f k osz csz w)) =
        trace w @
        (if \<not> btoa_ok E (pushed E (updateDataJson_entry E f k osz csz cat') (dataJson (app w)))
         then []
         else (case fetch E (GET DataFile) 0 of
                 Rejected \<Rightarrow> [Fetch (GET DataFile)]
               | Response st body \<Rightarrow>
                   (case body of
                      None \<Rightarrow>
                        (if ok st then [Fetch (GET DataFile)]
                         else [Fetch (GET DataFile),
                               Fetch (PUT DataFile
                                  (RegistryBody (pushed E (updateDataJson_entry E f k osz csz cat')
                                                   (dataJson (app w))))
                                  None)])
                    | Some j \<Rightarrow>
                        [Fetch (GET DataFile),
                         Fetch (PUT DataFile
                                  (RegistryBody (pushed E (updateDataJson_entry E f k osz csz cat')
                                                   (dataJson (app w))))
                                  (or_undefined (if ok st then json_sha j else None)))])))"
    by (intro exI [of _ ?cat])
       (simp add: updateDataJson_unfold uploadDataJsonToGitHub_app uploadDataJsonToGitHub_trace_eq
          split: response.splits option.splits)
qed

theorem registry_append_writes_cache_once_witness:
  "btoa_ok env_conflict
     (pushed env_conflict (updateRegistry_entry env_conflict ''b.txt'' 1 10 5 ''document'')
        (dataJson (app sample_world))) \<and>
   fetches_of (trace (snd (updateRegistry env_conflict ''b.txt'' 1 10 5 ''document'' sample_world))) =
     [GET DataFile,
      PUT DataFile
        (RegistryBody (pushed env_conflict
           (updateRegistry_entry env_conflict ''b.txt'' 1 10 5 ''document'') sample_registry))
        (Some ''s1'')]"
proof -
  have enc: "btoa_ok env_conflict
     (pushed env_conflict (updateRegistry_entry env_conflict ''b.txt'' 1 10 5 ''document'')
        (dataJson (app sample_world)))"
    by (simp add: env_conflict_def)
  have get: "fetch env_conflict (GET DataFile) 0 =
      Response 200 (Some (Json (Some ''s1'') (Some remote_registry)))"
    by (simp add: env_conflict_def)
  from registry_append_writes_cache_once [of env_conflict "''b.txt''" 1 10 5 "''document''" sample_world]
  have "trace (snd (updateRegistry env_conflict ''b.txt'' 1 10 5 ''document'' sample_world)) =
     trace sample_world @
     [Fetch (GET DataFile),
      Fetch (PUT DataFile
               (RegistryBody (pushed env_conflict
                  (updateRegistry_entry env_conflict ''b.txt'' 1 10 5 ''document'')
                  (dataJson (app sample_world))))
               (or_undefined (Some ''s1'')))]"
    using enc by (simp add: get ok_def)
  then show ?thesis
    using enc by (simp add: fetches_of_def sample_world_def sample_app_def or_undefined_def)
qed

section \<open>The entry stays in memory when the remote write fails\<close>

text \<open>
  Claim C9. \<open>updateRegistry\<close> and \<open>updateDataJson\<close> leave the new entry in the registry
  in memory, with \<open>lastUpdated\<close> set, whatever happens afterwards: even when the document
  cannot be encoded and no request is sent at all, so the push comes before every network
  call. Once the requests are sent the operation completes normally whatever the store
  answers (the answer to the \<open>PUT\<close> is never read in \<open>script.js\<close>, and every failure is
  caught in the second file), so a failed remote write is not propagated and the entry
  stays in memory.
\<close>

theorem registry_append_not_atomic:
  "dataJson (app (snd (updateRegistry E f k osz csz cat w))) =
     pushed E (updateRegistry_entry E f k osz csz cat) (dataJson (app w)) \<and>
   (btoa_ok E (pushed E (updateRegistry_entry E f k osz csz cat) (dataJson (app w))) \<longrightarrow>
      fst (updateRegistry E f k osz csz cat w) = Inr ()) \<and>
   (\<not> btoa_ok E (pushed E (updateRegistry_entry E f k osz csz cat) (dataJson (app w))) \<longrightarrow>
      fst (updateRegistry E f k osz csz cat w) = Inl InvalidCharacterError \<and>
      trace (snd (updateRegistry E f k osz csz cat w)) = trace w) \<and>
   fst (updateDataJson E f k osz csz w) = Inr () \<and>
   (\<exists>cat'. dataJson (app (snd (updateDataJson E f k osz csz w))) =
      pushed E (updateDataJson_entry E f k osz csz cat') (dataJson (app w))) \<and>
   files (pushed E entry doc) = files doc @ [entry] \<and>
   lastUpdated (pushed E entry doc) = now E"
proof (intro conjI impI)
  show "dataJson (app (snd (updateRegistry E f k osz csz cat w))) =
     pushed E (updateRegistry_entry E f k osz csz cat) (dataJson (app w))"
    by (simp add: updateRegistry_app)
  show "fst (updateDataJson E f k osz csz w) = Inr ()"
    by (simp add: updateDataJson_unfold)
  show "\<exists>cat'. dataJson (app (snd (updateDataJson E f k osz csz w))) =
      pushed E (updateDataJson_entry E f k osz csz cat') (dataJson (app w))"
    by (intro exI [of _ "detect_loop FILE_CATEGORIES
                (toLowerCase (rev (takeWhile (\<lambda>c. c \<noteq> CHR ''.'') (rev f))))"])
       (simp add: updateDataJson_unfold uploadDataJsonToGitHub_app)
  show "files (pushed E entry doc) = files doc @ [entry]"
    by (simp add: pushed_def)
  show "lastUpdated (pushed E entry doc) = now E"
    by (simp add: pushed_def)
next
  assume "btoa_ok E (pushed E (updateRegistry_entry E f k osz csz cat) (dataJson (app w)))"
  then show "fst (updateRegistry E f k osz csz cat w) = Inr ()"
    by (simp add: updateRegistry_fst)
next
  assume no: "\<not> btoa_ok E (pushed E (updateRegistry_entry E f k osz csz cat) (dataJson (app w)))"
  then show "fst (updateRegistry E f k osz csz cat w) = Inl InvalidCharacterError"
    by (simp add: updateRegistry_fst)
  from no show "trace (snd (updateRegistry E f k osz csz cat w)) = trace w"
    by (simp add: updateRegistry_trace Let_def)
qed

theorem registry_append_not_atomic_witness:
  "fetch env_conflict
     (PUT DataFile
        (RegistryBody (pushed env_conflict
           (updateRegistry_entry env_conflict ''b.txt'' 1 10 5 ''document'') sample_registry))
        (Some ''s1'')) 0 = Response 409 (Some (Json None None)) \<and>
   \<not> ok 409 \<and>
   btoa_ok env_conflict
     (pushed env_conflict (updateRegistry_entry env_conflict ''b.txt'' 1 10 5 ''document'')
        (dataJson (app sample_world))) \<and>
   fst (updateRegistry env_conflict ''b.txt'' 1 10 5 ''document'' sample_world) = Inr () \<and>
   map name (files (dataJson (app (snd
     (updateRegistry env_conflict ''b.txt'' 1 10 5 ''document'' sample_world))))) = [''b.txt'']"
proof -
  have enc: "btoa_ok env_conflict
     (pushed env_conflict (updateRegistry_entry env_conflict ''b.txt'' 1 10 5 ''document'')
        (dataJson (app sample_world)))"
    by (simp add: env_conflict_def)
  have rejected: "fetch env_conflict
     (PUT DataFile
        (RegistryBody (pushed env_conflict
           (updateRegistry_entry env_conflict ''b.txt'' 1 10 5 ''document'') sample_registry))
        (Some ''s1'')) 0 = Response 409 (Some (Json None None)) \<and> \<not> ok 409"
    by (simp add: env_conflict_def ok_def)
  from registry_append_not_atomic [of env_conflict "''b.txt''" 1 10 5 "''document''" sample_world]
  have "fst (updateRegistry env_conflict ''b.txt'' 1 10 5 ''document'' sample_world) = Inr ()"
    and "dataJson (app (snd (updateRegistry env_conflict ''b.txt'' 1 10 5 ''document'' sample_world))) =
     pushed env_conflict (updateRegistry_entry env_conflict ''b.txt'' 1 10 5 ''document'')
       (dataJson (app sample_world))"
    using enc by simp_all
  then show ?thesis
    using enc rejected
    by (simp add: pushed_def updateRegistry_entry_def sample_world_def sample_app_def
        sample_registry_def)
qed

section \<open>Reading traces of the transfer engine\<close>

lemma delays_of_simps [simp]:
  "delays_of [] = []"
  "delays_of (xs @ ys) = delays_of xs @ delays_of ys"
  "delays_of (Delay ms # xs) = ms # delays_of xs"
  "delays_of (Fetch r # xs) = delays_of xs"
  "delays_of (ChunkLogged i t # xs) = delays_of xs"
  "delays_of (UpdateProgress p # xs) = delays_of xs"
  by (simp_all add: delays_of_def)

lemma fetches_of_simps [simp]:
  "fetches_of [] = []"
  "fetches_of (xs @ ys) = fetches_of xs @ fetches_of ys"
  "fetches_of (Delay ms # xs) = fetches_of xs"
  "fetches_of (Fetch r # xs) = r # fetches_of xs"
  "fetches_of (ChunkLogged i t # xs) = fetches_of xs"
  "fetches_of (UpdateProgress p # xs) = fetches_of xs"
  by (simp_all add: fetches_of_def)

lemma progress_of_simps [simp]:
  "progress_of [] = []"
  "progress_of (xs @ ys) = progress_of xs @ progress_of ys"
  "progress_of (Delay ms # xs) = progress_of xs"
  "progress_of (Fetch r # xs) = progress_of xs"
  "progress_of (ChunkLogged i t # xs) = progress_of xs"
  "progress_of (UpdateProgress p # xs) = p # progress_of xs"
  by (simp_all add: progress_of_def)

lemma chunk_logs_of_simps [simp]:
  "chunk_logs_of [] = []"
  "chunk_logs_of (xs @ ys) = chunk_logs_of xs @ chunk_logs_of ys"
  "chunk_logs_of (Delay ms # xs) = chunk_logs_of xs"
  "chunk_logs_of (Fetch r # xs) = chunk_logs_of xs"
  "chunk_logs_of (ChunkLogged i t # xs) = i # chunk_logs_of xs"
  "chunk_logs_of (UpdateProgress p # xs) = chunk_logs_of xs"
  by (simp_all add: chunk_logs_of_def)

lemma registry_puts_simps [simp]:
  "registry_puts (Delay ms # xs) = registry_puts xs"
  "registry_puts (Fetch (PUT (ChunkFile f n) b s) # xs) = registry_puts xs"
  "registry_puts (Fetch (PUT p (ChunkBody d) s) # xs) = registry_puts xs"
  "registry_puts (ChunkLogged i t # xs) = registry_puts xs"
  "registry_puts (UpdateProgress q # xs) = registry_puts xs"
  by (simp_all add: registry_puts_def split: path.splits)

section \<open>Three attempts per chunk\<close>

text \<open>The outcome of one attempt, and of the three attempts together, written out.\<close>

lemma uploadChunk_try_eq:
  "uploadChunk_try E f d i t a w =
     (if attempt_fails E f d i a
      then (Inl (if \<not> blobToBase64_ok E i a then ReadError
                 else (case fetch E (PUT (ChunkFile f (i + 1)) (ChunkBody d) None) a of
                         Rejected \<Rightarrow> NetworkError
                       | Response st body \<Rightarrow> HttpError st)),
            w\<lparr> trace := trace w @
                  (if blobToBase64_ok E i a
                   then [Fetch (PUT (ChunkFile f (i + 1)) (ChunkBody d) None)] else []) \<rparr>)
      else (Inr (),
            w\<lparr> trace := trace w @
                  [Fetch (PUT (ChunkFile f (i + 1)) (ChunkBody d) None), ChunkLogged (i + 1) t] \<rparr>))"
  by (auto simp: uploadChunk_try_def attempt_fails_def throw_def bind_def emit_def add_event_def
        Let_def split: response.splits)

lemma uploadChunk_eq:
  "uploadChunk E f d i t w =
     (let req = Fetch (PUT (ChunkFile f (i + 1)) (ChunkBody d) None);
          sent = (\<lambda>a. if blobToBase64_ok E i a then [req] else [])
      in if \<not> attempt_fails E f d i 0
         then (Inr (), w\<lparr> trace := trace w @ [req, ChunkLogged (i + 1) t] \<rparr>)
         else if \<not> attempt_fails E f d i 1
         then (Inr (), w\<lparr> trace := trace w @ sent 0 @ [Delay 1000, req, ChunkLogged (i + 1) t] \<rparr>)
         else if \<not> attempt_fails E f d i 2
         then (Inr (), w\<lparr> trace := trace w @ sent 0 @ [Delay 1000] @ sent 1 @
                                  [Delay 2000, req, ChunkLogged (i + 1) t] \<rparr>)
         else (Inl (ChunkFailed (i + 1)),
               w\<lparr> trace := trace w @ sent 0 @ [Delay 1000] @ sent 1 @ [Delay 2000] @ sent 2 \<rparr>))"
  by (simp add: uploadChunk_def uploadChunk_from.simps uploadChunk_try_eq add_event_def Let_def
      numeral_2_eq_2)


lemma uploadChunkToGitHub_try_eq:
  "uploadChunkToGitHub_try E p d i t a w =
     (if attempt_fails_part000 E p d i a
      then (Inl (if \<not> blobToBase64_ok E i a then ReadError
                 else (case fetch E (PUT p (ChunkBody d) None) a of
                         Rejected \<Rightarrow> NetworkError
                       | Response st body \<Rightarrow>
                           (case body of None \<Rightarrow> JsonSyntaxError | Some j \<Rightarrow> HttpError st))),
            w\<lparr> trace := trace w @
                  (if blobToBase64_ok E i a then [Fetch (PUT p (ChunkBody d) None)] else []) \<rparr>)
      else (Inr (),
            w\<lparr> trace := trace w @ [Fetch (PUT p (ChunkBody d) None), ChunkLogged (i + 1) t] \<rparr>))"
  by (auto simp: uploadChunkToGitHub_try_def attempt_fails_part000_def throw_def bind_def emit_def
        add_event_def Let_def split: response.splits option.splits)

lemma uploadChunkToGitHub_eq:
  "uploadChunkToGitHub E p d i t w =
     (let req = Fetch (PUT p (ChunkBody d) None);
          sent = (\<lambda>a. if blobToBase64_ok E i a then [req] else [])
      in if \<not> attempt_fails_part000 E p d i 0
         then (Inr (), w\<lparr> trace := trace w @ [req, ChunkLogged (i + 1) t] \<rparr>)
         else if \<not> attempt_fails_part000 E p d i 1
         then (Inr (), w\<lparr> trace := trace w @ sent 0 @ [Delay 2000, req, ChunkLogged (i + 1) t] \<rparr>)
         else if \<not> attempt_fails_part000 E p d i 2
         then (Inr (), w\<lparr> trace := trace w @ sent 0 @ [Delay 2000] @ sent 1 @
                                  [Delay 2000, req, ChunkLogged (i + 1) t] \<rparr>)
         else (fst (uploadChunkToGitHub_try E p d i t 2 w),
               w\<lparr> trace := trace w @ sent 0 @ [Delay 2000] @ sent 1 @ [Delay 2000] @ sent 2 \<rparr>))"
  by (simp add: uploadChunkToGitHub_def uploadChunkToGitHub_from.simps uploadChunkToGitHub_try_eq
      add_event_def Let_def numeral_2_eq_2 RETRY_ATTEMPTS_def RETRY_DELAY_def)

lemma uploadChunk_fst:
  "fst (uploadChunk E f d i t w) =
     (if exhausted E f d i then Inl (ChunkFailed (i + 1)) else Inr ())"
  by (simp add: uploadChunk_eq exhausted_def Let_def)

lemma uploadChunk_app: "app (snd (uploadChunk E f d i t w)) = app w"
  by (simp add: uploadChunk_eq Let_def)

lemma uploadChunk_trace:
  "\<exists>new. trace (snd (uploadChunk E f d i t w)) = trace w @ new \<and>
     length (fetches_of new) \<le> 3 \<and>
     delays_of new \<in> {[], [1000], [1000, 2000]} \<and>
     progress_of new = [] \<and> registry_puts new = [] \<and>
     chunk_logs_of new = (if exhausted E f d i then [] else [i + 1])"
  by (simp add: uploadChunk_eq exhausted_def Let_def)

lemma uploadChunkToGitHub_fst:
  "(\<exists>e. fst (uploadChunkToGitHub E p d i t w) = Inl e) = exhausted_part000 E p d i"
  "\<not> exhausted_part000 E p d i \<Longrightarrow> fst (uploadChunkToGitHub E p d i t w) = Inr ()"
  by (auto simp: uploadChunkToGitHub_eq exhausted_part000_def Let_def uploadChunkToGitHub_try_eq)

lemma uploadChunkToGitHub_app: "app (snd (uploadChunkToGitHub E p d i t w)) = app w"
  by (simp add: uploadChunkToGitHub_eq Let_def)

lemma uploadChunkToGitHub_trace:
  "\<exists>new. trace (snd (uploadChunkToGitHub E p d i t w)) = trace w @ new \<and>
     length (fetches_of new) \<le> 3 \<and>
     delays_of new \<in> {[], [2000], [2000, 2000]} \<and>
     progress_of new = [] \<and> registry_puts new = [] \<and>
     chunk_logs_of new = (if exhausted_part000 E p d i then [] else [i + 1])"
  by (simp add: uploadChunkToGitHub_eq exhausted_part000_def Let_def)

text \<open>
  Claim C4, as stated, fails. In the second file a chunk whose three attempts are answered
  with 500 waits 2000 ms after the first attempt and 2000 ms after the second: the delay
  does not grow with the attempt number.
\<close>

theorem retry_delay_counterexample:
  "delays_of (trace (snd (uploadChunkToGitHub env_failing (ChunkFile ''a.bin'' 1) [1, 2, 3] 0 1
                            sample_world))) = [2000, 2000] \<and>
   fst (uploadChunkToGitHub env_failing (ChunkFile ''a.bin'' 1) [1, 2, 3] 0 1 sample_world) =
     Inl (HttpError 500) \<and>
   \<not> sorted_wrt (<) [2000, 2000 :: nat]"
  by (simp add: uploadChunkToGitHub_eq uploadChunkToGitHub_try_eq attempt_fails_part000_def
      env_failing_def env_conflict_def ok_def sample_world_def Let_def)

text \<open>
  Claim C4, amended. Each chunk is attempted at most 3 times. The first conjunct is the
  whole run of \<open>uploadChunk\<close>, attempt by attempt: a failed first attempt is followed by a
  wait of 1000 ms, a failed second attempt by a wait of 2000 ms, a failed third attempt
  by the error \<open>Chunk n failed\<close> and no wait. The second conjunct is the run of
  \<open>uploadChunkToGitHub\<close>: the wait after a failed first or second attempt is
  \<open>CONFIG.RETRY_DELAY\<close> (2000 ms) both times, and a failed third attempt rethrows its
  error. In short, with \<open>n\<close> the number of attempts that fail before one succeeds: the
  chunk fails exactly when \<open>n = 3\<close>, at most \<open>min (n + 1) 3\<close> requests are sent, and the
  waits are \<open>1000 * k\<close> after the \<open>k\<close>-th failed attempt in \<open>script.js\<close>, strictly
  increasing, and \<open>RETRY_DELAY\<close> each in the second file.
\<close>

theorem retry_policy:
  "uploadChunk E f d i t w =
     (let req = Fetch (PUT (ChunkFile f (i + 1)) (ChunkBody d) None);
          sent = (\<lambda>a. if blobToBase64_ok E i a then [req] else [])
      in if \<not> attempt_fails E f d i 0
         then (Inr (), w\<lparr> trace := trace w @ [req, ChunkLogged (i + 1) t] \<rparr>)
         else if \<not> attempt_fails E f d i 1
         then (Inr (), w\<lparr> trace := trace w @ sent 0 @ [Delay 1000, req, ChunkLogged (i + 1) t] \<rparr>)
         else if \<not> attempt_fails E f d i 2
         then (Inr (), w\<lparr> trace := trace w @ sent 0 @ [Delay 1000] @ sent 1 @
                                  [Delay 2000, req, ChunkLogged (i + 1) t] \<rparr>)
         else (Inl (ChunkFailed (i + 1)),
               w\<lparr> trace := trace w @ sent 0 @ [Delay 1000] @ sent 1 @ [Delay 2000] @ sent 2 \<rparr>)) \<and>
   uploadChunkToGitHub E p d i t w =
     (let req = Fetch (PUT p (ChunkBody d) None);
          sent = (\<lambda>a. if blobToBase64_ok E i a then [req] else [])
      in if \<not> attempt_fails_part000 E p d i 0
         then (Inr (), w\<lparr> trace := trace w @ [req, ChunkLogged (i + 1) t] \<rparr>)
         else if \<not> attempt_fails_part000 E p d i 1
         then (Inr (), w\<lparr> trace := trace w @ sent 0 @
                                  [Delay RETRY_DELAY, req, ChunkLogged (i + 1) t] \<rparr>)
         else if \<not> attempt_fails_part000 E p d i 2
         then (Inr (), w\<lparr> trace := trace w @ sent 0 @ [Delay RETRY_DELAY] @ sent 1 @
                                  [Delay RETRY_DELAY, req, ChunkLogged (i + 1) t] \<rparr>)
         else (fst (uploadChunkToGitHub_try E p d i t 2 w),
               w\<lparr> trace := trace w @ sent 0 @ [Delay RETRY_DELAY] @ sent 1 @
                                  [Delay RETRY_DELAY] @ sent 2 \<rparr>)) \<and>
   (\<exists>new. trace (snd (uploadChunk E f d i t w)) = trace w @ new \<and>
      length (fetches_of new) \<le> min (failed_attempts (attempt_fails E f d i) + 1) 3 \<and>
      delays_of new =
        map (\<lambda>k. 1000 * k) [1..<Suc (min (failed_attempts (attempt_fails E f d i)) 2)] \<and>
      sorted_wrt (<) (delays_of new)) \<and>
   (fst (uploadChunk E f d i t w) = Inl (ChunkFailed (i + 1))) =
     (failed_attempts (attempt_fails E f d i) = 3) \<and>
   (\<exists>new. trace (snd (uploadChunkToGitHub E p d i t w)) = trace w @ new \<and>
      length (fetches_of new) \<le> min (failed_attempts (attempt_fails_part000 E p d i) + 1) 3 \<and>
      delays_of new =
        replicate (min (failed_attempts (attempt_fails_part000 E p d i)) 2) RETRY_DELAY) \<and>
   (\<exists>e. fst (uploadChunkToGitHub E p d i t w) = Inl e) =
     (failed_attempts (attempt_fails_part000 E p d i) = 3) \<and>
   RETRY_DELAY = 2000 \<and> RETRY_ATTEMPTS = 3"
proof (intro conjI)
  show "uploadChunk E f d i t w =
     (let req = Fetch (PUT (ChunkFile f (i + 1)) (ChunkBody d) None);
          sent = (\<lambda>a. if blobToBase64_ok E i a then [req] else [])
      in if \<not> attempt_fails E f d i 0
         then (Inr (), w\<lparr> trace := trace w @ [req, ChunkLogged (i + 1) t] \<rparr>)
         else if \<not> attempt_fails E f d i 1
         then (Inr (), w\<lparr> trace := trace w @ sent 0 @ [Delay 1000, req, ChunkLogged (i + 1) t] \<rparr>)
         else if \<not> attempt_fails E f d i 2
         then (Inr (), w\<lparr> trace := trace w @ sent 0 @ [Delay 1000] @ sent 1 @
                                  [Delay 2000, req, ChunkLogged (i + 1) t] \<rparr>)
         else (Inl (ChunkFailed (i + 1)),
               w\<lparr> trace := trace w @ sent 0 @ [Delay 1000] @ sent 1 @ [Delay 2000] @ sent 2 \<rparr>))"
    by (rule uploadChunk_eq)
  show "uploadChunkToGitHub E p d i t w =
     (let req = Fetch (PUT p (ChunkBody d) None);
          sent = (\<lambda>a. if blobToBase64_ok E i a then [req] else [])
      in if \<not> attempt_fails_part000 E p d i 0
         then (Inr (), w\<lparr> trace := trace w @ [req, ChunkLogged (i + 1) t] \<rparr>)
         else if \<not> attempt_fails_part000 E p d i 1
         then (Inr (), w\<lparr> trace := trace w @ sent 0 @
                                  [Delay RETRY_DELAY, req, ChunkLogged (i + 1) t] \<rparr>)
         else if \<not> attempt_fails_part000 E p d i 2
         then (Inr (), w\<lparr> trace := trace w @ sent 0 @ [Delay RETRY_DELAY] @ sent 1 @
                                  [Delay RETRY_DELAY, req, ChunkLogged (i + 1) t] \<rparr>)
         else (fst (uploadChunkToGitHub_try E p d i t 2 w),
               w\<lparr> trace := trace w @ sent 0 @ [Delay RETRY_DELAY] @ sent 1 @
                                  [Delay RETRY_DELAY] @ sent 2 \<rparr>))"
    by (simp only: uploadChunkToGitHub_eq RETRY_DELAY_def)
  have upt: "[1..<Suc 0] = []" "[1..<Suc 1] = [1]" "[1..<Suc 2] = [1, 2]"
    by (simp_all add: upt_rec)
  show "\<exists>new. trace (snd (uploadChunk E f d i t w)) = trace w @ new \<and>
      length (fetches_of new) \<le> min (failed_attempts (attempt_fails E f d i) + 1) 3 \<and>
      delays_of new =
        map (\<lambda>k. 1000 * k) [1..<Suc (min (failed_attempts (attempt_fails E f d i)) 2)] \<and>
      sorted_wrt (<) (delays_of new)"
    by (simp add: uploadChunk_eq failed_attempts_def Let_def upt)
  show "(fst (uploadChunk E f d i t w) = Inl (ChunkFailed (i + 1))) =
     (failed_attempts (attempt_fails E f d i) = 3)"
    by (simp add: uploadChunk_eq failed_attempts_def Let_def)
  show "\<exists>new. trace (snd (uploadChunkToGitHub E p d i t w)) = trace w @ new \<and>
      length (fetches_of new) \<le> min (failed_attempts (attempt_fails_part000 E p d i) + 1) 3 \<and>
      delays_of new =
        replicate (min (failed_attempts (attempt_fails_part000 E p d i)) 2) RETRY_DELAY"
    by (simp add: uploadChunkToGitHub_eq failed_attempts_def Let_def RETRY_DELAY_def
        numeral_2_eq_2)
  show "(\<exists>e. fst (uploadChunkToGitHub E p d i t w) = Inl e) =
     (failed_attempts (attempt_fails_part000 E p d i) = 3)"
    by (auto simp: uploadChunkToGitHub_eq failed_attempts_def Let_def uploadChunkToGitHub_try_eq)
  show "RETRY_DELAY = 2000" by (simp add: RETRY_DELAY_def)
  show "RETRY_ATTEMPTS = 3" by (simp add: RETRY_ATTEMPTS_def)
qed

theorem retry_policy_witness:
  "attempt_fails env_failing ''files/a.bin'' [1, 2, 3] 0 0 \<and>
   attempt_fails env_failing ''files/a.bin'' [1, 2, 3] 0 1 \<and>
   attempt_fails env_failing ''files/a.bin'' [1, 2, 3] 0 2 \<and>
   uploadChunk env_failing ''files/a.bin'' [1, 2, 3] 0 1 sample_world =
     (Inl (ChunkFailed 1),
      sample_world\<lparr> trace :=
        [Fetch (PUT (ChunkFile ''files/a.bin'' 1) (ChunkBody [1, 2, 3]) None), Delay 1000,
         Fetch (PUT (ChunkFile ''files/a.bin'' 1) (ChunkBody [1, 2, 3]) None), Delay 2000,
         Fetch (PUT (ChunkFile ''files/a.bin'' 1) (ChunkBody [1, 2, 3]) None)] \<rparr>) \<and>
   failed_attempts (attempt_fails env_failing ''files/a.bin'' [1, 2, 3] 0) = 3 \<and>
   failed_attempts (attempt_fails env_accepting ''files/a.bin'' [1, 2, 3] 0) = 0 \<and>
   uploadChunk env_accepting ''files/a.bin'' [1, 2, 3] 0 1 sample_world =
     (Inr (),
      sample_world\<lparr> trace :=
        [Fetch (PUT (ChunkFile ''files/a.bin'' 1) (ChunkBody [1, 2, 3]) None),
         ChunkLogged 1 1] \<rparr>)"
proof -
  have fails: "attempt_fails env_failing ''files/a.bin'' [1, 2, 3] 0 k" for k
    by (simp add: attempt_fails_def env_failing_def env_conflict_def)
  have works: "\<not> attempt_fails env_accepting ''files/a.bin'' [1, 2, 3] 0 k" for k
    by (simp add: attempt_fails_def env_accepting_def env_conflict_def)
  have read: "blobToBase64_ok env_failing 0 k" for k
    by (simp add: env_failing_def env_conflict_def)
  have a: "uploadChunk env_failing ''files/a.bin'' [1, 2, 3] 0 1 sample_world =
     (Inl (ChunkFailed 1),
      sample_world\<lparr> trace :=
        [Fetch (PUT (ChunkFile ''files/a.bin'' 1) (ChunkBody [1, 2, 3]) None), Delay 1000,
         Fetch (PUT (ChunkFile ''files/a.bin'' 1) (ChunkBody [1, 2, 3]) None), Delay 2000,
         Fetch (PUT (ChunkFile ''files/a.bin'' 1) (ChunkBody [1, 2, 3]) None)] \<rparr>)"
    using retry_policy [of env_failing "''files/a.bin''" "[1, 2, 3]" 0 1 sample_world]
    by (simp add: fails read Let_def sample_world_def)
  have b: "uploadChunk env_accepting ''files/a.bin'' [1, 2, 3] 0 1 sample_world =
     (Inr (),
      sample_world\<lparr> trace :=
        [Fetch (PUT (ChunkFile ''files/a.bin'' 1) (ChunkBody [1, 2, 3]) None),
         ChunkLogged 1 1] \<rparr>)"
    using retry_policy [of env_accepting "''files/a.bin''" "[1, 2, 3]" 0 1 sample_world]
    by (simp add: works Let_def sample_world_def)
  have c: "failed_attempts (attempt_fails env_failing ''files/a.bin'' [1, 2, 3] 0) = 3"
    by (simp add: failed_attempts_def fails)
  have d: "failed_attempts (attempt_fails env_accepting ''files/a.bin'' [1, 2, 3] 0) = 0"
    by (simp add: failed_attempts_def works)
  from a b c d fails show ?thesis by blast
qed


section \<open>The upload loops\<close>

text \<open>
  What the upload of one chunk leaves in the trace, by kind of event.
\<close>

lemma uploadChunk_puts:
  "registry_puts (trace (snd (uploadChunk E f d i t w))) = registry_puts (trace w)"
  by (simp add: uploadChunk_eq Let_def)

lemma uploadChunk_progress:
  "progress_of (trace (snd (uploadChunk E f d i t w))) = progress_of (trace w)"
  by (simp add: uploadChunk_eq Let_def)

lemma uploadChunk_logs:
  "chunk_logs_of (trace (snd (uploadChunk E f d i t w))) =
     chunk_logs_of (trace w) @ (if exhausted E f d i then [] else [i + 1])"
  by (simp add: uploadChunk_eq Let_def exhausted_def)

lemma uploadChunkToGitHub_puts:
  "registry_puts (trace (snd (uploadChunkToGitHub E p d i t w))) = registry_puts (trace w)"
  by (simp add: uploadChunkToGitHub_eq Let_def)

lemma uploadChunkToGitHub_progress:
  "progress_of (trace (snd (uploadChunkToGitHub E p d i t w))) = progress_of (trace w)"
  by (simp add: uploadChunkToGitHub_eq Let_def)

lemma uploadChunkToGitHub_logs:
  "chunk_logs_of (trace (snd (uploadChunkToGitHub E p d i t w))) =
     chunk_logs_of (trace w) @ (if exhausted_part000 E p d i then [] else [i + 1])"
  by (simp add: uploadChunkToGitHub_eq Let_def exhausted_part000_def)

lemma promise_all_snd:
  "snd (promise_all (m # ms) w) = snd (promise_all ms (snd (m w)))"
  by (simp split: prod.splits sum.splits)

lemma promise_all_fst:
  "fst (promise_all (m # ms) w) =
     (case fst (m w) of Inl e \<Rightarrow> Inl e | Inr u \<Rightarrow> fst (promise_all ms (snd (m w))))"
  by (simp split: prod.splits sum.splits)

lemma batch_app:
  "app (snd (promise_all (map (\<lambda>(c, idx). uploadChunk E f c (i + idx) t) ps) w)) = app w"
proof (induction ps arbitrary: w)
  case Nil
  show ?case by simp
next
  case (Cons a ps)
  show ?case
    by (cases a) (simp add: promise_all_snd Cons.IH uploadChunk_app del: promise_all.simps)
qed

lemma batch_puts:
  "registry_puts (trace (snd (promise_all (map (\<lambda>(c, idx). uploadChunk E f c (i + idx) t) ps) w))) =
     registry_puts (trace w)"
proof (induction ps arbitrary: w)
  case Nil
  show ?case by simp
next
  case (Cons a ps)
  show ?case
    by (cases a) (simp add: promise_all_snd Cons.IH uploadChunk_puts del: promise_all.simps)
qed

lemma batch_progress:
  "progress_of (trace (snd (promise_all (map (\<lambda>(c, idx). uploadChunk E f c (i + idx) t) ps) w))) =
     progress_of (trace w)"
proof (induction ps arbitrary: w)
  case Nil
  show ?case by simp
next
  case (Cons a ps)
  show ?case
    by (cases a) (simp add: promise_all_snd Cons.IH uploadChunk_progress del: promise_all.simps)
qed

lemma batch_logs:
  "chunk_logs_of (trace (snd (promise_all (map (\<lambda>(c, idx). uploadChunk E f c (i + idx) t) ps) w))) =
     chunk_logs_of (trace w) @
     map (\<lambda>(c, idx). i + idx + 1) (filter (\<lambda>(c, idx). \<not> exhausted E f c (i + idx)) ps)"
proof (induction ps arbitrary: w)
  case Nil
  show ?case by simp
next
  case (Cons a ps)
  show ?case
    by (cases a) (simp add: promise_all_snd Cons.IH uploadChunk_logs del: promise_all.simps)
qed

lemma batch_fst:
  "(fst (promise_all (map (\<lambda>(c, idx). uploadChunk E f c (i + idx) t) ps) w) = Inr ()) =
     (\<forall>(c, idx) \<in> set ps. \<not> exhausted E f c (i + idx))"
proof (induction ps arbitrary: w)
  case Nil
  show ?case by simp
next
  case (Cons a ps)
  show ?case
    by (cases a) (simp add: promise_all_fst Cons.IH uploadChunk_fst del: promise_all.simps)
qed


lemma batch_length:
  "i < length cs \<Longrightarrow>
   length (array_slice cs i (min (i + PARALLEL_BATCH) (length cs))) =
     min (i + PARALLEL_BATCH) (length cs) - i"
  by (simp add: array_slice_def)

lemma batch_nth:
  "j < min (i + PARALLEL_BATCH) (length cs) - i \<Longrightarrow>
   array_slice cs i (min (i + PARALLEL_BATCH) (length cs)) ! j = cs ! (i + j)"
  by (simp add: array_slice_def)

lemma zip_upt_all:
  "(\<forall>(c, idx) \<in> set (zip xs [0..<length xs]). P c idx) = (\<forall>j < length xs. P (xs ! j) j)"
  by (fastforce simp: set_zip)

lemma batch_all:
  assumes "i < length cs"
  shows "(\<forall>(c, idx) \<in> set (zip (array_slice cs i (min (i + PARALLEL_BATCH) (length cs)))
                            [0..<length (array_slice cs i (min (i + PARALLEL_BATCH) (length cs)))]).
            Q c (i + idx)) =
         (\<forall>k. i \<le> k \<and> k < min (i + PARALLEL_BATCH) (length cs) \<longrightarrow> Q (cs ! k) k)"
proof -
  let ?b = "array_slice cs i (min (i + PARALLEL_BATCH) (length cs))"
  have len: "length ?b = min (i + PARALLEL_BATCH) (length cs) - i"
    using assms by (rule batch_length)
  have "(\<forall>(c, idx) \<in> set (zip ?b [0..<length ?b]). Q c (i + idx)) =
        (\<forall>j < length ?b. Q (?b ! j) (i + j))"
    by (rule zip_upt_all)
  also have "\<dots> = (\<forall>j < min (i + PARALLEL_BATCH) (length cs) - i. Q (cs ! (i + j)) (i + j))"
    using len by (simp add: batch_nth)
  also have "\<dots> = (\<forall>k. i \<le> k \<and> k < min (i + PARALLEL_BATCH) (length cs) \<longrightarrow> Q (cs ! k) k)"
  proof (intro iffI allI impI)
    fix k
    assume a: "\<forall>j < min (i + PARALLEL_BATCH) (length cs) - i. Q (cs ! (i + j)) (i + j)"
      and k: "i \<le> k \<and> k < min (i + PARALLEL_BATCH) (length cs)"
    then have "k - i < min (i + PARALLEL_BATCH) (length cs) - i" by linarith
    with a have "Q (cs ! (i + (k - i))) (i + (k - i))" by blast
    with k show "Q (cs ! k) k" by simp
  next
    fix j
    assume a: "\<forall>k. i \<le> k \<and> k < min (i + PARALLEL_BATCH) (length cs) \<longrightarrow> Q (cs ! k) k"
      and j: "j < min (i + PARALLEL_BATCH) (length cs) - i"
    then have "i \<le> i + j \<and> i + j < min (i + PARALLEL_BATCH) (length cs)" by linarith
    with a show "Q (cs ! (i + j)) (i + j)" by blast
  qed
  finally show ?thesis .
qed

lemma uploadChunksParallel_from_done:
  "\<not> i < length cs \<Longrightarrow> uploadChunksParallel_from E cs f i w = (Inr (), w)"
  by (subst uploadChunksParallel_from.simps) simp

lemma uploadChunksParallel_from_step:
  "i < length cs \<Longrightarrow>
   uploadChunksParallel_from E cs f i w =
     (case promise_all
             (map (\<lambda>(c, idx). uploadChunk E f c (i + idx) (length cs))
                (zip (array_slice cs i (min (i + PARALLEL_BATCH) (length cs)))
                   [0..<length (array_slice cs i (min (i + PARALLEL_BATCH) (length cs)))])) w of
        (Inl e, w') \<Rightarrow> (Inl e, w')
      | (Inr u, w') \<Rightarrow>
          uploadChunksParallel_from E cs f (i + PARALLEL_BATCH)
            (add_event
               (UpdateProgress
                  (of_nat (i + length (array_slice cs i (min (i + PARALLEL_BATCH) (length cs)))) /
                   of_nat (length cs) * 100)) w'))"
  by (subst uploadChunksParallel_from.simps) (simp add: Let_def)

lemma parallel_app: "app (snd (uploadChunksParallel_from E cs f i w)) = app w"
proof (induction "length cs - i" arbitrary: i w rule: less_induct)
  case less
  show ?case
  proof (cases "i < length cs")
    case False
    then show ?thesis by (simp add: uploadChunksParallel_from_done)
  next
    case True
    then have smaller: "length cs - (i + PARALLEL_BATCH) < length cs - i"
      by (simp add: PARALLEL_BATCH_def)
    let ?B = "promise_all
             (map (\<lambda>(c, idx). uploadChunk E f c (i + idx) (length cs))
                (zip (array_slice cs i (min (i + PARALLEL_BATCH) (length cs)))
                   [0..<length (array_slice cs i (min (i + PARALLEL_BATCH) (length cs)))])) w"
    obtain r w' where eq: "?B = (r, w')" by (cases ?B)
    have "app (snd ?B) = app w" by (rule batch_app)
    with eq have B: "app w' = app w" by simp
    show ?thesis
      using B less [OF smaller]
      by (cases r) (simp_all add: uploadChunksParallel_from_step [OF True] eq add_event_def)
  qed
qed


lemma batches_step:
  fixes n i :: nat
  assumes "i < n"
  shows "Suc ((n - (i + 5) + 4) div 5) = (n - i + 4) div 5"
proof (cases "i + 5 \<le> n")
  case True
  then have "n - i + 4 = (n - (i + 5) + 4) + 5" by simp
  then show ?thesis by (simp only: div_add_self2)
next
  case False
  then have a: "(n - (i + 5) + 4) div 5 = 0" by simp
  have "5 \<le> n - i + 4" and "n - i + 4 < 10" using assms False by simp_all
  then have "(n - i + 4) div 5 = 1" by simp
  with a show ?thesis by simp
qed

lemma parallel_inv:
  "registry_puts (trace (snd (uploadChunksParallel_from E cs f i w))) = registry_puts (trace w) \<and>
   ((fst (uploadChunksParallel_from E cs f i w) = Inr ()) =
      (\<forall>k. i \<le> k \<and> k < length cs \<longrightarrow> \<not> exhausted E f (cs ! k) k)) \<and>
   length (progress_of (trace (snd (uploadChunksParallel_from E cs f i w)))) \<le>
     length (progress_of (trace w)) + (length cs - i + 4) div 5 \<and>
   (fst (uploadChunksParallel_from E cs f i w) = Inr () \<longrightarrow>
      length (progress_of (trace (snd (uploadChunksParallel_from E cs f i w)))) =
        length (progress_of (trace w)) + (length cs - i + 4) div 5 \<and>
      length (chunk_logs_of (trace (snd (uploadChunksParallel_from E cs f i w)))) =
        length (chunk_logs_of (trace w)) + (length cs - i))"
proof (induction "length cs - i" arbitrary: i w rule: less_induct)
  case less
  show ?case
  proof (cases "i < length cs")
    case False
    then have "\<forall>k. i \<le> k \<and> k < length cs \<longrightarrow> \<not> exhausted E f (cs ! k) k" by auto
    with False show ?thesis by (simp add: uploadChunksParallel_from_done)
  next
    case True
    then have smaller: "length cs - (i + PARALLEL_BATCH) < length cs - i"
      by (simp add: PARALLEL_BATCH_def)
    let ?ps = "zip (array_slice cs i (min (i + PARALLEL_BATCH) (length cs)))
                   [0..<length (array_slice cs i (min (i + PARALLEL_BATCH) (length cs)))]"
    let ?B = "promise_all (map (\<lambda>(c, idx). uploadChunk E f c (i + idx) (length cs)) ?ps) w"
    obtain r w' where eq: "?B = (r, w')" by (cases ?B)
    have puts: "registry_puts (trace w') = registry_puts (trace w)"
      using batch_puts [of E f i "length cs" ?ps w] eq by simp
    have prog: "progress_of (trace w') = progress_of (trace w)"
      using batch_progress [of E f i "length cs" ?ps w] eq by simp
    have logs: "chunk_logs_of (trace w') =
        chunk_logs_of (trace w) @
        map (\<lambda>(c, idx). i + idx + 1) (filter (\<lambda>(c, idx). \<not> exhausted E f c (i + idx)) ?ps)"
      using batch_logs [of E f i "length cs" ?ps w] eq by simp
    have "(r = Inr ()) = (\<forall>(c, idx) \<in> set ?ps. \<not> exhausted E f c (i + idx))"
      using batch_fst [of E f i "length cs" ?ps w] eq by simp
    also have "\<dots> = (\<forall>k. i \<le> k \<and> k < min (i + PARALLEL_BATCH) (length cs) \<longrightarrow>
                        \<not> exhausted E f (cs ! k) k)"
      by (rule batch_all [OF True])
    finally have res: "(r = Inr ()) =
        (\<forall>k. i \<le> k \<and> k < min (i + PARALLEL_BATCH) (length cs) \<longrightarrow> \<not> exhausted E f (cs ! k) k)" .
    show ?thesis
    proof (cases r)
      case (Inl e)
      then have run: "uploadChunksParallel_from E cs f i w = (Inl e, w')"
        by (simp add: uploadChunksParallel_from_step [OF True] eq)
      from Inl res obtain k where "i \<le> k" "k < length cs" "exhausted E f (cs ! k) k"
        by auto
      then have "\<not> (\<forall>k. i \<le> k \<and> k < length cs \<longrightarrow> \<not> exhausted E f (cs ! k) k)" by blast
      then show ?thesis using run puts prog by simp
    next
      case (Inr u)
      let ?w'' = "add_event
               (UpdateProgress
                  (of_nat (i + length (array_slice cs i (min (i + PARALLEL_BATCH) (length cs)))) /
                   of_nat (length cs) * 100)) w'"
      have run: "uploadChunksParallel_from E cs f i w =
          uploadChunksParallel_from E cs f (i + PARALLEL_BATCH) ?w''"
        using Inr by (simp add: uploadChunksParallel_from_step [OF True] eq)
      note IH = less [OF smaller, of ?w'']
      have batch_ok: "\<forall>k. i \<le> k \<and> k < min (i + PARALLEL_BATCH) (length cs) \<longrightarrow>
          \<not> exhausted E f (cs ! k) k"
        using Inr res by simp
      have all_iff: "(\<forall>k. i \<le> k \<and> k < length cs \<longrightarrow> \<not> exhausted E f (cs ! k) k) =
          (\<forall>k. i + PARALLEL_BATCH \<le> k \<and> k < length cs \<longrightarrow> \<not> exhausted E f (cs ! k) k)"
      proof (intro iffI allI impI)
        fix k
        assume "\<forall>k. i \<le> k \<and> k < length cs \<longrightarrow> \<not> exhausted E f (cs ! k) k"
          and "i + PARALLEL_BATCH \<le> k \<and> k < length cs"
        then show "\<not> exhausted E f (cs ! k) k" by simp
      next
        fix k
        assume rest: "\<forall>k. i + PARALLEL_BATCH \<le> k \<and> k < length cs \<longrightarrow> \<not> exhausted E f (cs ! k) k"
          and k: "i \<le> k \<and> k < length cs"
        show "\<not> exhausted E f (cs ! k) k"
        proof (cases "k < i + PARALLEL_BATCH")
          case True
          with k have "i \<le> k \<and> k < min (i + PARALLEL_BATCH) (length cs)" by simp
          with batch_ok show ?thesis by blast
        next
          case False
          with k rest show ?thesis by simp
        qed
      qed
      have filt: "filter (\<lambda>(c, idx). \<not> exhausted E f c (i + idx)) ?ps = ?ps"
        using batch_ok batch_all [OF True, of "\<lambda>c k. \<not> exhausted E f c k"]
        by (intro filter_True) auto
      have logs': "length (chunk_logs_of (trace ?w'')) =
          length (chunk_logs_of (trace w)) + (min (i + PARALLEL_BATCH) (length cs) - i)"
        using logs filt batch_length [OF True] by (simp add: add_event_def)
      have prog': "length (progress_of (trace ?w'')) = Suc (length (progress_of (trace w)))"
        using prog by (simp add: add_event_def)
      have puts': "registry_puts (trace ?w'') = registry_puts (trace w)"
        using puts by (simp add: add_event_def)
      have count: "Suc ((length cs - (i + PARALLEL_BATCH) + 4) div 5) = (length cs - i + 4) div 5"
        using batches_step [OF True] by (simp add: PARALLEL_BATCH_def)
      have total: "min (i + PARALLEL_BATCH) (length cs) - i + (length cs - (i + PARALLEL_BATCH)) =
          length cs - i"
        using True by (simp add: PARALLEL_BATCH_def)
      let ?R = "uploadChunksParallel_from E cs f (i + PARALLEL_BATCH) ?w''"
      from IH have c1: "registry_puts (trace (snd ?R)) = registry_puts (trace w)"
        by (simp only: puts')
      from IH have c2: "(fst ?R = Inr ()) =
          (\<forall>k. i \<le> k \<and> k < length cs \<longrightarrow> \<not> exhausted E f (cs ! k) k)"
        by (simp only: all_iff)
      from IH have "length (progress_of (trace (snd ?R))) \<le>
          length (progress_of (trace ?w'')) + (length cs - (i + PARALLEL_BATCH) + 4) div 5"
        by blast
      then have c3: "length (progress_of (trace (snd ?R))) \<le>
          length (progress_of (trace w)) + (length cs - i + 4) div 5"
        using prog' count by linarith
      have c4: "fst ?R = Inr () \<longrightarrow>
          length (progress_of (trace (snd ?R))) =
            length (progress_of (trace w)) + (length cs - i + 4) div 5 \<and>
          length (chunk_logs_of (trace (snd ?R))) =
            length (chunk_logs_of (trace w)) + (length cs - i)"
      proof
        assume ok: "fst ?R = Inr ()"
        with IH have p: "length (progress_of (trace (snd ?R))) =
            length (progress_of (trace ?w'')) + (length cs - (i + PARALLEL_BATCH) + 4) div 5"
          and l: "length (chunk_logs_of (trace (snd ?R))) =
            length (chunk_logs_of (trace ?w'')) + (length cs - (i + PARALLEL_BATCH))"
          by blast+
        from p prog' count have "length (progress_of (trace (snd ?R))) =
            length (progress_of (trace w)) + (length cs - i + 4) div 5"
          by linarith
        moreover from l logs' total have "length (chunk_logs_of (trace (snd ?R))) =
            length (chunk_logs_of (trace w)) + (length cs - i)"
          by linarith
        ultimately show "length (progress_of (trace (snd ?R))) =
            length (progress_of (trace w)) + (length cs - i + 4) div 5 \<and>
          length (chunk_logs_of (trace (snd ?R))) =
            length (chunk_logs_of (trace w)) + (length cs - i)"
          by blast
      qed
      show ?thesis
        unfolding run using c1 c2 c3 c4 by blast
    qed
  qed
qed


lemma uploadChunks_from_done:
  "\<not> i < length cs \<Longrightarrow> uploadChunks_from E cs nm i w = (Inr (), w)"
  by (subst uploadChunks_from.simps) simp

lemma uploadChunks_from_step:
  "i < length cs \<Longrightarrow>
   uploadChunks_from E cs nm i w =
     (case uploadChunkToGitHub E (ChunkFile nm (i + 1)) (cs ! i) i (length cs) w of
        (Inl e, w') \<Rightarrow> (Inl e, w')
      | (Inr u, w') \<Rightarrow>
          uploadChunks_from E cs nm (i + 1)
            (add_event (UpdateProgress (of_nat (i + 1) / of_nat (length cs) * 100)) w'))"
  by (subst uploadChunks_from.simps) (simp add: Let_def)

lemma sequential_inv:
  "app (snd (uploadChunks_from E cs nm i w)) = app w \<and>
   registry_puts (trace (snd (uploadChunks_from E cs nm i w))) = registry_puts (trace w) \<and>
   ((fst (uploadChunks_from E cs nm i w) = Inr ()) =
      (\<forall>k. i \<le> k \<and> k < length cs \<longrightarrow>
         \<not> exhausted_part000 E (ChunkFile nm (k + 1)) (cs ! k) k)) \<and>
   length (progress_of (trace (snd (uploadChunks_from E cs nm i w)))) +
     length (chunk_logs_of (trace w)) =
   length (chunk_logs_of (trace (snd (uploadChunks_from E cs nm i w)))) +
     length (progress_of (trace w)) \<and>
   (fst (uploadChunks_from E cs nm i w) = Inr () \<longrightarrow>
      length (chunk_logs_of (trace (snd (uploadChunks_from E cs nm i w)))) =
        length (chunk_logs_of (trace w)) + (length cs - i))"
proof (induction "length cs - i" arbitrary: i w rule: less_induct)
  case less
  show ?case
  proof (cases "i < length cs")
    case False
    then have "\<forall>k. i \<le> k \<and> k < length cs \<longrightarrow>
        \<not> exhausted_part000 E (ChunkFile nm (k + 1)) (cs ! k) k" by auto
    with False show ?thesis by (simp add: uploadChunks_from_done)
  next
    case True
    then have smaller: "length cs - (i + 1) < length cs - i" by simp
    let ?U = "uploadChunkToGitHub E (ChunkFile nm (i + 1)) (cs ! i) i (length cs) w"
    obtain r w' where eq: "?U = (r, w')" by (cases ?U)
    have app': "app w' = app w"
      using uploadChunkToGitHub_app [of E "ChunkFile nm (i + 1)" "cs ! i" i "length cs" w] eq
      by simp
    have puts: "registry_puts (trace w') = registry_puts (trace w)"
      using uploadChunkToGitHub_puts [of E "ChunkFile nm (i + 1)" "cs ! i" i "length cs" w] eq
      by simp
    have prog: "progress_of (trace w') = progress_of (trace w)"
      using uploadChunkToGitHub_progress [of E "ChunkFile nm (i + 1)" "cs ! i" i "length cs" w] eq
      by simp
    have logs: "chunk_logs_of (trace w') =
        chunk_logs_of (trace w) @
        (if exhausted_part000 E (ChunkFile nm (i + 1)) (cs ! i) i then [] else [i + 1])"
      using uploadChunkToGitHub_logs [of E "ChunkFile nm (i + 1)" "cs ! i" i "length cs" w] eq
      by simp
    have res: "(\<exists>e. r = Inl e) = exhausted_part000 E (ChunkFile nm (i + 1)) (cs ! i) i"
      using uploadChunkToGitHub_fst(1) [of E "ChunkFile nm (i + 1)" "cs ! i" i "length cs" w] eq
      by simp
    show ?thesis
    proof (cases r)
      case (Inl e)
      then have run: "uploadChunks_from E cs nm i w = (Inl e, w')"
        by (simp only: uploadChunks_from_step [OF True] eq prod.case sum.case)
      from Inl res have ex: "exhausted_part000 E (ChunkFile nm (i + 1)) (cs ! i) i" by blast
      with True have "\<not> (\<forall>k. i \<le> k \<and> k < length cs \<longrightarrow>
          \<not> exhausted_part000 E (ChunkFile nm (k + 1)) (cs ! k) k)"
        by (intro notI) (drule spec [of _ i], simp)
      then show ?thesis using run app' puts prog logs ex by simp
    next
      case (Inr u)
      with res have ok: "\<not> exhausted_part000 E (ChunkFile nm (i + 1)) (cs ! i) i" by auto
      let ?w'' = "add_event (UpdateProgress (of_nat (i + 1) / of_nat (length cs) * 100)) w'"
      let ?R = "uploadChunks_from E cs nm (i + 1) ?w''"
      have run: "uploadChunks_from E cs nm i w = ?R"
        using Inr by (simp only: uploadChunks_from_step [OF True] eq prod.case sum.case)
      note IH = less [OF smaller, of ?w'']
      have app'': "app ?w'' = app w" using app' by (simp add: add_event_def)
      have puts': "registry_puts (trace ?w'') = registry_puts (trace w)"
        using puts by (simp add: add_event_def)
      have prog': "length (progress_of (trace ?w'')) = Suc (length (progress_of (trace w)))"
        using prog by (simp add: add_event_def)
      have logs': "length (chunk_logs_of (trace ?w'')) = Suc (length (chunk_logs_of (trace w)))"
        using logs ok by (simp add: add_event_def)
      have all_iff: "(\<forall>k. i \<le> k \<and> k < length cs \<longrightarrow>
            \<not> exhausted_part000 E (ChunkFile nm (k + 1)) (cs ! k) k) =
          (\<forall>k. i + 1 \<le> k \<and> k < length cs \<longrightarrow>
            \<not> exhausted_part000 E (ChunkFile nm (k + 1)) (cs ! k) k)"
      proof (intro iffI allI impI)
        fix k
        assume "\<forall>k. i \<le> k \<and> k < length cs \<longrightarrow>
            \<not> exhausted_part000 E (ChunkFile nm (k + 1)) (cs ! k) k"
          and "i + 1 \<le> k \<and> k < length cs"
        then show "\<not> exhausted_part000 E (ChunkFile nm (k + 1)) (cs ! k) k" by simp
      next
        fix k
        assume rest: "\<forall>k. i + 1 \<le> k \<and> k < length cs \<longrightarrow>
            \<not> exhausted_part000 E (ChunkFile nm (k + 1)) (cs ! k) k"
          and k: "i \<le> k \<and> k < length cs"
        show "\<not> exhausted_part000 E (ChunkFile nm (k + 1)) (cs ! k) k"
        proof (cases "k = i")
          case True
          with ok show ?thesis by simp
        next
          case False
          with k rest show ?thesis by simp
        qed
      qed
      from IH have c0: "app (snd ?R) = app w" by (simp only: app'')
      from IH have c1: "registry_puts (trace (snd ?R)) = registry_puts (trace w)"
        by (simp only: puts')
      from IH have c2: "(fst ?R = Inr ()) =
          (\<forall>k. i \<le> k \<and> k < length cs \<longrightarrow>
            \<not> exhausted_part000 E (ChunkFile nm (k + 1)) (cs ! k) k)"
        by (simp only: all_iff)
      from IH have "length (progress_of (trace (snd ?R))) + length (chunk_logs_of (trace ?w'')) =
          length (chunk_logs_of (trace (snd ?R))) + length (progress_of (trace ?w''))"
        by blast
      then have c3: "length (progress_of (trace (snd ?R))) + length (chunk_logs_of (trace w)) =
          length (chunk_logs_of (trace (snd ?R))) + length (progress_of (trace w))"
        using prog' logs' by linarith
      have c4: "fst ?R = Inr () \<longrightarrow>
          length (chunk_logs_of (trace (snd ?R))) =
            length (chunk_logs_of (trace w)) + (length cs - i)"
      proof
        assume "fst ?R = Inr ()"
        with IH have "length (chunk_logs_of (trace (snd ?R))) =
            length (chunk_logs_of (trace ?w'')) + (length cs - (i + 1))"
          by blast
        with logs' True show "length (chunk_logs_of (trace (snd ?R))) =
            length (chunk_logs_of (trace w)) + (length cs - i)"
          by linarith
      qed
      show ?thesis
        unfolding run using c0 c1 c2 c3 c4 by blast
    qed
  qed
qed


section \<open>Progress is reported per chunk or per batch\<close>

text \<open>
  Claim C8, as stated, fails. \<open>uploadChunksParallel\<close> over two chunks that both succeed
  logs two completed chunks and reports progress once, after the batch: at the end of the
  transfer there are fewer progress reports than completed chunks. (The counts do not
  depend on the order in which the members of the batch complete.)
\<close>

theorem progress_counterexample:
  "fst (uploadChunksParallel env_accepting [[1], [2]] ''files/a.bin'' sample_world) = Inr () \<and>
   chunk_logs_of (trace (snd (uploadChunksParallel env_accepting [[1], [2]] ''files/a.bin''
                                sample_world))) = [1, 2] \<and>
   progress_of (trace (snd (uploadChunksParallel env_accepting [[1], [2]] ''files/a.bin''
                              sample_world))) = [100]"
proof -
  have ok: "\<And>d i a. \<not> attempt_fails env_accepting ''files/a.bin'' d i a"
    by (simp add: attempt_fails_def env_accepting_def env_conflict_def)
  have run: "uploadChunksParallel env_accepting [[1], [2]] ''files/a.bin'' sample_world =
      (Inr (),
       sample_world\<lparr> trace :=
         [Fetch (PUT (ChunkFile ''files/a.bin'' 1) (ChunkBody [1]) None), ChunkLogged 1 2,
          Fetch (PUT (ChunkFile ''files/a.bin'' 2) (ChunkBody [2]) None), ChunkLogged 2 2,
          UpdateProgress 100] \<rparr>)"
    unfolding uploadChunksParallel_def
    by (subst uploadChunksParallel_from.simps)
       (simp add: Let_def array_slice_def PARALLEL_BATCH_def upt_rec uploadChunk_eq ok
          sample_world_def add_event_def uploadChunksParallel_from_done)
  show ?thesis
    unfolding run by simp
qed


text \<open>
  Claim C8, amended. The sequential transfer (\<open>uploadChunks\<close>) reports progress after each
  completed chunk: in every run, also one that stops at a failed chunk, it adds as many
  progress reports as completed chunks. The batched transfer (\<open>uploadChunksParallel\<close>)
  reports progress at batch boundaries only: at most one report per batch of
  \<open>PARALLEL_BATCH\<close> = 5 chunks, and in a run that succeeds exactly one per batch, while
  every chunk is logged on its own.
\<close>

theorem progress_granularity:
  "length (progress_of (trace (snd (uploadChunks E cs nm w)))) + length (chunk_logs_of (trace w)) =
     length (chunk_logs_of (trace (snd (uploadChunks E cs nm w)))) + length (progress_of (trace w)) \<and>
   (fst (uploadChunks E cs nm w) = Inr () \<longrightarrow>
      length (chunk_logs_of (trace (snd (uploadChunks E cs nm w)))) =
        length (chunk_logs_of (trace w)) + length cs) \<and>
   length (progress_of (trace (snd (uploadChunksParallel E cs f w)))) \<le>
     length (progress_of (trace w)) + (length cs + PARALLEL_BATCH - 1) div PARALLEL_BATCH \<and>
   (fst (uploadChunksParallel E cs f w) = Inr () \<longrightarrow>
      length (progress_of (trace (snd (uploadChunksParallel E cs f w)))) =
        length (progress_of (trace w)) + (length cs + PARALLEL_BATCH - 1) div PARALLEL_BATCH \<and>
      length (chunk_logs_of (trace (snd (uploadChunksParallel E cs f w)))) =
        length (chunk_logs_of (trace w)) + length cs)"
proof -
  have seq: "length (progress_of (trace (snd (uploadChunks E cs nm w)))) +
        length (chunk_logs_of (trace w)) =
      length (chunk_logs_of (trace (snd (uploadChunks E cs nm w)))) +
        length (progress_of (trace w)) \<and>
      (fst (uploadChunks E cs nm w) = Inr () \<longrightarrow>
        length (chunk_logs_of (trace (snd (uploadChunks E cs nm w)))) =
          length (chunk_logs_of (trace w)) + length cs)"
    using sequential_inv [of E cs nm 0 w] by (simp add: uploadChunks_def)
  have batches: "(length cs + PARALLEL_BATCH - 1) div PARALLEL_BATCH = (length cs - 0 + 4) div 5"
    by (simp add: PARALLEL_BATCH_def)
  have par: "length (progress_of (trace (snd (uploadChunksParallel E cs f w)))) \<le>
        length (progress_of (trace w)) + (length cs + PARALLEL_BATCH - 1) div PARALLEL_BATCH \<and>
      (fst (uploadChunksParallel E cs f w) = Inr () \<longrightarrow>
        length (progress_of (trace (snd (uploadChunksParallel E cs f w)))) =
          length (progress_of (trace w)) + (length cs + PARALLEL_BATCH - 1) div PARALLEL_BATCH \<and>
        length (chunk_logs_of (trace (snd (uploadChunksParallel E cs f w)))) =
          length (chunk_logs_of (trace w)) + length cs)"
    unfolding batches uploadChunksParallel_def
    using parallel_inv [of E cs f 0 w] by simp
  from seq par show ?thesis by blast
qed

theorem progress_granularity_witness:
  "fst (uploadChunksParallel env_accepting [[1], [2]] ''files/a.bin'' sample_world) = Inr () \<and>
   length (progress_of (trace (snd (uploadChunksParallel env_accepting [[1], [2]] ''files/a.bin''
                                      sample_world)))) = 1 \<and>
   length (chunk_logs_of (trace (snd (uploadChunksParallel env_accepting [[1], [2]] ''files/a.bin''
                                        sample_world)))) = 2"
proof -
  have "\<And>k. \<not> exhausted env_accepting ''files/a.bin'' ([[1], [2]] ! k) k"
    by (simp add: exhausted_def attempt_fails_def env_accepting_def env_conflict_def)
  then have ok: "fst (uploadChunksParallel env_accepting [[1], [2]] ''files/a.bin'' sample_world) =
      Inr ()"
    using parallel_inv [of env_accepting "[[1], [2]]" "''files/a.bin''" 0 sample_world]
    by (simp add: uploadChunksParallel_def)
  with progress_granularity [of env_accepting "[[1], [2]]" nm sample_world "''files/a.bin''"]
  show ?thesis
    by (simp add: sample_world_def PARALLEL_BATCH_def)
qed

section \<open>A chunk that fails three times aborts the upload\<close>

text \<open>
  A result that is not the normal one is an error.
\<close>

lemma not_Inr_unit: "(r :: error + unit) \<noteq> Inr () \<Longrightarrow> \<exists>e. r = Inl e"
  by (cases r) auto

lemma set_isUploading_simps [simp]:
  "dataJson (app (set_isUploading b w)) = dataJson (app w)"
  "trace (set_isUploading b w) = trace w"
  "isUploading (app (set_isUploading b w)) = b"
  by (simp_all add: set_isUploading_def)

text \<open>
  Claim C3. When some chunk of the file fails all three attempts, the chunk transfer
  rejects (\<open>uploadChunksParallel\<close> in \<open>script.js\<close>, \<open>uploadChunks\<close> in the second file), and
  \<open>startUpload\<close>, which catches the error and shows it, ends with the registry in memory as
  it was and without any write of the registry: no entry is appended for the file.
\<close>

theorem exhausted_chunk_aborts_upload:
  "(selectedFile (app w) = Some file \<and> \<not> isUploading (app w) \<and> validateSettings (app w) \<and>
    compressFile E file = Inr compressed \<and> createChunks CHUNK_SIZE compressed = Some cs \<and>
    k < length cs \<and> exhausted E (fileFolder_of (file_name file)) (cs ! k) k \<longrightarrow>
      (\<exists>e. fst (uploadChunksParallel E cs (fileFolder_of (file_name file)) w) = Inl e) \<and>
      (\<exists>e w'. startUpload E w = Some (Inr (), w') \<and>
         dataJson (app w') = dataJson (app w) \<and>
         registry_puts (trace w') = registry_puts (trace w) \<and>
         last (trace w') = ShowStatus (StatusError (Some e)) \<and>
         \<not> isUploading (app w'))) \<and>
   (selectedFile (app w) = Some file \<and> validateSettings (app w) \<and> compressionLib_loaded E \<and>
    compressFile E file = Inr compressed \<and>
    createChunks CHUNK_SIZE_part000 compressed = Some cs \<and>
    k < length cs \<and> exhausted_part000 E (ChunkFile (file_name file) (k + 1)) (cs ! k) k \<longrightarrow>
      (\<exists>e. fst (uploadChunks E cs (file_name file) w) = Inl e) \<and>
      (\<exists>e w'. startUpload_part000 E w = Some (Inr (), w') \<and>
         dataJson (app w') = dataJson (app w) \<and>
         registry_puts (trace w') = registry_puts (trace w) \<and>
         last (trace w') = ShowStatus (StatusError (Some e)) \<and>
         \<not> isUploading (app w')))"
proof (intro conjI impI)
  assume a: "selectedFile (app w) = Some file \<and> \<not> isUploading (app w) \<and>
    validateSettings (app w) \<and>
    compressFile E file = Inr compressed \<and> createChunks CHUNK_SIZE compressed = Some cs \<and>
    k < length cs \<and> exhausted E (fileFolder_of (file_name file)) (cs ! k) k"
  let ?f = "fileFolder_of (file_name file)"
  have fails: "\<not> (\<forall>j. 0 \<le> j \<and> j < length cs \<longrightarrow> \<not> exhausted E ?f (cs ! j) j)"
    using a by blast
  show "\<exists>e. fst (uploadChunksParallel E cs ?f w) = Inl e"
    using parallel_inv [of E cs ?f 0 w] fails
    by (intro not_Inr_unit) (simp add: uploadChunksParallel_def)
  let ?w1 = "set_isUploading True w"
  let ?U = "uploadChunksParallel E cs ?f ?w1"
  have "fst ?U \<noteq> Inr ()"
    using parallel_inv [of E cs ?f 0 ?w1] fails by (simp add: uploadChunksParallel_def)
  then obtain e where e: "fst ?U = Inl e" using not_Inr_unit by blast
  obtain wB where U: "?U = (Inl e, wB)" using e by (cases ?U) auto
  have appB: "app wB = app ?w1"
    using parallel_app [of E cs ?f 0 ?w1] U by (simp add: uploadChunksParallel_def)
  have putsB: "registry_puts (trace wB) = registry_puts (trace w)"
    using parallel_inv [of E cs ?f 0 ?w1] U by (simp add: uploadChunksParallel_def)
  have body: "startUpload_body E file compressed cs ?w1 = (Inl e, wB)"
    by (simp add: startUpload_body_def bind_def U)
  have run: "startUpload E w =
      Some (Inr (), set_isUploading False (add_event (ShowStatus (StatusError (Some e))) wB))"
    using a by (simp add: startUpload_def Let_def catch_def body handle_failure_def emit_def)
  show "\<exists>e w'. startUpload E w = Some (Inr (), w') \<and>
         dataJson (app w') = dataJson (app w) \<and>
         registry_puts (trace w') = registry_puts (trace w) \<and>
         last (trace w') = ShowStatus (StatusError (Some e)) \<and>
         \<not> isUploading (app w')"
    unfolding run using appB putsB
    by (intro exI [of _ e] exI [of _ "set_isUploading False
          (add_event (ShowStatus (StatusError (Some e))) wB)"])
       (simp add: add_event_def registry_puts_def)
next
  assume a: "selectedFile (app w) = Some file \<and> validateSettings (app w) \<and>
    compressionLib_loaded E \<and> compressFile E file = Inr compressed \<and>
    createChunks CHUNK_SIZE_part000 compressed = Some cs \<and>
    k < length cs \<and> exhausted_part000 E (ChunkFile (file_name file) (k + 1)) (cs ! k) k"
  let ?nm = "file_name file"
  have fails: "\<not> (\<forall>j. 0 \<le> j \<and> j < length cs \<longrightarrow>
      \<not> exhausted_part000 E (ChunkFile ?nm (j + 1)) (cs ! j) j)"
    using a by blast
  show "\<exists>e. fst (uploadChunks E cs ?nm w) = Inl e"
    using sequential_inv [of E cs ?nm 0 w] fails
    by (intro not_Inr_unit) (simp add: uploadChunks_def)
  let ?w1 = "set_isUploading True w"
  let ?U = "uploadChunks E cs ?nm ?w1"
  have "fst ?U \<noteq> Inr ()"
    using sequential_inv [of E cs ?nm 0 ?w1] fails by (simp add: uploadChunks_def)
  then obtain e where e: "fst ?U = Inl e" using not_Inr_unit by blast
  obtain wB where U: "?U = (Inl e, wB)" using e by (cases ?U) auto
  have appB: "app wB = app ?w1"
    using sequential_inv [of E cs ?nm 0 ?w1] U by (simp add: uploadChunks_def)
  have putsB: "registry_puts (trace wB) = registry_puts (trace w)"
    using sequential_inv [of E cs ?nm 0 ?w1] U by (simp add: uploadChunks_def)
  have body: "startUpload_body_part000 E file compressed cs ?w1 = (Inl e, wB)"
    by (simp add: startUpload_body_part000_def bind_def U)
  have run: "startUpload_part000 E w =
      Some (Inr (), set_isUploading False (add_event (ShowStatus (StatusError (Some e))) wB))"
    using a by (simp add: startUpload_part000_def Let_def catch_def body handle_failure_def emit_def)
  show "\<exists>e w'. startUpload_part000 E w = Some (Inr (), w') \<and>
         dataJson (app w') = dataJson (app w) \<and>
         registry_puts (trace w') = registry_puts (trace w) \<and>
         last (trace w') = ShowStatus (StatusError (Some e)) \<and>
         \<not> isUploading (app w')"
    unfolding run using appB putsB
    by (intro exI [of _ e] exI [of _ "set_isUploading False
          (add_event (ShowStatus (StatusError (Some e))) wB)"])
       (simp add: add_event_def registry_puts_def)
qed


theorem exhausted_chunk_aborts_upload_witness:
  "exhausted env_failing (fileFolder_of ''a.bin'') [31, 139, 8] 0 \<and>
   exhausted_part000 env_failing (ChunkFile ''a.bin'' 1) [31, 139, 8] 0 \<and>
   (\<exists>e w'. startUpload env_failing sample_selected = Some (Inr (), w') \<and>
      dataJson (app w') = dataJson (app sample_selected) \<and>
      registry_puts (trace w') = registry_puts (trace sample_selected) \<and>
      last (trace w') = ShowStatus (StatusError (Some e)) \<and> \<not> isUploading (app w')) \<and>
   (\<exists>e w'. startUpload_part000 env_failing sample_selected = Some (Inr (), w') \<and>
      dataJson (app w') = dataJson (app sample_selected) \<and>
      registry_puts (trace w') = registry_puts (trace sample_selected) \<and>
      last (trace w') = ShowStatus (StatusError (Some e)) \<and> \<not> isUploading (app w'))"
proof -
  let ?file = "\<lparr> file_name = ''a.bin'', file_size = 10 \<rparr>"
  have sel: "selectedFile (app sample_selected) = Some ?file"
    by (simp add: sample_selected_def)
  have idle: "\<not> isUploading (app sample_selected)"
    by (simp add: sample_selected_def sample_app_def)
  have valid: "validateSettings (app sample_selected)"
    by (simp add: sample_selected_def sample_app_def validateSettings_def)
  have lib: "compressionLib_loaded env_failing"
    by (simp add: env_failing_def env_conflict_def)
  have gz: "compressFile env_failing ?file = Inr [31, 139, 8]"
    by (simp add: env_failing_def env_conflict_def)
  have split1: "createChunks CHUNK_SIZE [31, 139, 8] = Some [[31, 139, 8]]"
    by (simp add: createChunks_def createChunks_loop.simps blob_slice_def CHUNK_SIZE_def)
  have split2: "createChunks CHUNK_SIZE_part000 [31, 139, 8] = Some [[31, 139, 8]]"
    by (simp add: createChunks_def createChunks_loop.simps blob_slice_def CHUNK_SIZE_part000_def)
  have ex1: "exhausted env_failing (fileFolder_of ''a.bin'') [31, 139, 8] 0"
    by (simp add: exhausted_def attempt_fails_def env_failing_def env_conflict_def)
  have ex2: "exhausted_part000 env_failing (ChunkFile ''a.bin'' 1) [31, 139, 8] 0"
    by (simp add: exhausted_part000_def attempt_fails_part000_def env_failing_def
        env_conflict_def ok_def)
  from exhausted_chunk_aborts_upload
    [of sample_selected ?file env_failing "[31, 139, 8]" "[[31, 139, 8]]" 0]
  show ?thesis
    using sel idle valid lib gz split1 split2 ex1 ex2 by simp
qed

section \<open>Deleting a name that is not in the registry\<close>

text \<open>
  Requests for deletion and status messages are no writes of the registry, and the
  deletions leave \<open>appState\<close> alone.
\<close>

lemma registry_puts_other [simp]:
  "registry_puts (Fetch (GET p) # xs) = registry_puts xs"
  "registry_puts (Fetch (DELETE p s) # xs) = registry_puts xs"
  "registry_puts (ShowStatus m # xs) = registry_puts xs"
  "registry_puts (LoadUploadedFiles # xs) = registry_puts xs"
  by (simp_all add: registry_puts_def)

lemma deleteGitHubFile_app: "app (snd (deleteGitHubFile E p w)) = app w"
  by (simp add: deleteGitHubFile_def bind_def emit_def add_event_def throw_def return_def
      split: response.splits option.splits)

lemma deleteGitHubFile_puts:
  "registry_puts (trace (snd (deleteGitHubFile E p w))) = registry_puts (trace w)"
  by (simp add: deleteGitHubFile_def bind_def emit_def add_event_def throw_def return_def
      split: response.splits option.splits)

lemma deleteFileFromGitHub_app: "app (snd (deleteFileFromGitHub E p w)) = app w"
  by (simp add: deleteFileFromGitHub_def bind_def emit_def add_event_def throw_def return_def
      split: response.splits option.splits)

lemma deleteChunks_from_part000_app:
  "app (snd (deleteChunks_from_part000 E nm i n w)) = app w"
proof (induction n arbitrary: i w)
  case 0
  show ?case by (simp add: return_def)
next
  case (Suc n)
  obtain r w' where eq: "deleteFileFromGitHub E (ChunkFile nm i) w = (r, w')"
    by (cases "deleteFileFromGitHub E (ChunkFile nm i) w")
  have "app w' = app w"
    using deleteFileFromGitHub_app [of E "ChunkFile nm i" w] eq by simp
  then show ?case
    using Suc.IH [of "i + 1" w'] by (cases r) (simp_all add: bind_def eq)
qed

lemma find_name_None:
  "(find (\<lambda>f. name f = nm) fs = None) = (\<forall>f \<in> set fs. name f \<noteq> nm)"
  by (auto simp: find_None_iff)

text \<open>
  Claim C7, as stated, fails. The registry is empty, so no entry is named \<open>ghost.bin\<close>.
  In the second file \<open>deleteFile\<close> throws \<open>File not found in registry\<close> and shows
  \<open>Delete failed: File not found in registry\<close>; in \<open>script.js\<close> it first asks the store to
  delete the metadata object of the folder, then fails on \<open>entry.chunkCount\<close> and shows
  \<open>Delete failed\<close>. Neither is a silent no-op.
\<close>

theorem delete_missing_counterexample:
  "find (\<lambda>f. name f = ''ghost.bin'') (files (dataJson (app sample_world))) = None \<and>
   deleteFile_part000 env_accepting ''ghost.bin'' sample_world =
     (Inr (), sample_world\<lparr> trace := [ShowStatus (StatusError (Some FileNotFoundInRegistry))] \<rparr>) \<and>
   deleteFile env_accepting ''ghost.bin'' ''files/ghost.bin'' sample_world =
     (Inr (), sample_world\<lparr> trace :=
        [Fetch (GET (MetadataFile ''files/ghost.bin'')),
         Fetch (DELETE (MetadataFile ''files/ghost.bin'') (Some ''s1'')),
         ShowStatus (StatusError None)] \<rparr>)"
  by (simp add: deleteFile_part000_def deleteFile_body_part000_def deleteFile_def
      deleteFile_body_def deleteGitHubFile_def catch_def bind_def throw_def emit_def return_def
      add_event_def env_accepting_def env_conflict_def ok_def sample_world_def sample_app_def
      sample_registry_def)

text \<open>
  Whether the deletions in the store go through, by what the store answers.
\<close>

lemma deleteFileFromGitHub_fst:
  "(fst (deleteFileFromGitHub E p w) = Inr ()) = remote_delete_ok_part000 E p"
  by (simp add: deleteFileFromGitHub_def remote_delete_ok_part000_def bind_def emit_def
      add_event_def throw_def return_def split: response.splits option.splits)

lemma deleteChunks_from_part000_fst:
  "(fst (deleteChunks_from_part000 E nm i n w) = Inr ()) =
     list_all (\<lambda>j. remote_delete_ok_part000 E (ChunkFile nm j)) [i..<i + n]"
proof (induction n arbitrary: i w)
  case 0
  show ?case by (simp add: return_def)
next
  case (Suc n)
  obtain r w' where eq: "deleteFileFromGitHub E (ChunkFile nm i) w = (r, w')"
    by (cases "deleteFileFromGitHub E (ChunkFile nm i) w")
  have r: "(r = Inr ()) = remote_delete_ok_part000 E (ChunkFile nm i)"
    using deleteFileFromGitHub_fst [of E "ChunkFile nm i" w] eq by simp
  have upt: "[i..<Suc (i + n)] = i # [Suc i..<Suc (i + n)]" by (simp add: upt_conv_Cons)
  show ?case
  proof (cases r)
    case (Inl e)
    with r show ?thesis by (simp add: bind_def eq upt del: upt_Suc)
  next
    case (Inr u)
    with r show ?thesis using Suc.IH [of "Suc i" w'] by (simp add: bind_def eq upt del: upt_Suc)
  qed
qed

lemma deleteGitHubFile_fst:
  "(fst (deleteGitHubFile E p w) = Inr ()) = (\<not> remote_delete_throws E p)"
  by (simp add: deleteGitHubFile_def remote_delete_throws_def bind_def emit_def
      add_event_def throw_def return_def split: response.splits option.splits)

lemma deleteChunks_from_app:
  "app (snd (deleteChunks_from E fp i n w)) = app w"
proof (induction n arbitrary: i w)
  case 0
  show ?case by (simp add: return_def)
next
  case (Suc n)
  obtain r w' where eq: "deleteGitHubFile E (ChunkFile fp i) w = (r, w')"
    by (cases "deleteGitHubFile E (ChunkFile fp i) w")
  have "app w' = app w"
    using deleteGitHubFile_app [of E "ChunkFile fp i" w] eq by simp
  then show ?case
    using Suc.IH [of "i + 1" w'] by (cases r) (simp_all add: bind_def eq)
qed

lemma deleteChunks_from_fst:
  "(fst (deleteChunks_from E fp i n w) = Inr ()) =
     list_all (\<lambda>j. \<not> remote_delete_throws E (ChunkFile fp j)) [i..<i + n]"
proof (induction n arbitrary: i w)
  case 0
  show ?case by (simp add: return_def)
next
  case (Suc n)
  obtain r w' where eq: "deleteGitHubFile E (ChunkFile fp i) w = (r, w')"
    by (cases "deleteGitHubFile E (ChunkFile fp i) w")
  have r: "(r = Inr ()) = (\<not> remote_delete_throws E (ChunkFile fp i))"
    using deleteGitHubFile_fst [of E "ChunkFile fp i" w] eq by simp
  have upt: "[i..<Suc (i + n)] = i # [Suc i..<Suc (i + n)]" by (simp add: upt_conv_Cons)
  show ?case
  proof (cases r)
    case (Inl e)
    with r show ?thesis by (simp add: bind_def eq upt del: upt_Suc)
  next
    case (Inr u)
    with r show ?thesis using Suc.IH [of "Suc i" w'] by (simp add: bind_def eq upt del: upt_Suc)
  qed
qed

text \<open>
  The registry in memory after \<open>deleteFile\<close> of the second file, for a name that is there.
\<close>

lemma deleteFile_part000_present:
  assumes c: "confirm E"
    and f: "find (\<lambda>f. name f = nm) (files (dataJson (app w))) = Some entry"
  shows "dataJson (app (snd (deleteFile_part000 E nm w))) =
     (if list_all (\<lambda>i. remote_delete_ok_part000 E (ChunkFile nm i)) [1..<Suc (chunkCount entry)] \<and>
         remote_delete_ok_part000 E (MetadataFile nm)
      then (dataJson (app w))\<lparr> files := filter (\<lambda>f. name f \<noteq> nm) (files (dataJson (app w))),
                                lastUpdated := now E \<rparr>
      else dataJson (app w))"
proof -
  let ?C = "deleteChunks_from_part000 E nm (Suc 0) (chunkCount entry) w"
  obtain r1 w1 where ch: "?C = (r1, w1)" by (cases ?C)
  have app1: "app w1 = app w"
    using deleteChunks_from_part000_app [of E nm "Suc 0" "chunkCount entry" w] ch by simp
  have r1: "(r1 = Inr ()) =
      list_all (\<lambda>i. remote_delete_ok_part000 E (ChunkFile nm i)) [1..<Suc (chunkCount entry)]"
    using deleteChunks_from_part000_fst [of E nm "Suc 0" "chunkCount entry" w] ch by simp
  let ?M = "deleteFileFromGitHub E (MetadataFile nm) w1"
  obtain r2 w2 where m: "?M = (r2, w2)" by (cases ?M)
  have app2: "app w2 = app w"
    using deleteFileFromGitHub_app [of E "MetadataFile nm" w1] m app1 by simp
  have r2: "(r2 = Inr ()) = remote_delete_ok_part000 E (MetadataFile nm)"
    using deleteFileFromGitHub_fst [of E "MetadataFile nm" w1] m by simp
  let ?w3 = "w2\<lparr> app := (app w2)\<lparr> dataJson := (dataJson (app w2))
                \<lparr> files := filter (\<lambda>f. name f \<noteq> nm) (files (dataJson (app w2))),
                  lastUpdated := now E \<rparr> \<rparr> \<rparr>"
  let ?P = "uploadDataJsonToGitHub E ?w3"
  obtain r3 w4 where p: "?P = (r3, w4)" by (cases ?P)
  have app4: "app w4 = app ?w3"
    using uploadDataJsonToGitHub_app [of E ?w3] p by simp
  show ?thesis
  proof (cases r1)
    case (Inl e)
    with r1 have no: "\<not> list_all (\<lambda>i. remote_delete_ok_part000 E (ChunkFile nm i))
                        [1..<Suc (chunkCount entry)]" by simp
    have "app (snd (deleteFile_part000 E nm w)) = app w"
      using c f Inl app1
      by (simp add: deleteFile_part000_def deleteFile_body_part000_def catch_def bind_def ch
          emit_def add_event_def)
    with no show ?thesis by simp
  next
    case one: (Inr u1)
    with r1 have yes1: "list_all (\<lambda>i. remote_delete_ok_part000 E (ChunkFile nm i))
                        [1..<Suc (chunkCount entry)]" by simp
    show ?thesis
    proof (cases r2)
      case (Inl e)
      with r2 have no: "\<not> remote_delete_ok_part000 E (MetadataFile nm)" by simp
      have "app (snd (deleteFile_part000 E nm w)) = app w"
        using c f one Inl app2
        by (simp add: deleteFile_part000_def deleteFile_body_part000_def catch_def bind_def
            ch m emit_def add_event_def)
      with no show ?thesis by simp
    next
      case two: (Inr u2)
      with r2 have yes2: "remote_delete_ok_part000 E (MetadataFile nm)" by simp
      have run: "snd (deleteFile_part000 E nm w) =
          (case r3 of
             Inl e \<Rightarrow> add_event (ShowStatus (StatusError (Some e))) w4
           | Inr u \<Rightarrow> add_event LoadUploadedFiles (add_event (ShowStatus StatusSuccess) w4))"
        using c f one two
        by (simp add: deleteFile_part000_def deleteFile_body_part000_def catch_def bind_def
            ch m p set_files_stamped_def emit_def add_event_def split: sum.splits)
      have "app (snd (deleteFile_part000 E nm w)) = app ?w3"
        unfolding run using app4 by (cases r3) (simp_all add: add_event_def)
      with yes1 yes2 app2 show ?thesis by simp
    qed
  qed
qed

text \<open>
  The files in memory after \<open>deleteFile\<close> of \<open>script.js\<close>, for a name that is there.
\<close>

lemma deleteFile_present:
  assumes c: "confirm E"
    and f: "find (\<lambda>f. name f = nm) (files (dataJson (app w))) = Some entry"
  shows "if \<not> remote_delete_throws E (MetadataFile fp) \<and>
            list_all (\<lambda>i. \<not> remote_delete_throws E (ChunkFile fp i)) [1..<Suc (chunkCount entry)]
         then files (dataJson (app (snd (deleteFile E nm fp w)))) =
                filter (\<lambda>f. name f \<noteq> nm) (files (dataJson (app w))) @
                [updateRegistry_entry E [] 0 0 0 []]
         else dataJson (app (snd (deleteFile E nm fp w))) = dataJson (app w)"
proof -
  let ?M = "deleteGitHubFile E (MetadataFile fp) w"
  obtain r1 w1 where m: "?M = (r1, w1)" by (cases ?M)
  have app1: "app w1 = app w"
    using deleteGitHubFile_app [of E "MetadataFile fp" w] m by simp
  have r1: "(r1 = Inr ()) = (\<not> remote_delete_throws E (MetadataFile fp))"
    using deleteGitHubFile_fst [of E "MetadataFile fp" w] m by simp
  have f1: "find (\<lambda>f. name f = nm) (files (dataJson (app w1))) = Some entry"
    using f app1 by simp
  let ?C = "deleteChunks_from E fp (Suc 0) (chunkCount entry) w1"
  obtain r2 w2 where ch: "?C = (r2, w2)" by (cases ?C)
  have app2: "app w2 = app w"
    using deleteChunks_from_app [of E fp "Suc 0" "chunkCount entry" w1] ch app1 by simp
  have r2: "(r2 = Inr ()) =
      list_all (\<lambda>i. \<not> remote_delete_throws E (ChunkFile fp i)) [1..<Suc (chunkCount entry)]"
    using deleteChunks_from_fst [of E fp "Suc 0" "chunkCount entry" w1] ch by simp
  let ?w3 = "w2\<lparr> app := (app w2)\<lparr> dataJson := (dataJson (app w2))
                \<lparr> files := filter (\<lambda>f. name f \<noteq> nm) (files (dataJson (app w2))) \<rparr> \<rparr> \<rparr>"
  let ?U = "updateRegistry E [] 0 0 0 [] ?w3"
  obtain r3 w4 where u: "?U = (r3, w4)" by (cases ?U)
  have app4: "app w4 =
      (app ?w3)\<lparr> dataJson := pushed E (updateRegistry_entry E [] 0 0 0 []) (dataJson (app ?w3)) \<rparr>"
    using updateRegistry_app [of E "[]" 0 0 0 "[]" ?w3] u by simp
  show ?thesis
  proof (cases r1)
    case (Inl e)
    with r1 have no: "remote_delete_throws E (MetadataFile fp)" by simp
    have "app (snd (deleteFile E nm fp w)) = app w"
      using c Inl app1
      by (simp add: deleteFile_def deleteFile_body_def catch_def bind_def m emit_def
          add_event_def)
    with no show ?thesis by simp
  next
    case one: (Inr u1)
    with r1 have yes1: "\<not> remote_delete_throws E (MetadataFile fp)" by simp
    show ?thesis
    proof (cases r2)
      case (Inl e)
      with r2 have no: "\<not> list_all (\<lambda>i. \<not> remote_delete_throws E (ChunkFile fp i))
                          [1..<Suc (chunkCount entry)]" by simp
      have "app (snd (deleteFile E nm fp w)) = app w"
        using c f1 one Inl app2
        by (simp add: deleteFile_def deleteFile_body_def catch_def bind_def m ch emit_def
            add_event_def)
      with no show ?thesis by simp
    next
      case two: (Inr u2)
      with r2 have yes2: "list_all (\<lambda>i. \<not> remote_delete_throws E (ChunkFile fp i))
                          [1..<Suc (chunkCount entry)]" by simp
      have run: "snd (deleteFile E nm fp w) =
          (case r3 of
             Inl e \<Rightarrow> add_event (ShowStatus (StatusError None)) w4
           | Inr u \<Rightarrow> add_event LoadUploadedFiles (add_event (ShowStatus StatusSuccess) w4))"
        using c f1 one two
        by (simp add: deleteFile_def deleteFile_body_def catch_def bind_def m ch u
            set_files_def emit_def add_event_def split: sum.splits)
      have "app (snd (deleteFile E nm fp w)) = app w4"
        unfolding run by (cases r3) (simp_all add: add_event_def)
      with yes1 yes2 app2 app4 show ?thesis by (simp add: pushed_def)
    qed
  qed
qed

text \<open>
  Claim C7, amended. Deleting a name that no entry of the registry has leaves the registry
  in memory as it was and writes nothing to the remote registry, in both files; in the
  second file it is an error by an explicit check: \<open>deleteFile\<close> throws
  \<open>File not found in registry\<close> and shows \<open>Delete failed: File not found in registry\<close>.
  Removal is by exact match of the name. In the second file, when the name is there and
  the store deletes every chunk and the metadata object, the files become the old ones
  without those of that name, in the old order (and \<open>lastUpdated\<close> is set); when a
  deletion in the store fails, the registry stays as it was. In \<open>script.js\<close>, when the name
  is there and no deletion in the store throws, no entry of that name remains and the old
  entries of other names are kept, in the old order, at the front of the files; when one
  throws, the registry stays as it was. When the user declines, nothing happens at all.
\<close>

theorem delete_of_missing_name:
  "(confirm E \<and> find (\<lambda>f. name f = nm) (files (dataJson (app w))) = None \<longrightarrow>
      deleteFile_part000 E nm w =
        (Inr (), add_event (ShowStatus (StatusError (Some FileNotFoundInRegistry))) w) \<and>
      dataJson (app (snd (deleteFile E nm folderPath w))) = dataJson (app w) \<and>
      registry_puts (trace (snd (deleteFile E nm folderPath w))) = registry_puts (trace w)) \<and>
   (confirm E \<and> find (\<lambda>f. name f = nm) (files (dataJson (app w))) = Some entry \<longrightarrow>
      dataJson (app (snd (deleteFile_part000 E nm w))) =
        (if list_all (\<lambda>i. remote_delete_ok_part000 E (ChunkFile nm i))
              [1..<Suc (chunkCount entry)] \<and>
            remote_delete_ok_part000 E (MetadataFile nm)
         then (dataJson (app w))\<lparr> files := filter (\<lambda>f. name f \<noteq> nm) (files (dataJson (app w))),
                                   lastUpdated := now E \<rparr>
         else dataJson (app w))) \<and>
   (confirm E \<and> find (\<lambda>f. name f = nm) (files (dataJson (app w))) = Some entry \<and> nm \<noteq> [] \<longrightarrow>
      (if \<not> remote_delete_throws E (MetadataFile folderPath) \<and>
          list_all (\<lambda>i. \<not> remote_delete_throws E (ChunkFile folderPath i))
            [1..<Suc (chunkCount entry)]
       then \<exists>extra. files (dataJson (app (snd (deleteFile E nm folderPath w)))) =
                      filter (\<lambda>f. name f \<noteq> nm) (files (dataJson (app w))) @ extra \<and>
                    list_all (\<lambda>f. name f \<noteq> nm) extra
       else dataJson (app (snd (deleteFile E nm folderPath w))) = dataJson (app w))) \<and>
   (\<not> confirm E \<longrightarrow>
      deleteFile_part000 E nm w = (Inr (), w) \<and> deleteFile E nm folderPath w = (Inr (), w)) \<and>
   (find (\<lambda>f. name f = nm) (files (dataJson (app w))) = None) =
     (\<forall>f \<in> set (files (dataJson (app w))). name f \<noteq> nm)"
proof (intro conjI impI)
  assume a: "confirm E \<and> find (\<lambda>f. name f = nm) (files (dataJson (app w))) = None"
  then have none: "find (\<lambda>f. name f = nm) (files (dataJson (app w))) = None" by simp
  show "deleteFile_part000 E nm w =
        (Inr (), add_event (ShowStatus (StatusError (Some FileNotFoundInRegistry))) w)"
    using a
    by (simp add: deleteFile_part000_def deleteFile_body_part000_def catch_def throw_def emit_def)
  let ?D = "deleteGitHubFile E (MetadataFile folderPath) w"
  obtain r w1 where eq: "?D = (r, w1)" by (cases ?D)
  have app1: "app w1 = app w" using deleteGitHubFile_app [of E "MetadataFile folderPath" w] eq by simp
  have puts1: "registry_puts (trace w1) = registry_puts (trace w)"
    using deleteGitHubFile_puts [of E "MetadataFile folderPath" w] eq by simp
  have none1: "find (\<lambda>f. name f = nm) (files (dataJson (app w1))) = None"
    using none app1 by simp
  have body: "\<exists>e. deleteFile_body E nm folderPath w = (Inl e, w1)"
    using none1 by (cases r) (simp_all add: deleteFile_body_def bind_def eq throw_def)
  then obtain e where body': "deleteFile_body E nm folderPath w = (Inl e, w1)" by blast
  have run: "deleteFile E nm folderPath w = (Inr (), add_event (ShowStatus (StatusError None)) w1)"
    using a by (simp add: deleteFile_def catch_def body' emit_def)
  show "dataJson (app (snd (deleteFile E nm folderPath w))) = dataJson (app w)"
    using app1 by (simp add: run add_event_def)
  show "registry_puts (trace (snd (deleteFile E nm folderPath w))) = registry_puts (trace w)"
    using puts1 by (simp add: run add_event_def registry_puts_def)
next
  assume "confirm E \<and> find (\<lambda>f. name f = nm) (files (dataJson (app w))) = Some entry"
  then show "dataJson (app (snd (deleteFile_part000 E nm w))) =
        (if list_all (\<lambda>i. remote_delete_ok_part000 E (ChunkFile nm i))
              [1..<Suc (chunkCount entry)] \<and>
            remote_delete_ok_part000 E (MetadataFile nm)
         then (dataJson (app w))\<lparr> files := filter (\<lambda>f. name f \<noteq> nm) (files (dataJson (app w))),
                                   lastUpdated := now E \<rparr>
         else dataJson (app w))"
    using deleteFile_part000_present [of E nm w entry] by simp
next
  assume a: "confirm E \<and> find (\<lambda>f. name f = nm) (files (dataJson (app w))) = Some entry \<and>
             nm \<noteq> []"
  have other: "name (updateRegistry_entry E [] 0 0 0 []) \<noteq> nm"
    using a by (auto simp: updateRegistry_entry_def)
  from a deleteFile_present [of E nm w entry folderPath]
  have p: "if \<not> remote_delete_throws E (MetadataFile folderPath) \<and>
            list_all (\<lambda>i. \<not> remote_delete_throws E (ChunkFile folderPath i))
              [1..<Suc (chunkCount entry)]
         then files (dataJson (app (snd (deleteFile E nm folderPath w)))) =
                filter (\<lambda>f. name f \<noteq> nm) (files (dataJson (app w))) @
                [updateRegistry_entry E [] 0 0 0 []]
         else dataJson (app (snd (deleteFile E nm folderPath w))) = dataJson (app w)"
    by simp
  show "if \<not> remote_delete_throws E (MetadataFile folderPath) \<and>
          list_all (\<lambda>i. \<not> remote_delete_throws E (ChunkFile folderPath i))
            [1..<Suc (chunkCount entry)]
       then \<exists>extra. files (dataJson (app (snd (deleteFile E nm folderPath w)))) =
                      filter (\<lambda>f. name f \<noteq> nm) (files (dataJson (app w))) @ extra \<and>
                    list_all (\<lambda>f. name f \<noteq> nm) extra
       else dataJson (app (snd (deleteFile E nm folderPath w))) = dataJson (app w)"
  proof (cases "\<not> remote_delete_throws E (MetadataFile folderPath) \<and>
          list_all (\<lambda>i. \<not> remote_delete_throws E (ChunkFile folderPath i))
            [1..<Suc (chunkCount entry)]")
    case True
    with p have "files (dataJson (app (snd (deleteFile E nm folderPath w)))) =
                filter (\<lambda>f. name f \<noteq> nm) (files (dataJson (app w))) @
                [updateRegistry_entry E [] 0 0 0 []]"
      by simp
    with other have "\<exists>extra. files (dataJson (app (snd (deleteFile E nm folderPath w)))) =
                      filter (\<lambda>f. name f \<noteq> nm) (files (dataJson (app w))) @ extra \<and>
                    list_all (\<lambda>f. name f \<noteq> nm) extra"
      by (intro exI [of _ "[updateRegistry_entry E [] 0 0 0 []]"]) simp
    with True show ?thesis by simp
  next
    case False
    with p show ?thesis by auto
  qed
next
  assume "\<not> confirm E"
  then show "deleteFile_part000 E nm w = (Inr (), w)"
    by (simp add: deleteFile_part000_def return_def)
  from \<open>\<not> confirm E\<close> show "deleteFile E nm folderPath w = (Inr (), w)"
    by (simp add: deleteFile_def return_def)
next
  show "(find (\<lambda>f. name f = nm) (files (dataJson (app w))) = None) =
     (\<forall>f \<in> set (files (dataJson (app w))). name f \<noteq> nm)"
    by (rule find_name_None)
qed

theorem delete_of_missing_name_witness:
  "confirm env_accepting \<and>
   find (\<lambda>f. name f = ''ghost.bin'') (files (dataJson (app two_files_world))) = None \<and>
   deleteFile_part000 env_accepting ''ghost.bin'' two_files_world =
     (Inr (), add_event (ShowStatus (StatusError (Some FileNotFoundInRegistry))) two_files_world) \<and>
   dataJson (app (snd (deleteFile env_accepting ''ghost.bin'' ''files/ghost.bin'' two_files_world))) =
     dataJson (app two_files_world) \<and>
   map name (files (dataJson (app two_files_world))) = [''a.txt'', ''b.txt''] \<and>
   map name (files (dataJson (app (snd (deleteFile_part000 env_accepting ''a.txt''
                                          two_files_world))))) = [''b.txt''] \<and>
   take 1 (map name (files (dataJson (app (snd (deleteFile env_accepting ''a.txt'' ''files/a.txt''
                                                  two_files_world)))))) = [''b.txt''] \<and>
   filter (\<lambda>f. name f = ''a.txt'')
     (files (dataJson (app (snd (deleteFile env_accepting ''a.txt'' ''files/a.txt''
                                   two_files_world))))) = [] \<and>
   deleteFile_part000 env_declining ''a.txt'' two_files_world = (Inr (), two_files_world) \<and>
   deleteFile env_declining ''a.txt'' ''files/a.txt'' two_files_world = (Inr (), two_files_world)"
proof -
  have c: "confirm env_accepting"
    by (simp add: env_accepting_def env_conflict_def)
  have nc: "\<not> confirm env_declining"
    by (simp add: env_declining_def)
  have absent: "find (\<lambda>f. name f = ''ghost.bin'') (files (dataJson (app two_files_world))) = None"
    by (simp add: two_files_world_def sample_world_def sample_app_def remote_registry_def
        sample_registry_def other_entry_def)
  have present: "find (\<lambda>f. name f = ''a.txt'') (files (dataJson (app two_files_world))) =
      Some other_entry"
    by (simp add: two_files_world_def sample_world_def sample_app_def remote_registry_def
        sample_registry_def other_entry_def)
  have names: "map name (files (dataJson (app two_files_world))) = [''a.txt'', ''b.txt'']"
    by (simp add: two_files_world_def sample_world_def sample_app_def remote_registry_def
        sample_registry_def other_entry_def)
  have kept: "filter (\<lambda>f. name f \<noteq> ''a.txt'') (files (dataJson (app two_files_world))) =
      [other_entry\<lparr> name := ''b.txt'' \<rparr>]"
    by (simp add: two_files_world_def sample_world_def sample_app_def remote_registry_def
        sample_registry_def other_entry_def)
  have ok2: "remote_delete_ok_part000 env_accepting p" for p
    by (simp add: remote_delete_ok_part000_def env_accepting_def env_conflict_def ok_def)
  have ok1: "\<not> remote_delete_throws env_accepting p" for p
    by (simp add: remote_delete_throws_def env_accepting_def env_conflict_def ok_def)
  have count: "chunkCount other_entry = 1" by (simp add: other_entry_def)
  from delete_of_missing_name [of env_accepting "''ghost.bin''" two_files_world "''files/ghost.bin''" other_entry]
  have missing: "deleteFile_part000 env_accepting ''ghost.bin'' two_files_world =
     (Inr (), add_event (ShowStatus (StatusError (Some FileNotFoundInRegistry))) two_files_world)"
    and missing': "dataJson (app (snd (deleteFile env_accepting ''ghost.bin'' ''files/ghost.bin''
        two_files_world))) = dataJson (app two_files_world)"
    using c absent by simp_all
  from delete_of_missing_name [of env_accepting "''a.txt''" two_files_world "''files/a.txt''" other_entry]
  have second: "dataJson (app (snd (deleteFile_part000 env_accepting ''a.txt'' two_files_world))) =
      (dataJson (app two_files_world))\<lparr> files := [other_entry\<lparr> name := ''b.txt'' \<rparr>],
                                         lastUpdated := now env_accepting \<rparr>"
    using c present by (simp add: ok2 count kept)
  from delete_of_missing_name [of env_accepting "''a.txt''" two_files_world "''files/a.txt''" other_entry]
  obtain extra where first:
    "files (dataJson (app (snd (deleteFile env_accepting ''a.txt'' ''files/a.txt''
        two_files_world)))) = [other_entry\<lparr> name := ''b.txt'' \<rparr>] @ extra"
    and extra: "list_all (\<lambda>f. name f \<noteq> ''a.txt'') extra"
    using c present by (auto simp: ok1 count kept)
  have declined: "deleteFile_part000 env_declining ''a.txt'' two_files_world = (Inr (), two_files_world)"
    "deleteFile env_declining ''a.txt'' ''files/a.txt'' two_files_world = (Inr (), two_files_world)"
    using delete_of_missing_name [of env_declining "''a.txt''" two_files_world "''files/a.txt''" other_entry] nc
    by simp_all
  have gone: "filter (\<lambda>f. name f = ''a.txt'')
     (files (dataJson (app (snd (deleteFile env_accepting ''a.txt'' ''files/a.txt''
                                   two_files_world))))) = []"
    using extra by (simp add: first filter_empty_conv list_all_iff)
  have front: "take 1 (map name (files (dataJson (app (snd (deleteFile env_accepting ''a.txt''
      ''files/a.txt'' two_files_world)))))) = [''b.txt'']"
    by (simp add: first)
  have after: "map name (files (dataJson (app (snd (deleteFile_part000 env_accepting ''a.txt''
                                          two_files_world))))) = [''b.txt'']"
    by (simp add: second)
  from c absent missing missing' names after front gone declined show ?thesis by blast
qed


end
